theory Spec2Isabelle
  imports Complex_Main "HOL-Library.Word" "HOL-Library.Multiset"
begin

unbundle bit_operations_syntax

section \<open>Single-precision floats\<close>

text \<open>
  The source computes on IEEE 754 binary32 (\<^verbatim>\<open>float\<close>). A float is a finite real, an
  infinity or a NaN; every arithmetic operation computes the exact result and rounds it to
  the nearest binary32 value, ties to even, overflowing to an infinity, and no two
  operations are fused. The two zeros are one value here: the sign of a zero shows only in
  a division by zero, and the two divisions of the modelled code divide by the square root
  of a sum of squares, which is never a negative zero.
\<close>

datatype float = Finite real | PInf | NInf | NaN

definition pow2 :: "int \<Rightarrow> real" where
  "pow2 e = (if e \<ge> 0 then 2 ^ nat e else 1 / 2 ^ nat (- e))"

text \<open>Round to the nearest integer, ties to even.\<close>

definition rne :: "real \<Rightarrow> int" where
  "rne z = (let f = \<lfloor>z\<rfloor>
            in if z - of_int f < 1 / 2 then f
               else if z - of_int f > 1 / 2 then f + 1
               else if even f then f else f + 1)"

text \<open>
  The binary exponent of a magnitude, kept within the exponents of binary32: the largest
  \<open>e\<close> from \<open>-126\<close> to \<open>127\<close> with \<open>2\<^sup>e\<close> at most the magnitude, \<open>-126\<close> for a subnormal.
\<close>

fun find_expo :: "nat \<Rightarrow> real \<Rightarrow> int" where
  "find_expo 0 a = - 126"
| "find_expo (Suc n) a = (if pow2 (int (Suc n) - 126) \<le> a then int (Suc n) - 126 else find_expo n a)"

definition expo :: "real \<Rightarrow> int" where
  "expo x = find_expo 253 \<bar>x\<bar>"

definition FLT_MAX_real :: real where
  "FLT_MAX_real = (2 - 1 / 2 ^ 23) * 2 ^ 127"

definition round32 :: "real \<Rightarrow> float" where
  "round32 x =
     (let u = pow2 (expo x - 23);
          y = of_int (rne (x / u)) * u
      in if y > FLT_MAX_real then PInf else if y < - FLT_MAX_real then NInf else Finite y)"

definition fneg :: "float \<Rightarrow> float" where
  "fneg a = (case a of Finite x \<Rightarrow> Finite (- x) | PInf \<Rightarrow> NInf | NInf \<Rightarrow> PInf | NaN \<Rightarrow> NaN)"

fun fadd :: "float \<Rightarrow> float \<Rightarrow> float" where
  "fadd (Finite x) (Finite y) = round32 (x + y)"
| "fadd NaN b = NaN"
| "fadd a NaN = NaN"
| "fadd PInf NInf = NaN"
| "fadd NInf PInf = NaN"
| "fadd PInf b = PInf"
| "fadd NInf b = NInf"
| "fadd a PInf = PInf"
| "fadd a NInf = NInf"

definition fsub :: "float \<Rightarrow> float \<Rightarrow> float" where
  "fsub a b = fadd a (fneg b)"

text \<open>The sign of an infinite product or quotient, from the signs of its operands.\<close>

definition signed_inf :: "bool \<Rightarrow> float" where
  "signed_inf negative = (if negative then NInf else PInf)"

fun is_negative :: "float \<Rightarrow> bool" where
  "is_negative (Finite x) = (x < 0)"
| "is_negative NInf = True"
| "is_negative a = False"

fun fmul :: "float \<Rightarrow> float \<Rightarrow> float" where
  "fmul (Finite x) (Finite y) = round32 (x * y)"
| "fmul NaN b = NaN"
| "fmul a NaN = NaN"
| "fmul (Finite x) b = (if x = 0 then NaN else signed_inf ((x < 0) \<noteq> is_negative b))"
| "fmul a (Finite y) = (if y = 0 then NaN else signed_inf (is_negative a \<noteq> (y < 0)))"
| "fmul a b = signed_inf (is_negative a \<noteq> is_negative b)"

fun fdiv :: "float \<Rightarrow> float \<Rightarrow> float" where
  "fdiv (Finite x) (Finite y) =
     (if y = 0 then (if x = 0 then NaN else signed_inf (x < 0)) else round32 (x / y))"
| "fdiv NaN b = NaN"
| "fdiv a NaN = NaN"
| "fdiv (Finite x) b = Finite 0"
| "fdiv a (Finite y) = signed_inf (is_negative a \<noteq> (y < 0))"
| "fdiv a b = NaN"

fun fsqrt :: "float \<Rightarrow> float" where
  "fsqrt (Finite x) = (if x < 0 then NaN else round32 (sqrt x))"
| "fsqrt PInf = PInf"
| "fsqrt a = NaN"

text \<open>The comparisons: every comparison with a NaN is false, except \<^verbatim>\<open>!=\<close>.\<close>

fun flt :: "float \<Rightarrow> float \<Rightarrow> bool" where
  "flt (Finite x) (Finite y) = (x < y)"
| "flt NaN b = False"
| "flt a NaN = False"
| "flt a NInf = False"
| "flt PInf b = False"
| "flt a b = True"

fun feq :: "float \<Rightarrow> float \<Rightarrow> bool" where
  "feq NaN b = False"
| "feq a NaN = False"
| "feq a b = (a = b)"

definition fle :: "float \<Rightarrow> float \<Rightarrow> bool" where
  "fle a b = (flt a b \<or> feq a b)"

definition fgt :: "float \<Rightarrow> float \<Rightarrow> bool" where
  "fgt a b = flt b a"

definition fge :: "float \<Rightarrow> float \<Rightarrow> bool" where
  "fge a b = fle b a"

definition fne :: "float \<Rightarrow> float \<Rightarrow> bool" where
  "fne a b = (\<not> feq a b)"

text \<open>\<^verbatim>\<open>std::max(a, b)\<close> is \<^verbatim>\<open>(a < b) ? b : a\<close> and \<^verbatim>\<open>std::min(a, b)\<close> is \<^verbatim>\<open>(b < a) ? b : a\<close>.\<close>

definition fmax :: "float \<Rightarrow> float \<Rightarrow> float" where
  "fmax a b = (if flt a b then b else a)"

definition fmin :: "float \<Rightarrow> float \<Rightarrow> float" where
  "fmin a b = (if flt b a then b else a)"

text \<open>\<^verbatim>\<open>std::numeric_limits<float>::max()\<close> and the literal \<^verbatim>\<open>0.01f\<close>.\<close>

definition FLT_MAX :: float where
  "FLT_MAX = Finite FLT_MAX_real"

definition f_0_01 :: float where
  "f_0_01 = Finite (5368709 / 2 ^ 29)"

section \<open>Vectors and boxes\<close>

text \<open>
  The vector operations are those of the GLM library, component by component;
  \<^verbatim>\<open>glm::dot\<close> of two \<^verbatim>\<open>vec3\<close> adds the three products from the left and
  \<^verbatim>\<open>glm::length\<close> is the square root of the dot product of a vector with itself.
\<close>

datatype vec3 = Vec3 (vx: float) (vy: float) (vz: float)

datatype vec4 = Vec4 (px: float) (py: float) (pz: float) (pw: float)

definition vec3_add :: "vec3 \<Rightarrow> vec3 \<Rightarrow> vec3" where
  "vec3_add a b = Vec3 (fadd (vx a) (vx b)) (fadd (vy a) (vy b)) (fadd (vz a) (vz b))"

definition vec3_sub :: "vec3 \<Rightarrow> vec3 \<Rightarrow> vec3" where
  "vec3_sub a b = Vec3 (fsub (vx a) (vx b)) (fsub (vy a) (vy b)) (fsub (vz a) (vz b))"

definition vec3_scale :: "float \<Rightarrow> vec3 \<Rightarrow> vec3" where
  "vec3_scale s a = Vec3 (fmul s (vx a)) (fmul s (vy a)) (fmul s (vz a))"

definition vec3_dot :: "vec3 \<Rightarrow> vec3 \<Rightarrow> float" where
  "vec3_dot a b = fadd (fadd (fmul (vx a) (vx b)) (fmul (vy a) (vy b))) (fmul (vz a) (vz b))"

definition vec3_length :: "vec3 \<Rightarrow> float" where
  "vec3_length a = fsqrt (vec3_dot a a)"

section \<open>Octree (SpatialIndex.hpp, SpatialIndex.cpp)\<close>

datatype Point = Point (position: vec3) (index: nat)

text \<open>
  \<^verbatim>\<open>Octree::Node\<close>: the eight \<^verbatim>\<open>unique_ptr\<close> slots are a list of eight optional
  nodes. \<^verbatim>\<open>level\<close> is an \<^verbatim>\<open>unsigned int\<close>; it is only ever incremented on a node
  whose level is below \<^verbatim>\<open>maxDepth\<close>, so it cannot wrap and is a natural number here.
\<close>

datatype Node = Node (node_min: vec3) (node_max: vec3) (pointIndices: "nat list")
  (children: "Node option list") (level: nat) (isLeaf: bool)

text \<open>A default-constructed node: \<^verbatim>\<open>std::make_unique<Node>()\<close> followed by the field writes.\<close>

definition new_Node :: "vec3 \<Rightarrow> vec3 \<Rightarrow> nat \<Rightarrow> Node" where
  "new_Node mn mx lvl = Node mn mx [] (replicate 8 None) lvl True"

definition center :: "Node \<Rightarrow> vec3" where
  "center n = vec3_scale (Finite (1/2)) (vec3_add (node_min n) (node_max n))"

definition size_n :: "Node \<Rightarrow> vec3" where
  "size_n n = vec3_sub (node_max n) (node_min n)"

definition maxDim :: "Node \<Rightarrow> float" where
  "maxDim n = (let s = size_n n in fmax (vx s) (fmax (vy s) (vz s)))"

definition getChildIndex :: "vec3 \<Rightarrow> vec3 \<Rightarrow> int" where
  "getChildIndex point c =
     (let index = 0;
          index = (if fge (vx point) (vx c) then index OR 1 else index);
          index = (if fge (vy point) (vy c) then index OR 2 else index);
          index = (if fge (vz point) (vz c) then index OR 4 else index)
      in index)"

definition childMin :: "Node \<Rightarrow> vec3 \<Rightarrow> nat \<Rightarrow> vec3" where
  "childMin node c i = Vec3
     (if i AND 1 \<noteq> 0 then vx c else vx (node_min node))
     (if i AND 2 \<noteq> 0 then vy c else vy (node_min node))
     (if i AND 4 \<noteq> 0 then vz c else vz (node_min node))"

definition childMax :: "Node \<Rightarrow> vec3 \<Rightarrow> nat \<Rightarrow> vec3" where
  "childMax node c i = Vec3
     (if i AND 1 \<noteq> 0 then vx (node_max node) else vx c)
     (if i AND 2 \<noteq> 0 then vy (node_max node) else vy c)
     (if i AND 4 \<noteq> 0 then vz (node_max node) else vz c)"

text \<open>
  The distribution loop: each index is appended to the list of the octant its point falls
  in, when that octant number is within \<open>0..7\<close>.
\<close>

definition distribute_step :: "Point list \<Rightarrow> vec3 \<Rightarrow> nat list list \<Rightarrow> nat \<Rightarrow> nat list list" where
  "distribute_step points c childIndices idx =
     (let childIdx = getChildIndex (position (points ! idx)) c
      in if childIdx \<ge> 0 \<and> childIdx < 8
         then childIndices[nat childIdx := childIndices ! nat childIdx @ [idx]]
         else childIndices)"

definition distribute :: "Point list \<Rightarrow> vec3 \<Rightarrow> nat list \<Rightarrow> nat list list" where
  "distribute points c indices = foldl (distribute_step points c) (replicate 8 []) indices"

record Stats =
  mNodeCount :: "32 word"
  mMaxDepth :: nat

definition set_leaf :: "Node \<Rightarrow> nat list \<Rightarrow> Node" where
  "set_leaf n indices = Node (node_min n) (node_max n) indices (children n) (level n) True"

definition set_isLeaf :: "Node \<Rightarrow> bool \<Rightarrow> Node" where
  "set_isLeaf n b = Node (node_min n) (node_max n) (pointIndices n) (children n) (level n) b"

definition set_child :: "Node \<Rightarrow> nat \<Rightarrow> Node \<Rightarrow> Node" where
  "set_child n i c = Node (node_min n) (node_max n) (pointIndices n) ((children n)[i := Some c]) (level n) (isLeaf n)"

definition hasChildren :: "Node \<Rightarrow> bool" where
  "hasChildren n = (\<exists>i \<in> set [0..<8]. children n ! i \<noteq> None)"

function buildRecursive ::
  "Point list \<Rightarrow> nat \<Rightarrow> nat \<Rightarrow> Node \<Rightarrow> nat list \<Rightarrow> Stats \<Rightarrow> Node \<times> Stats" where
  "buildRecursive points maxPointsPerNode maxDepth node indices st =
     (let st1 = st\<lparr>mNodeCount := mNodeCount st + 1\<rparr> in
      if length indices \<le> maxPointsPerNode \<or> level node \<ge> maxDepth then
        (set_leaf node indices, st1\<lparr>mMaxDepth := max (mMaxDepth st1) (level node)\<rparr>)
      else
        let c = center node;
            childIndices = distribute points c indices;
            (node', st') = fold (\<lambda>i (n, s).
                if childIndices ! i \<noteq> [] then
                  let (ch, s') = buildRecursive points maxPointsPerNode maxDepth
                        (new_Node (childMin node c i) (childMax node c i) (level node + 1))
                        (childIndices ! i) s
                  in (set_child n i ch, s')
                else (n, s)) [0..<8] (set_isLeaf node False, st1)
        in if \<not> hasChildren node' then (set_leaf node' indices, st') else (node', st'))"
  by pat_completeness auto
termination
  by (relation "measure (\<lambda>(points, maxPointsPerNode, maxDepth, node, indices, st). maxDepth - level node)")
     (auto simp: new_Node_def)


text \<open>
  The index-collecting loop of \<^verbatim>\<open>Octree::build\<close>:
  \<^verbatim>\<open>for (unsigned int i = 0; i < points.size(); ++i) allIndices.push_back(i);\<close>
  The counter is a 32-bit unsigned integer compared with a \<^verbatim>\<open>size_t\<close>; when the
  array has \<open>2^32\<close> elements or more the counter wraps and the loop does not end, which
  is the value \<open>None\<close> here.
\<close>

partial_function (option) collectIndices :: "nat \<Rightarrow> 32 word \<Rightarrow> nat list \<Rightarrow> nat list option" where
  "collectIndices n i allIndices =
     (if unat i < n then collectIndices n (i + 1) (allIndices @ [unat i]) else Some allIndices)"

record Octree =
  mRoot :: "Node option"
  stats :: Stats

definition Octree_default :: Octree where
  "Octree_default = \<lparr>mRoot = None, stats = \<lparr>mNodeCount = 0, mMaxDepth = 0\<rparr>\<rparr>"

definition build :: "Point list \<Rightarrow> vec3 \<Rightarrow> vec3 \<Rightarrow> nat \<Rightarrow> nat \<Rightarrow> Octree option" where
  "build points mn mx maxPointsPerNode maxDepth =
     (let st0 = \<lparr>mNodeCount = 0, mMaxDepth = 0\<rparr>;
          rt = new_Node mn mx 0
      in case collectIndices (length points) 0 [] of
           None \<Rightarrow> None
         | Some allIndices \<Rightarrow>
             (let (rt', st') = buildRecursive points maxPointsPerNode maxDepth rt allIndices st0
              in Some \<lparr>mRoot = Some rt', stats = st'\<rparr>))"

subsection \<open>Reading a tree\<close>

fun nodes :: "Node \<Rightarrow> Node list" where
  "nodes (Node mn mx pis ch lvl leaf) =
     Node mn mx pis ch lvl leaf # concat (map (\<lambda>c. case c of None \<Rightarrow> [] | Some k \<Rightarrow> nodes k) ch)"

definition leaves :: "Node \<Rightarrow> Node list" where
  "leaves r = filter isLeaf (nodes r)"

definition leafIndices :: "Node \<Rightarrow> nat list" where
  "leafIndices r = concat (map pointIndices (leaves r))"


section \<open>Frustum (RenderUtils.hpp)\<close>

text \<open>A \<^verbatim>\<open>glm::mat4\<close> is read as \<^verbatim>\<open>m[column][row]\<close>.\<close>

type_synonym mat4 = "nat \<Rightarrow> nat \<Rightarrow> float"


definition vec3_of :: "vec4 \<Rightarrow> vec3" where
  "vec3_of p = Vec3 (px p) (py p) (pz p)"

definition normalize_plane :: "vec4 \<Rightarrow> vec4" where
  "normalize_plane p =
     (let len = vec3_length (vec3_of p)
      in if fgt len (Finite 0) then Vec4 (fdiv (px p) len) (fdiv (py p) len) (fdiv (pz p) len) (fdiv (pw p) len) else p)"

text \<open>The six planes, in the order left, right, bottom, top, near, far.\<close>

definition extractFromMatrix :: "mat4 \<Rightarrow> vec4 list" where
  "extractFromMatrix viewProj = map normalize_plane
     [Vec4 (fadd (viewProj 0 3) (viewProj 0 0)) (fadd (viewProj 1 3) (viewProj 1 0))
           (fadd (viewProj 2 3) (viewProj 2 0)) (fadd (viewProj 3 3) (viewProj 3 0)),
      Vec4 (fsub (viewProj 0 3) (viewProj 0 0)) (fsub (viewProj 1 3) (viewProj 1 0))
           (fsub (viewProj 2 3) (viewProj 2 0)) (fsub (viewProj 3 3) (viewProj 3 0)),
      Vec4 (fadd (viewProj 0 3) (viewProj 0 1)) (fadd (viewProj 1 3) (viewProj 1 1))
           (fadd (viewProj 2 3) (viewProj 2 1)) (fadd (viewProj 3 3) (viewProj 3 1)),
      Vec4 (fsub (viewProj 0 3) (viewProj 0 1)) (fsub (viewProj 1 3) (viewProj 1 1))
           (fsub (viewProj 2 3) (viewProj 2 1)) (fsub (viewProj 3 3) (viewProj 3 1)),
      Vec4 (fadd (viewProj 0 3) (viewProj 0 2)) (fadd (viewProj 1 3) (viewProj 1 2))
           (fadd (viewProj 2 3) (viewProj 2 2)) (fadd (viewProj 3 3) (viewProj 3 2)),
      Vec4 (fsub (viewProj 0 3) (viewProj 0 2)) (fsub (viewProj 1 3) (viewProj 1 2))
           (fsub (viewProj 2 3) (viewProj 2 2)) (fsub (viewProj 3 3) (viewProj 3 2))]"

definition positiveVertex :: "vec3 \<Rightarrow> vec3 \<Rightarrow> vec3 \<Rightarrow> vec3" where
  "positiveVertex normal mn mx = Vec3
     (if fgt (vx normal) (Finite 0) then vx mx else vx mn)
     (if fgt (vy normal) (Finite 0) then vy mx else vy mn)
     (if fgt (vz normal) (Finite 0) then vz mx else vz mn)"

definition plane_distance :: "vec4 \<Rightarrow> vec3 \<Rightarrow> float" where
  "plane_distance plane v = fadd (vec3_dot (vec3_of plane) v) (pw plane)"

text \<open>The loop over the planes, with its early \<^verbatim>\<open>return false\<close>.\<close>

fun intersectsAABB :: "vec4 list \<Rightarrow> vec3 \<Rightarrow> vec3 \<Rightarrow> bool" where
  "intersectsAABB [] mn mx = True"
| "intersectsAABB (plane # planes) mn mx =
     (let normal = vec3_of plane;
          distance = plane_distance plane (positiveVertex normal mn mx)
      in if flt distance (Finite 0) then False else intersectsAABB planes mn mx)"

definition vec3_min :: "vec3 \<Rightarrow> vec3 \<Rightarrow> vec3" where
  "vec3_min a b = Vec3 (fmin (vx a) (vx b)) (fmin (vy a) (vy b)) (fmin (vz a) (vz b))"

definition vec3_max :: "vec3 \<Rightarrow> vec3 \<Rightarrow> vec3" where
  "vec3_max a b = Vec3 (fmax (vx a) (vx b)) (fmax (vy a) (vy b)) (fmax (vz a) (vz b))"

definition corners :: "vec3 \<Rightarrow> vec3 \<Rightarrow> vec3 list" where
  "corners mn mx =
     [Vec3 (vx mn) (vy mn) (vz mn), Vec3 (vx mx) (vy mn) (vz mn),
      Vec3 (vx mn) (vy mx) (vz mn), Vec3 (vx mx) (vy mx) (vz mn),
      Vec3 (vx mn) (vy mn) (vz mx), Vec3 (vx mx) (vy mn) (vz mx),
      Vec3 (vx mn) (vy mx) (vz mx), Vec3 (vx mx) (vy mx) (vz mx)]"



section \<open>Octree queries\<close>

definition distanceToAABB :: "vec3 \<Rightarrow> vec3 \<Rightarrow> vec3 \<Rightarrow> float" where
  "distanceToAABB point mn mx =
     (let closest = Vec3 (fmax (vx mn) (fmin (vx point) (vx mx)))
                         (fmax (vy mn) (fmin (vy point) (vy mx)))
                         (fmax (vz mn) (fmin (vz point) (vz mx)))
      in vec3_length (vec3_sub point closest))"

text \<open>
  The recursion descends through the child slots in slot order; \<^verbatim>\<open>outIndices\<close> is the
  vector the source appends to.
\<close>

fun getVisiblePointsRecursive :: "mat4 \<Rightarrow> vec3 \<Rightarrow> float \<Rightarrow> Node \<Rightarrow> nat list \<Rightarrow> nat list" where
  "getVisiblePointsRecursive viewProj camPos maxDistance (Node mn mx pis ch lvl leaf) outIndices =
     (let dist = distanceToAABB camPos mn mx in
      if fgt dist maxDistance then outIndices
      else
        let frustum = extractFromMatrix viewProj in
        if \<not> intersectsAABB frustum mn mx then outIndices
        else if leaf then outIndices @ pis
        else fold (\<lambda>c out. case c of None \<Rightarrow> out
                 | Some k \<Rightarrow> getVisiblePointsRecursive viewProj camPos maxDistance k out)
               ch outIndices)"

definition getVisiblePoints :: "Octree \<Rightarrow> mat4 \<Rightarrow> vec3 \<Rightarrow> float \<Rightarrow> nat list" where
  "getVisiblePoints oct viewProj camPos maxDistance =
     (case mRoot oct of None \<Rightarrow> []
      | Some rt \<Rightarrow> getVisiblePointsRecursive viewProj camPos maxDistance rt [])"

definition useNode :: "vec3 \<Rightarrow> float \<Rightarrow> Node \<Rightarrow> bool" where
  "useNode camPos farThreshold node =
     (let nodeDist = vec3_length (vec3_sub camPos (center node));
          nodeSize = maxDim node
      in fgt nodeDist farThreshold \<or> flt (fdiv nodeSize nodeDist) f_0_01)"

fun getLODPointsRecursive :: "vec3 \<Rightarrow> float \<Rightarrow> float \<Rightarrow> float \<Rightarrow> Node \<Rightarrow> nat list \<Rightarrow> nat list" where
  "getLODPointsRecursive camPos distance farThreshold nearThreshold (Node mn mx pis ch lvl leaf) outIndices =
     (if useNode camPos farThreshold (Node mn mx pis ch lvl leaf) \<or> leaf then
        if leaf then outIndices @ pis
        else fold (\<lambda>c out. case c of None \<Rightarrow> out
                 | Some k \<Rightarrow> if isLeaf k then out @ pointIndices k else out)
               ch outIndices
      else fold (\<lambda>c out. case c of None \<Rightarrow> out
               | Some k \<Rightarrow> getLODPointsRecursive camPos distance farThreshold nearThreshold k out)
             ch outIndices)"

definition getLODPoints :: "Octree \<Rightarrow> vec3 \<Rightarrow> float \<Rightarrow> float \<Rightarrow> float \<Rightarrow> nat list" where
  "getLODPoints oct camPos distance farThreshold nearThreshold =
     (case mRoot oct of None \<Rightarrow> []
      | Some rt \<Rightarrow> getLODPointsRecursive camPos distance farThreshold nearThreshold rt [])"


section \<open>Configuration and half floats (Utils.hpp)\<close>

definition MinVerticesForThreading :: nat where "MinVerticesForThreading = 10000"
definition MinMeshesForThreading :: nat where "MinMeshesForThreading = 2"
definition PointCloudMinPointsForOctree :: nat where "PointCloudMinPointsForOctree = 100000"
definition OctreeMaxDepth :: nat where "OctreeMaxDepth = 12"
definition OctreePointsPerNode :: nat where "OctreePointsPerNode = 1000"
definition VertexOptimizationMinVerts :: nat where "VertexOptimizationMinVerts = 10000"

text \<open>
  \<^verbatim>\<open>floatToHalf\<close> after its \<^verbatim>\<open>memcpy\<close>: the argument is the 32-bit pattern of the float.
  \<^verbatim>\<open>exp32\<close> is a signed 32-bit integer holding a value between \<open>-111\<close> and \<open>142\<close>.
\<close>

definition floatToHalf :: "32 word \<Rightarrow> 16 word" where
  "floatToHalf bits =
     (let sign = (push_bit 15 (drop_bit 31 bits)) AND 0x8000;
          exp = (drop_bit 23 bits) AND 0xFF;
          mantissa = (drop_bit 13 bits) AND 0x3FF
      in if exp = 0xFF then
           (if mantissa = 0 then ucast (sign OR 0x7C00) else ucast (sign OR 0x7E00))
         else if exp = 0 then ucast sign
         else
           let exp32 = int (unat exp) - 127 + 15
           in if exp32 > 31 then ucast (sign OR 0x7C00)
              else if exp32 < 0 then ucast sign
              else ucast (sign OR push_bit 10 (word_of_int exp32) OR mantissa))"

section \<open>Model (Model.h, Model.cpp)\<close>

datatype vec2 = Vec2 (ux: float) (uy: float)

record Vertex =
  position_v :: vec3
  normal :: vec3
  texcoord :: vec2
  color :: vec3
  scalar :: float

text \<open>\<^verbatim>\<open>Vertex v{}\<close>: zero-initialised, with the default member initialisers.\<close>

definition Vertex_default :: Vertex where
  "Vertex_default = \<lparr>position_v = Vec3 (Finite 0) (Finite 0) (Finite 0),
     normal = Vec3 (Finite 0) (Finite 0) (Finite 0), texcoord = Vec2 (Finite 0) (Finite 0),
     color = Vec3 (Finite 1) (Finite 1) (Finite 1), scalar = Finite 0\<rparr>"

record OptimizedVertex =
  pos :: "16 word list"
  normal_o :: "float list"
  uv :: "16 word list"
  color_o :: "float list"
  scalar_o :: float

text \<open>
  The calls made to OpenGL are recorded in order. A buffer upload records the number of
  elements asked for (byte size divided by the element size) and the array it reads from;
  an attribute pointer records the member whose offset is passed.
\<close>

datatype gl_target = GL_ARRAY_BUFFER | GL_ELEMENT_ARRAY_BUFFER
datatype gl_type = GL_FLOAT | GL_HALF_FLOAT | GL_UNSIGNED_SHORT | GL_UNSIGNED_INT
datatype gl_mode = GL_POINTS | GL_TRIANGLES
datatype gl_usage = GL_STATIC_DRAW | GL_DYNAMIC_DRAW
datatype vertex_member = Member_pos | Member_normal | Member_uv | Member_color | Member_scalar
datatype vertex_struct = Struct_Vertex | Struct_OptimizedVertex

datatype buffer_data =
    VertexData "Vertex list"
  | OptimizedVertexData "OptimizedVertex list"
  | Index16Data "16 word list"
  | Index32Data "32 word list"

datatype gl_call =
    GenVertexArrays nat
  | GenBuffers nat
  | BindVertexArray nat
  | BindBuffer gl_target nat
  | BufferData gl_target nat buffer_data gl_usage
  | EnableVertexAttribArray nat
  | VertexAttribPointer nat nat gl_type vertex_struct vertex_member
  | DrawElements gl_mode nat gl_type
  | PointSize float
  | DeleteBuffers nat

text \<open>
  \<open>gl_names\<close> counts the object names handed out so far; a generated name is the next
  positive number, so it is never \<open>0\<close> (the invalid name). The two function-local
  statics of the point-drawing functions live here too.
\<close>

record GL =
  gl_log :: "gl_call list"
  gl_names :: nat
  sLastPointSize_subset :: float

definition emit :: "gl_call list \<Rightarrow> GL \<Rightarrow> GL" where
  "emit cs gl = gl\<lparr>gl_log := gl_log gl @ cs\<rparr>"

record Mesh =
  vertices :: "Vertex list"
  indices :: "32 word list"
  vao :: nat
  vbo :: nat
  ebo :: nat
  indexCount :: nat
  vertexCount :: nat
  isPointCloud :: bool
  uses16BitIndices :: bool
  usesOptimizedVertices :: bool

definition Mesh_default :: Mesh where
  "Mesh_default = \<lparr>vertices = [], indices = [], vao = 0, vbo = 0, ebo = 0, indexCount = 0,
     vertexCount = 0, isPointCloud = False, uses16BitIndices = False, usesOptimizedVertices = False\<rparr>"

record Model =
  mMeshes :: "Mesh list"
  mMin :: vec3
  mMax :: vec3
  mScalarMin :: float
  mScalarMax :: float
  mSpatialIndex :: Octree

definition Model_default :: Model where
  "Model_default = \<lparr>mMeshes = [], mMin = Vec3 (Finite 0) (Finite 0) (Finite 0),
     mMax = Vec3 (Finite 0) (Finite 0) (Finite 0), mScalarMin = Finite 0,
     mScalarMax = Finite 1, mSpatialIndex = Octree_default\<rparr>"

definition Model_isPointCloud :: "Model \<Rightarrow> bool" where
  "Model_isPointCloud m = (mMeshes m \<noteq> [] \<and> isPointCloud (mMeshes m ! 0))"

definition valid :: "Octree \<Rightarrow> bool" where
  "valid oct = (mRoot oct \<noteq> None)"

definition hasSpatialIndex :: "Model \<Rightarrow> bool" where
  "hasSpatialIndex m = valid (mSpatialIndex m)"


subsection \<open>Loading\<close>

text \<open>
  What the importer hands over. A null array is \<open>None\<close>. \<^verbatim>\<open>mNumVertices\<close> and the
  face and index counts are \<^verbatim>\<open>unsigned int\<close> in the importer's structures.
\<close>

datatype aiColor4D = aiColor4D (col_r: float) (col_g: float) (col_b: float) (col_a: float)

record aiMesh =
  mNumVertices :: nat
  mVertices :: "vec3 list option"
  mNormals :: "vec3 list option"
  mTextureCoords0 :: "vec3 list option"
  mColors0 :: "aiColor4D list option"
  mFaces :: "32 word list list"

record aiScene =
  scene_mMeshes :: "aiMesh list"

definition HasPositions :: "aiMesh \<Rightarrow> bool" where
  "HasPositions m = (mVertices m \<noteq> None \<and> mNumVertices m > 0)"
definition HasNormals :: "aiMesh \<Rightarrow> bool" where
  "HasNormals m = (mNormals m \<noteq> None \<and> mNumVertices m > 0)"
definition HasTextureCoords0 :: "aiMesh \<Rightarrow> bool" where
  "HasTextureCoords0 m = (mTextureCoords0 m \<noteq> None \<and> mNumVertices m > 0)"
definition HasVertexColors0 :: "aiMesh \<Rightarrow> bool" where
  "HasVertexColors0 m = (mColors0 m \<noteq> None \<and> mNumVertices m > 0)"

definition makeVertex :: "aiMesh \<Rightarrow> nat \<Rightarrow> Vertex" where
  "makeVertex mesh i =
     (let v = Vertex_default;
          v = (if HasPositions mesh then v\<lparr>position_v := the (mVertices mesh) ! i\<rparr> else v);
          v = (if HasNormals mesh then v\<lparr>normal := the (mNormals mesh) ! i\<rparr> else v);
          v = (if HasTextureCoords0 mesh
               then v\<lparr>texcoord := Vec2 (vx (the (mTextureCoords0 mesh) ! i)) (vy (the (mTextureCoords0 mesh) ! i))\<rparr>
               else v);
          v = (if HasVertexColors0 mesh
               then v\<lparr>color := Vec3 (col_r (the (mColors0 mesh) ! i)) (col_g (the (mColors0 mesh) ! i))
                                      (col_b (the (mColors0 mesh) ! i))\<rparr>
               else v)
      in v)"

text \<open>The per-mesh accumulator of \<^verbatim>\<open>processMesh\<close>: bounds and scalar range.\<close>

record Bounds =
  bMin :: vec3
  bMax :: vec3
  bScalarMin :: float
  bScalarMax :: float

definition Bounds_init :: Bounds where
  "Bounds_init = \<lparr>bMin = Vec3 FLT_MAX FLT_MAX FLT_MAX, bMax = Vec3 (fneg FLT_MAX) (fneg FLT_MAX) (fneg FLT_MAX),
     bScalarMin = FLT_MAX, bScalarMax = fneg FLT_MAX\<rparr>"

definition bounds_vertex :: "Bounds \<Rightarrow> Vertex \<Rightarrow> Bounds" where
  "bounds_vertex b v = \<lparr>bMin = vec3_min (bMin b) (position_v v), bMax = vec3_max (bMax b) (position_v v),
     bScalarMin = fmin (bScalarMin b) (scalar v), bScalarMax = fmax (bScalarMax b) (scalar v)\<rparr>"

definition bounds_merge :: "Bounds \<Rightarrow> Bounds \<Rightarrow> Bounds" where
  "bounds_merge g b = \<lparr>bMin = vec3_min (bMin g) (bMin b), bMax = vec3_max (bMax g) (bMax b),
     bScalarMin = fmin (bScalarMin g) (bScalarMin b), bScalarMax = fmax (bScalarMax g) (bScalarMax b)\<rparr>"

text \<open>
  \<^verbatim>\<open>processMesh\<close> up to its merge step: the mesh it builds and its local bounds.
  \<^verbatim>\<open>indexCount\<close> is a cast of a \<^verbatim>\<open>size_t\<close> to \<^verbatim>\<open>unsigned int\<close>.
\<close>

definition processMesh :: "aiMesh \<Rightarrow> Mesh \<times> Bounds" where
  "processMesh aimesh =
     (let vs = map (makeVertex aimesh) [0..<mNumVertices aimesh];
          b = foldl bounds_vertex Bounds_init vs;
          pc = (length (mFaces aimesh) = 0);
          is = (if \<not> pc then concat (mFaces aimesh) else []);
          mesh = Mesh_default\<lparr>vertices := vs, isPointCloud := pc, indices := is,
                   indexCount := (if \<not> pc then length is mod 2 ^ 32 else 0),
                   vertexCount := length vs mod 2 ^ 32\<rparr>
      in (mesh, b))"

text \<open>
  The merge step, under the mutex: the mesh is installed in its slot and the local bounds
  are folded into the global ones. Each slot is written once and the fold is by
  \<open>min\<close> and \<open>max\<close>; the meshes are taken in index order here, which is the order of
  the single-threaded branch.
\<close>

definition merge_mesh :: "aiMesh list \<Rightarrow> Mesh list \<times> Bounds \<Rightarrow> nat \<Rightarrow> Mesh list \<times> Bounds" where
  "merge_mesh ais acc meshIndex =
     (let (mesh, b) = processMesh (ais ! meshIndex)
      in ((fst acc)[meshIndex := mesh], bounds_merge (snd acc) b))"

text \<open>\<^verbatim>\<open>totalPoints += mesh.vertexCount\<close> on \<^verbatim>\<open>unsigned int\<close>.\<close>

definition totalPoints :: "Mesh list \<Rightarrow> nat" where
  "totalPoints ms = foldl (\<lambda>t mesh. (t + vertexCount mesh) mod 2 ^ 32) 0 ms"

text \<open>
  The point-collecting loops: \<^verbatim>\<open>globalIndex\<close> counts across all meshes (and is an
  \<^verbatim>\<open>unsigned int\<close>).
\<close>

definition collect_mesh :: "Point list \<times> nat \<Rightarrow> Mesh \<Rightarrow> Point list \<times> nat" where
  "collect_mesh acc mesh =
     foldl (\<lambda>(points, globalIndex) i.
              (points @ [Point (position_v (vertices mesh ! i)) globalIndex], (globalIndex + 1) mod 2 ^ 32))
           acc [0..<vertexCount mesh]"

definition collectPoints :: "Mesh list \<Rightarrow> Point list" where
  "collectPoints ms = fst (foldl collect_mesh ([], 0) ms)"

datatype load_result = LoadFailed string Model | LoadOk Model

text \<open>
  \<^verbatim>\<open>Model::loadFromFile\<close>, given what \<^verbatim>\<open>importer.ReadFile\<close> returned (\<open>None\<close> for a null
  scene) and the importer's error string. The result is \<open>None\<close> when the call does not
  return (the octree's index loop).
\<close>

definition loadFromFile :: "aiScene option \<Rightarrow> string \<Rightarrow> Model \<Rightarrow> load_result option" where
  "loadFromFile scene errorString model =
     (let model = model\<lparr>mMeshes := []\<rparr> in
      if scene = None \<or> scene_mMeshes (the scene) = [] then Some (LoadFailed errorString model)
      else
        let ais = scene_mMeshes (the scene);
            g0 = \<lparr>bMin = Vec3 FLT_MAX FLT_MAX FLT_MAX, bMax = Vec3 (fneg FLT_MAX) (fneg FLT_MAX) (fneg FLT_MAX),
                   bScalarMin = FLT_MAX, bScalarMax = fneg FLT_MAX\<rparr>;
            (ms, g) = foldl (merge_mesh ais) (replicate (length ais) Mesh_default, g0) [0..<length ais];
            model = model\<lparr>mMeshes := ms, mMin := bMin g, mMax := bMax g,
                      mScalarMin := bScalarMin g, mScalarMax := bScalarMax g\<rparr>;
            model = (if fle (mScalarMax model) (mScalarMin model)
                     then model\<lparr>mScalarMin := Finite 0, mScalarMax := Finite 1\<rparr> else model)
        in if Model_isPointCloud model \<and> mMeshes model \<noteq> []
              \<and> totalPoints (mMeshes model) \<ge> PointCloudMinPointsForOctree
           then (case build (collectPoints (mMeshes model)) (mMin model) (mMax model)
                        OctreePointsPerNode OctreeMaxDepth of
                   None \<Rightarrow> None
                 | Some oct \<Rightarrow> Some (LoadOk (model\<lparr>mSpatialIndex := oct\<rparr>)))
           else Some (LoadOk model))"


subsection \<open>Upload\<close>

text \<open>
  \<open>bits_of\<close> is the \<^verbatim>\<open>memcpy\<close> of a float into a 32-bit integer at the head of
  \<^verbatim>\<open>floatToHalf\<close>: the platform's encoding of the float.
\<close>

definition pack_vertex :: "(float \<Rightarrow> 32 word) \<Rightarrow> Vertex \<Rightarrow> OptimizedVertex" where
  "pack_vertex bits_of v =
     \<lparr>pos = [floatToHalf (bits_of (vx (position_v v))), floatToHalf (bits_of (vy (position_v v))),
             floatToHalf (bits_of (vz (position_v v)))],
      normal_o = [vx (normal v), vy (normal v), vz (normal v)],
      uv = [floatToHalf (bits_of (ux (texcoord v))), floatToHalf (bits_of (uy (texcoord v)))],
      color_o = [vx (color v), vy (color v), vz (color v)],
      scalar_o = scalar v\<rparr>"

definition optimized_layout :: "gl_call list" where
  "optimized_layout =
     [EnableVertexAttribArray 0, VertexAttribPointer 0 3 GL_HALF_FLOAT Struct_OptimizedVertex Member_pos,
      EnableVertexAttribArray 1, VertexAttribPointer 1 3 GL_FLOAT Struct_OptimizedVertex Member_normal,
      EnableVertexAttribArray 2, VertexAttribPointer 2 2 GL_HALF_FLOAT Struct_OptimizedVertex Member_uv,
      EnableVertexAttribArray 3, VertexAttribPointer 3 3 GL_FLOAT Struct_OptimizedVertex Member_color,
      EnableVertexAttribArray 4, VertexAttribPointer 4 1 GL_FLOAT Struct_OptimizedVertex Member_scalar]"

definition standard_layout :: "gl_call list" where
  "standard_layout =
     [EnableVertexAttribArray 0, VertexAttribPointer 0 3 GL_FLOAT Struct_Vertex Member_pos,
      EnableVertexAttribArray 1, VertexAttribPointer 1 3 GL_FLOAT Struct_Vertex Member_normal,
      EnableVertexAttribArray 2, VertexAttribPointer 2 2 GL_FLOAT Struct_Vertex Member_uv,
      EnableVertexAttribArray 3, VertexAttribPointer 3 3 GL_FLOAT Struct_Vertex Member_color,
      EnableVertexAttribArray 4, VertexAttribPointer 4 1 GL_FLOAT Struct_Vertex Member_scalar]"

text \<open>\<^verbatim>\<open>create()\<close> of a buffer or vertex array: a name is generated only when there is none.\<close>

definition create_vao :: "nat \<Rightarrow> GL \<Rightarrow> nat \<times> GL" where
  "create_vao mId gl =
     (if mId = 0
      then (Suc (gl_names gl), gl\<lparr>gl_log := gl_log gl @ [GenVertexArrays (Suc (gl_names gl))],
                                   gl_names := Suc (gl_names gl)\<rparr>)
      else (mId, gl))"

definition create_buffer :: "nat \<Rightarrow> GL \<Rightarrow> nat \<times> GL" where
  "create_buffer mId gl =
     (if mId = 0
      then (Suc (gl_names gl), gl\<lparr>gl_log := gl_log gl @ [GenBuffers (Suc (gl_names gl))],
                                   gl_names := Suc (gl_names gl)\<rparr>)
      else (mId, gl))"

text \<open>The validation scan before the 16-bit conversion, with its \<^verbatim>\<open>break\<close>.\<close>

fun allFit :: "32 word list \<Rightarrow> bool" where
  "allFit [] = True"
| "allFit (idx # rest) = (if idx \<ge> 65536 then False else allFit rest)"

text \<open>The index-buffer block of the loop body; it returns the mesh's flag and the upload.\<close>

definition upload_indices :: "Mesh \<Rightarrow> bool \<times> gl_call list" where
  "upload_indices mesh =
     (let uses16 = (vertexCount mesh < 65536) in
      if uses16 then
        (if allFit (indices mesh) then
           (True, [BufferData GL_ELEMENT_ARRAY_BUFFER (indexCount mesh)
                     (Index16Data (map ucast (indices mesh))) GL_STATIC_DRAW])
         else
           (False, [BufferData GL_ELEMENT_ARRAY_BUFFER (indexCount mesh)
                      (Index32Data (indices mesh)) GL_STATIC_DRAW]))
      else
        (False, [BufferData GL_ELEMENT_ARRAY_BUFFER (indexCount mesh)
                   (Index32Data (indices mesh)) GL_STATIC_DRAW]))"

text \<open>One iteration of the loop over the meshes of \<^verbatim>\<open>Model::uploadToGPU\<close>.\<close>

definition uploadMesh :: "(float \<Rightarrow> 32 word) \<Rightarrow> Mesh \<Rightarrow> GL \<Rightarrow> Mesh \<times> GL" where
  "uploadMesh bits_of mesh gl =
     (if vao mesh \<noteq> 0 then (mesh, gl)
      else
        let (a, gl) = create_vao (vao mesh) gl;
            mesh = mesh\<lparr>vao := a\<rparr>;
            (b, gl) = create_buffer (vbo mesh) gl;
            mesh = mesh\<lparr>vbo := b\<rparr>;
            (mesh, gl) = (if \<not> isPointCloud mesh
                          then (let (e, gl) = create_buffer (ebo mesh) gl in (mesh\<lparr>ebo := e\<rparr>, gl))
                          else (mesh, gl));
            gl = emit [BindVertexArray (vao mesh), BindBuffer GL_ARRAY_BUFFER (vbo mesh)] gl;
            mesh = mesh\<lparr>usesOptimizedVertices :=
                     (\<not> isPointCloud mesh \<and> vertexCount mesh \<ge> VertexOptimizationMinVerts)\<rparr>;
            gl = (if usesOptimizedVertices mesh
                  then emit [BufferData GL_ARRAY_BUFFER (vertexCount mesh)
                               (OptimizedVertexData (map (pack_vertex bits_of) (vertices mesh))) GL_STATIC_DRAW] gl
                  else emit [BufferData GL_ARRAY_BUFFER (vertexCount mesh)
                               (VertexData (vertices mesh)) GL_STATIC_DRAW] gl);
            (mesh, gl) = (if \<not> isPointCloud mesh \<and> indexCount mesh > 0
                          then (let gl = emit [BindBuffer GL_ELEMENT_ARRAY_BUFFER (ebo mesh)] gl;
                                    (u16, cs) = upload_indices mesh
                                in (mesh\<lparr>uses16BitIndices := u16\<rparr>, emit cs gl))
                          else (mesh, gl));
            gl = (if usesOptimizedVertices mesh then emit optimized_layout gl else emit standard_layout gl);
            gl = emit [BindBuffer GL_ARRAY_BUFFER 0] gl
        in (mesh, gl))"

fun uploadMeshes :: "(float \<Rightarrow> 32 word) \<Rightarrow> Mesh list \<Rightarrow> GL \<Rightarrow> Mesh list \<times> GL" where
  "uploadMeshes bits_of [] gl = ([], gl)"
| "uploadMeshes bits_of (mesh # rest) gl =
     (let (mesh', gl) = uploadMesh bits_of mesh gl;
          (rest', gl) = uploadMeshes bits_of rest gl
      in (mesh' # rest', gl))"

definition uploadToGPU :: "(float \<Rightarrow> 32 word) \<Rightarrow> bool \<Rightarrow> Model \<Rightarrow> GL \<Rightarrow> Model \<times> GL" where
  "uploadToGPU bits_of dropCpu model gl =
     (let (ms, gl) = uploadMeshes bits_of (mMeshes model) gl;
          gl = emit [BindVertexArray 0] gl;
          ms = (if dropCpu then map (\<lambda>mesh. mesh\<lparr>vertices := [], indices := []\<rparr>) ms else ms)
      in (model\<lparr>mMeshes := ms\<rparr>, gl))"

subsection \<open>Drawing a subset of points\<close>

text \<open>
  The indices are \<^verbatim>\<open>unsigned int\<close> values, as the octree stores them. The running
  maximum starts at \<open>0\<close>; the 16-bit copy is a \<^verbatim>\<open>static_cast<uint16_t>\<close>.
\<close>

definition drawPointsSubset :: "Model \<Rightarrow> nat list \<Rightarrow> float \<Rightarrow> GL \<Rightarrow> GL" where
  "drawPointsSubset model idxs pointSize gl =
     (if idxs = [] then gl
      else
        let gl = (if fne pointSize (sLastPointSize_subset gl)
                  then (emit [PointSize pointSize] gl)\<lparr>sLastPointSize_subset := pointSize\<rparr>
                  else gl)
        in if mMeshes model \<noteq> [] \<and> isPointCloud (mMeshes model ! 0) \<and> vao (mMeshes model ! 0) \<noteq> 0
           then
             let mesh = mMeshes model ! 0;
                 tempEBO = Suc (gl_names gl);
                 gl = gl\<lparr>gl_log := gl_log gl @ [GenBuffers tempEBO], gl_names := Suc (gl_names gl)\<rparr>;
                 gl = emit [BindBuffer GL_ELEMENT_ARRAY_BUFFER tempEBO,
                            BufferData GL_ELEMENT_ARRAY_BUFFER (length idxs)
                              (Index32Data (map of_nat idxs)) GL_DYNAMIC_DRAW] gl;
                 maxIdx = foldl max 0 idxs;
                 indexType = (if maxIdx < 65536 then GL_UNSIGNED_SHORT else GL_UNSIGNED_INT);
                 gl = (if indexType = GL_UNSIGNED_SHORT
                       then emit [BufferData GL_ELEMENT_ARRAY_BUFFER (length idxs)
                                    (Index16Data (map of_nat idxs)) GL_DYNAMIC_DRAW] gl
                       else gl)
             in emit [BindVertexArray (vao mesh), DrawElements GL_POINTS (length idxs) indexType,
                      BindVertexArray 0, DeleteBuffers tempEBO, BindBuffer GL_ELEMENT_ARRAY_BUFFER 0] gl
           else gl)"

section \<open>Occlusion culler (OcclusionCuller.hpp, OcclusionCuller.cpp)\<close>

record OcclusionCuller =
  mOcclusionQuery :: nat
  mOcclusionQuerySupported :: bool
  mLastOcclusionResult :: bool

definition OcclusionCuller_default :: OcclusionCuller where
  "OcclusionCuller_default =
     \<lparr>mOcclusionQuery = 0, mOcclusionQuerySupported = False, mLastOcclusionResult = True\<rparr>"





section \<open>Scene (Scene.hpp, Scene.cpp)\<close>

datatype PointCloudRenderMode = Points | SphereImpostors | InstancedSpheres

datatype shader = MainShader | SphereImpostorShader | InstancedSphereShader

record FrameState =
  view :: mat4
  proj :: mat4
  viewProj :: mat4
  camPos :: vec3

record ProfilingData =
  drawCalls :: "32 word"
  triangles :: "32 word"
  points_p :: "32 word"

record Scene =
  model :: Model
  modelMatrix :: mat4
  pointSize :: float
  pointCloudMode :: PointCloudRenderMode
  autoLOD :: bool
  sphereRadius :: float
  enableFrustumCulling :: bool
  enableSpatialIndexing :: bool
  enableOcclusionCulling :: bool
  mOcclusionCuller :: OcclusionCuller
  mMatricesUBO_valid :: bool


text \<open>
  What \<^verbatim>\<open>Scene::draw\<close> asks of its collaborators, in order: uniform-buffer updates,
  shader calls, and the draw methods of the model with their arguments.
\<close>

datatype scene_call =
    UpdateUBOs
  | Use shader
  | SetupShaderUniforms shader "float option"
  | SetFloat shader string float
  | SetVec3 shader string vec3
  | Model_draw
  | Model_drawPoints float
  | Model_drawPointsSubset "nat list" float
  | Model_drawSphereImpostors float
  | Model_drawInstancedSpheres float

definition bump :: "(ProfilingData \<Rightarrow> ProfilingData) \<Rightarrow> ProfilingData option \<Rightarrow> ProfilingData option" where
  "bump f profData = (case profData of None \<Rightarrow> None | Some p \<Rightarrow> Some (f p))"

definition draw_points_mode :: "Scene \<Rightarrow> FrameState \<Rightarrow> ProfilingData option \<Rightarrow> scene_call list \<times> ProfilingData option" where
  "draw_points_mode sc frameState profData =
     (if enableSpatialIndexing sc \<and> hasSpatialIndex (model sc) then
        (let visibleIndices = getVisiblePoints (mSpatialIndex (model sc)) (viewProj frameState)
                                (camPos frameState) FLT_MAX
         in if visibleIndices \<noteq> []
            then ([Use MainShader, Model_drawPointsSubset visibleIndices (pointSize sc)],
                  bump (\<lambda>p. p\<lparr>drawCalls := drawCalls p + 1,
                                 points_p := points_p p + of_nat (length visibleIndices)\<rparr>) profData)
            else ([Use MainShader], profData))
      else ([Use MainShader, Model_drawPoints (pointSize sc)],
            bump (\<lambda>p. p\<lparr>drawCalls := drawCalls p + 1,
                           points_p := points_p p + of_nat (vertexCount (mMeshes (model sc) ! 0))\<rparr>) profData))"



section \<open>Notions used in the statements and proofs\<close>

text \<open>The octant a point index is sent to by the distribution loop.\<close>

definition octant :: "Point list \<Rightarrow> vec3 \<Rightarrow> nat \<Rightarrow> nat" where
  "octant points c idx = nat (getChildIndex (position (points ! idx)) c)"

text \<open>The body of the child-building loop of \<^verbatim>\<open>buildRecursive\<close>, and the child it builds.\<close>

definition child_step ::
  "Point list \<Rightarrow> nat \<Rightarrow> nat \<Rightarrow> Node \<Rightarrow> vec3 \<Rightarrow> nat list list \<Rightarrow> nat \<Rightarrow> Node \<times> Stats \<Rightarrow> Node \<times> Stats" where
  "child_step points P D node c ci = (\<lambda>i (n, s).
      if ci ! i \<noteq> [] then
        let (ch, s') = buildRecursive points P D
              (new_Node (childMin node c i) (childMax node c i) (level node + 1)) (ci ! i) s
        in (set_child n i ch, s')
      else (n, s))"

definition built_child :: "Point list \<Rightarrow> nat \<Rightarrow> nat \<Rightarrow> Node \<Rightarrow> vec3 \<Rightarrow> nat list list \<Rightarrow> nat \<Rightarrow> Stats \<Rightarrow> Node" where
  "built_child points P D node c ci i s =
     fst (buildRecursive points P D
            (new_Node (childMin node c i) (childMax node c i) (level node + 1)) (ci ! i) s)"

text \<open>
  The shape of the trees \<^verbatim>\<open>buildRecursive\<close> returns, as a relation between the box, the
  level and the index list it is called with and the node it leaves behind.
\<close>

inductive built :: "Point list \<Rightarrow> nat \<Rightarrow> nat \<Rightarrow> vec3 \<Rightarrow> vec3 \<Rightarrow> nat \<Rightarrow> nat list \<Rightarrow> Node \<Rightarrow> bool"
  for points :: "Point list" and P :: nat and D :: nat where
  built_leaf:
    "length idxs \<le> P \<or> D \<le> lvl \<Longrightarrow>
     built points P D mn mx lvl idxs (Node mn mx idxs (replicate 8 None) lvl True)"
| built_split:
    "\<not> (length idxs \<le> P \<or> D \<le> lvl) \<Longrightarrow>
     c = center (new_Node mn mx lvl) \<Longrightarrow>
     ci = distribute points c idxs \<Longrightarrow>
     length chs = 8 \<Longrightarrow>
     (\<forall>i<8. (ci ! i = [] \<longrightarrow> chs ! i = None) \<and>
            (ci ! i \<noteq> [] \<longrightarrow> (\<exists>k. chs ! i = Some k \<and>
                built points P D (childMin (new_Node mn mx lvl) c i) (childMax (new_Node mn mx lvl) c i)
                  (lvl + 1) (ci ! i) k))) \<Longrightarrow>
     built points P D mn mx lvl idxs (Node mn mx [] chs lvl False)"

definition leafIndicesO :: "Node option \<Rightarrow> nat list" where
  "leafIndicesO c = (case c of None \<Rightarrow> [] | Some k \<Rightarrow> leafIndices k)"

text \<open>What \<^verbatim>\<open>getVisiblePointsRecursive\<close> checks of a node before it reads it.\<close>

definition node_passes :: "mat4 \<Rightarrow> vec3 \<Rightarrow> float \<Rightarrow> Node \<Rightarrow> bool" where
  "node_passes vp cam maxDistance k =
     (\<not> fgt (distanceToAABB cam (node_min k) (node_max k)) maxDistance \<and>
      intersectsAABB (extractFromMatrix vp) (node_min k) (node_max k))"

definition identity_mat4 :: mat4 where
  "identity_mat4 = (\<lambda>c r. if c = r then Finite 1 else Finite 0)"

text \<open>A vector of three finite floats.\<close>

definition V3 :: "real \<Rightarrow> real \<Rightarrow> real \<Rightarrow> vec3" where
  "V3 a b c = Vec3 (Finite a) (Finite b) (Finite c)"

text \<open>A small point set: two points at opposite corners of the unit cube.\<close>

definition points2 :: "Point list" where
  "points2 = [Point (V3 0 0 0) 0, Point (V3 1 1 1) 1]"

text \<open>Two points at the same place: no subdivision can separate them.\<close>

definition points_same :: "Point list" where
  "points_same = [Point (V3 0 0 0) 0, Point (V3 0 0 0) 1]"

text \<open>The bounds and scalar range that the mesh loop of \<^verbatim>\<open>loadFromFile\<close> computes.\<close>

definition computed_bounds :: "aiMesh list \<Rightarrow> Bounds" where
  "computed_bounds ais =
     snd (foldl (merge_mesh ais) (replicate (length ais) Mesh_default, Bounds_init) [0..<length ais])"

text \<open>A scene of one triangle.\<close>

definition triangle_aiMesh :: aiMesh where
  "triangle_aiMesh = \<lparr>mNumVertices = 3,
     mVertices = Some [V3 0 0 0, V3 1 0 0, V3 0 1 0],
     mNormals = None, mTextureCoords0 = None, mColors0 = None,
     mFaces = [[0, 1, 2]]\<rparr>"

definition triangle_scene :: aiScene where
  "triangle_scene = \<lparr>scene_mMeshes = [triangle_aiMesh]\<rparr>"

text \<open>
  A scalar range as the mesh loop can leave it: still at its initial values, or \<open>0\<close> to
  \<open>0\<close> (\<^verbatim>\<open>makeVertex\<close> assigns no scalar, so every vertex carries the default \<open>0\<close>).
\<close>

definition degenerate :: "Bounds \<Rightarrow> bool" where
  "degenerate b = ((bScalarMin b = FLT_MAX \<and> bScalarMax b = fneg FLT_MAX) \<or>
                  (bScalarMin b = Finite 0 \<and> bScalarMax b = Finite 0))"

text \<open>A plane or point of four finite floats, and a matrix given by its four rows.\<close>

definition P4 :: "real \<Rightarrow> real \<Rightarrow> real \<Rightarrow> real \<Rightarrow> vec4" where
  "P4 a b c d = Vec4 (Finite a) (Finite b) (Finite c) (Finite d)"

definition mat4_rows :: "real list list \<Rightarrow> mat4" where
  "mat4_rows rows = (\<lambda>c r. Finite (rows ! r ! c))"

text \<open>A float that is a binary32 value: rounding leaves it as it is.\<close>

definition binary32 :: "float \<Rightarrow> bool" where
  "binary32 a = (case a of Finite x \<Rightarrow> round32 x = Finite x | PInf \<Rightarrow> True | NInf \<Rightarrow> True | NaN \<Rightarrow> True)"

definition vec3_binary32 :: "vec3 \<Rightarrow> bool" where
  "vec3_binary32 v = (binary32 (vx v) \<and> binary32 (vy v) \<and> binary32 (vz v))"

definition mat4_binary32 :: "mat4 \<Rightarrow> bool" where
  "mat4_binary32 m = list_all (\<lambda>c. list_all (\<lambda>r. binary32 (m c r)) [0, 1, 2, 3]) [0, 1, 2, 3]"

text \<open>
  Following the spec's words: the signed distance of a point to a plane, as a real
  number computed without rounding from the (finite) coordinates.
\<close>

definition val :: "float \<Rightarrow> real" where
  "val a = (case a of Finite x \<Rightarrow> x | PInf \<Rightarrow> 0 | NInf \<Rightarrow> 0 | NaN \<Rightarrow> 0)"

definition signed_distance :: "vec4 \<Rightarrow> vec3 \<Rightarrow> real" where
  "signed_distance plane v =
     val (px plane) * val (vx v) + val (py plane) * val (vy v) + val (pz plane) * val (vz v) + val (pw plane)"

text \<open>
  A view-projection matrix whose left plane is slightly slanted, and two points just
  inside that plane. All entries and coordinates are binary32 values.
\<close>

definition slant_mat4 :: mat4 where
  "slant_mat4 = mat4_rows
     [ [- (3 / 2 ^ 21), - 2, - (1 / 2 ^ 19), - (3 + 1 / 2 ^ 22)],
      [0, 1 / 2, 0, 0],
      [0, 0, 1 / 2, 0],
      [0, 0, 0, 1] ]"

definition slant_p0 :: vec3 where
  "slant_p0 = V3 (- (11184811 / 2 ^ 27)) (- (1 + 1 / 2 ^ 23)) (- (1 / 2 ^ 4))"

definition slant_p1 :: vec3 where
  "slant_p1 = V3 (- (11184811 / 2 ^ 27)) (- 1) (- (1 / 2 ^ 4))"

definition points_slant :: "Point list" where
  "points_slant = [Point slant_p0 0, Point slant_p1 1]"

text \<open>A second such matrix, and a point just outside its left plane.\<close>

definition skew_mat4 :: mat4 where
  "skew_mat4 = mat4_rows
     [ [31 / 2 ^ 25, 1, 0, - 2],
      [0, 1 / 2, 0, 0],
      [0, 0, 1 / 2, 0],
      [0, 0, 0, 1] ]"

definition skew_q :: vec3 where
  "skew_q = V3 (1082401 / 2 ^ 24) (1 - 1 / 2 ^ 24) 0"

text \<open>Two points at opposite corners of the cube of side \<open>1\<close> around the origin.\<close>

definition points_origin :: "Point list" where
  "points_origin = [Point (V3 (- (1/2)) (- (1/2)) (- (1/2))) 0, Point (V3 (1/2) (1/2) (1/2)) 1]"

text \<open>
  Three points in the box from \<open>(0, 0, 0)\<close> to \<open>(4, 4, 2)\<close>: two in the first octant, which is
  split once more, and one in the second. \<open>lod_root\<close> is the root \<^verbatim>\<open>build\<close> leaves behind
  for them with one point per node.
\<close>

definition points_lod :: "Point list" where
  "points_lod = [Point (V3 (1/2) (1/2) (1/4)) 0, Point (V3 (3/2) (3/2) (3/4)) 1, Point (V3 3 1 (1/2)) 2]"

definition lod_inner :: Node where
  "lod_inner = Node (V3 0 0 0) (V3 2 2 1) []
     [Some (Node (V3 0 0 0) (V3 1 1 (1/2)) [0] (replicate 8 None) 2 True),
      None, None, None, None, None, None,
      Some (Node (V3 1 1 (1/2)) (V3 2 2 1) [1] (replicate 8 None) 2 True)] 1 False"

definition lod_root :: Node where
  "lod_root = Node (V3 0 0 0) (V3 4 4 2) []
     [Some lod_inner,
      Some (Node (V3 2 0 0) (V3 4 2 1) [2] (replicate 8 None) 1 True),
      None, None, None, None, None, None] 0 False"

text \<open>
  Following the spec's words for the level-of-detail test: the node is far, or its box
  diagonal divided by its distance is below the ratio.
\<close>

definition useNode_spec :: "vec3 \<Rightarrow> float \<Rightarrow> Node \<Rightarrow> bool" where
  "useNode_spec cam farThreshold node =
     (let nodeDist = vec3_length (vec3_sub cam (center node));
          diagonal = vec3_length (size_n node)
      in fgt nodeDist farThreshold \<or> flt (fdiv diagonal nodeDist) f_0_01)"

text \<open>
  The leaves whose index lists a visit of a node appends: a visited leaf appends its own
  list; a visited node that is not a leaf and passes the test appends the lists of those
  of its children that are leaves; a visited node that is not a leaf and fails the test
  has each of its children visited.
\<close>

inductive lod_emits :: "vec3 \<Rightarrow> float \<Rightarrow> Node \<Rightarrow> Node \<Rightarrow> bool"
  for cam :: vec3 and far :: float where
  visited_leaf: "isLeaf k \<Longrightarrow> lod_emits cam far k k"
| used_directly:
    "\<not> isLeaf k \<Longrightarrow> useNode cam far k \<Longrightarrow> Some c \<in> set (children k) \<Longrightarrow> isLeaf c \<Longrightarrow>
     lod_emits cam far k c"
| recursed:
    "\<not> isLeaf k \<Longrightarrow> \<not> useNode cam far k \<Longrightarrow> Some c \<in> set (children k) \<Longrightarrow>
     lod_emits cam far c l \<Longrightarrow> lod_emits cam far k l"




text \<open>The calls one loop iteration of \<^verbatim>\<open>uploadToGPU\<close> adds to the record.\<close>

definition upload_calls :: "(float \<Rightarrow> 32 word) \<Rightarrow> Mesh \<Rightarrow> GL \<Rightarrow> gl_call list" where
  "upload_calls bits_of mesh gl = drop (length (gl_log gl)) (gl_log (snd (uploadMesh bits_of mesh gl)))"

text \<open>Calls that touch the element-array binding only.\<close>

fun is_index_call :: "gl_call \<Rightarrow> bool" where
  "is_index_call (BindBuffer GL_ELEMENT_ARRAY_BUFFER e) = True"
| "is_index_call (BufferData GL_ELEMENT_ARRAY_BUFFER n d u) = True"
| "is_index_call _ = False"

fun is_draw_call :: "gl_call \<Rightarrow> bool" where
  "is_draw_call (DrawElements md n t) = True"
| "is_draw_call _ = False"

definition GL_init :: GL where
  "GL_init = \<lparr>gl_log = [], gl_names = 0, sLastPointSize_subset = Finite 0\<rparr>"

text \<open>A point cloud of 10000 points, and a mesh of 65536 vertices whose one triangle uses the first three.\<close>

definition cloud_mesh :: Mesh where
  "cloud_mesh = Mesh_default\<lparr>vertices := replicate 10000 Vertex_default, vertexCount := 10000,
     isPointCloud := True\<rparr>"

definition wide_mesh :: Mesh where
  "wide_mesh = Mesh_default\<lparr>vertices := replicate 65536 Vertex_default, indices := [0, 1, 2],
     indexCount := 3, vertexCount := 65536\<rparr>"


text \<open>The numbers an index buffer holds.\<close>

fun index_values :: "buffer_data \<Rightarrow> nat list" where
  "index_values (Index16Data xs) = map unat xs"
| "index_values (Index32Data xs) = map unat xs"
| "index_values _ = []"

text \<open>
  A point cloud in two meshes of one point each, uploaded, with the octree that
  \<^verbatim>\<open>loadFromFile\<close> would build over its collected points (here with one point per node),
  and a scene that draws it as plain points.
\<close>

definition cloud_a :: Mesh where
  "cloud_a = Mesh_default\<lparr>vertices := [Vertex_default\<lparr>position_v := V3 0 0 0\<rparr>], vao := 1, vbo := 2,
     vertexCount := 1, isPointCloud := True\<rparr>"

definition cloud_b :: Mesh where
  "cloud_b = Mesh_default\<lparr>vertices := [Vertex_default\<lparr>position_v := V3 1 1 1\<rparr>], vao := 3, vbo := 4,
     vertexCount := 1, isPointCloud := True\<rparr>"

definition two_cloud_model :: Model where
  "two_cloud_model = Model_default\<lparr>mMeshes := [cloud_a, cloud_b], mMin := V3 0 0 0, mMax := V3 1 1 1,
     mSpatialIndex := the (build (collectPoints [cloud_a, cloud_b]) (V3 0 0 0) (V3 1 1 1) 1 8)\<rparr>"

definition two_cloud_scene :: Scene where
  "two_cloud_scene = \<lparr>
     model = two_cloud_model,
     modelMatrix = identity_mat4, pointSize = Finite 2, pointCloudMode = Points, autoLOD = False,
     sphereRadius = f_0_01, enableFrustumCulling = True, enableSpatialIndexing = True,
     enableOcclusionCulling = False,
     mOcclusionCuller = OcclusionCuller_default,
     mMatricesUBO_valid = True\<rparr>"

definition frame_center :: FrameState where
  "frame_center = \<lparr>view = identity_mat4, proj = identity_mat4, viewProj = identity_mat4,
     camPos = V3 (1/2) (1/2) (1/2)\<rparr>"
section \<open>Evaluating the float operations\<close>

lemma pow2_powr: "pow2 e = 2 powr (real_of_int e)"
proof (cases "e \<ge> 0")
  case True
  then show ?thesis by (simp add: pow2_def powr_realpow [symmetric])
next
  case False
  then have "real_of_int e = - real (nat (- e))" by simp
  then have "2 powr (real_of_int e) = 1 / 2 powr (real (nat (- e)))"
    by (simp only: powr_minus_divide)
  also have "\<dots> = 1 / 2 ^ nat (- e)" by (simp only: powr_realpow zero_less_numeral)
  finally show ?thesis using False by (simp add: pow2_def)
qed

lemma pow2_less_iff: "pow2 a < pow2 b \<longleftrightarrow> a < b"
  by (simp add: pow2_powr)

lemma pow2_le_iff: "pow2 a \<le> pow2 b \<longleftrightarrow> a \<le> b"
  by (simp add: pow2_powr)

lemma find_expo_eq:
  "pow2 e \<le> a \<Longrightarrow> a < pow2 (e + 1) \<Longrightarrow> - 126 \<le> e \<Longrightarrow> e \<le> int n - 126 \<Longrightarrow> find_expo n a = e"
proof (induction n)
  case 0
  then show ?case by simp
next
  case (Suc n)
  show ?case
  proof (cases "pow2 (int (Suc n) - 126) \<le> a")
    case True
    with Suc.prems(2) have "pow2 (int (Suc n) - 126) < pow2 (e + 1)" by linarith
    then have "int (Suc n) - 126 < e + 1" by (simp only: pow2_less_iff)
    with Suc.prems(4) have "e = int (Suc n) - 126" by linarith
    with True show ?thesis by simp
  next
    case False
    with Suc.prems(1) have "pow2 e < pow2 (int (Suc n) - 126)" by linarith
    then have "e < int (Suc n) - 126" by (simp only: pow2_less_iff)
    then have "e \<le> int n - 126" by simp
    with Suc False show ?thesis by simp
  qed
qed

lemma find_expo_subnormal: "a < pow2 (- 126) \<Longrightarrow> find_expo n a = - 126"
proof (induction n)
  case 0
  then show ?case by simp
next
  case (Suc n)
  have "pow2 (- 126) \<le> pow2 (int (Suc n) - 126)" by (simp add: pow2_le_iff)
  with Suc.prems have "\<not> pow2 (int (Suc n) - 126) \<le> a" by linarith
  with Suc show ?case by simp
qed

lemma find_expo_huge: "pow2 127 \<le> a \<Longrightarrow> find_expo 253 a = 127"
proof -
  assume "pow2 127 \<le> a"
  then have "pow2 (int (Suc 252) - 126) \<le> a" by simp
  then have "find_expo (Suc 252) a = int (Suc 252) - 126" by (simp only: find_expo.simps if_True)
  then show ?thesis by simp
qed

text \<open>Rounding a number whose binary exponent is known.\<close>

lemma round32_finite:
  assumes "pow2 e \<le> \<bar>x\<bar>" "\<bar>x\<bar> < pow2 (e + 1)" "- 126 \<le> e" "e \<le> 127"
    and "y = of_int (rne (x / pow2 (e - 23))) * pow2 (e - 23)"
    and "\<bar>y\<bar> \<le> FLT_MAX_real"
  shows "round32 x = Finite y"
proof -
  have "expo x = e"
    unfolding expo_def using assms(1-4) by (intro find_expo_eq) simp_all
  moreover from assms(6) have "\<not> y > FLT_MAX_real" "\<not> y < - FLT_MAX_real"
    by (simp_all add: abs_le_iff)
  ultimately show ?thesis using assms(5) by (simp add: round32_def Let_def)
qed

lemma round32_subnormal:
  assumes "\<bar>x\<bar> < pow2 (- 126)"
    and "y = of_int (rne (x / pow2 (- 149))) * pow2 (- 149)"
    and "\<bar>y\<bar> \<le> FLT_MAX_real"
  shows "round32 x = Finite y"
proof -
  have "expo x = - 126"
    unfolding expo_def using assms(1) by (rule find_expo_subnormal)
  moreover from assms(3) have "\<not> y > FLT_MAX_real" "\<not> y < - FLT_MAX_real"
    by (simp_all add: abs_le_iff)
  ultimately show ?thesis using assms(2) by (simp add: round32_def Let_def)
qed

lemma round32_0: "round32 0 = Finite 0"
proof -
  have "expo 0 = - 126" unfolding expo_def by (rule find_expo_subnormal) (simp add: pow2_def)
  then show ?thesis by (simp add: round32_def Let_def rne_def FLT_MAX_real_def)
qed

lemmas round32_simps = pow2_def rne_def FLT_MAX_real_def

lemma round32_1: "round32 1 = Finite 1"
  by (rule round32_finite [where e = 0]) (simp_all add: round32_simps)

lemma round32_half: "round32 (1/2) = Finite (1/2)"
  by (rule round32_finite [where e = "-1"]) (simp_all add: round32_simps)

lemma fge_Finite [simp]: "fge (Finite x) (Finite y) \<longleftrightarrow> y \<le> x"
  by (auto simp: fge_def fle_def)

lemma fle_Finite [simp]: "fle (Finite x) (Finite y) \<longleftrightarrow> x \<le> y"
  by (auto simp: fle_def)

lemma fgt_Finite [simp]: "fgt (Finite x) (Finite y) \<longleftrightarrow> y < x"
  by (simp add: fgt_def)

lemma fne_Finite [simp]: "fne (Finite x) (Finite y) \<longleftrightarrow> x \<noteq> y"
  by (simp add: fne_def)

lemma fsub_Finite [simp]: "fsub (Finite x) (Finite y) = round32 (x - y)"
  by (simp add: fsub_def fneg_def)

lemma fneg_Finite [simp]: "fneg (Finite x) = Finite (- x)"
  by (simp add: fneg_def)

lemma fmax_Finite [simp]: "fmax (Finite x) (Finite y) = Finite (if x < y then y else x)"
  by (simp add: fmax_def)

lemma fmin_Finite [simp]: "fmin (Finite x) (Finite y) = Finite (if y < x then y else x)"
  by (simp add: fmin_def)

lemmas float_eval0 = round32_0 round32_1 round32_half

lemma rne_ge: "z - 1 / 2 \<le> of_int (rne z)"
proof -
  have "z < of_int \<lfloor>z\<rfloor> + 1" "of_int \<lfloor>z\<rfloor> \<le> z" by linarith+
  then show ?thesis unfolding rne_def Let_def by (simp split: if_splits) linarith
qed

text \<open>A number of magnitude \<open>2\<^sup>1\<^sup>2\<^sup>8\<close> or more overflows.\<close>

lemma round32_huge: "2 ^ 128 \<le> x \<Longrightarrow> round32 x = PInf"
proof -
  assume x: "2 ^ 128 \<le> x"
  then have "pow2 127 \<le> \<bar>x\<bar>" by (simp add: pow2_def)
  then have e: "expo x = 127" unfolding expo_def by (rule find_expo_huge)
  have "x / 2 ^ 104 - 1 / 2 \<le> of_int (rne (x / 2 ^ 104))" by (rule rne_ge)
  then have "(x / 2 ^ 104 - 1 / 2) * 2 ^ 104 \<le> of_int (rne (x / 2 ^ 104)) * 2 ^ 104"
    by (simp only: mult_le_cancel_right) simp
  then have "x - 2 ^ 103 \<le> of_int (rne (x / 2 ^ 104)) * 2 ^ 104"
    by (simp add: algebra_simps)
  with x have "FLT_MAX_real < of_int (rne (x / 2 ^ 104)) * 2 ^ 104"
    by (simp add: FLT_MAX_real_def)
  with e show ?thesis by (simp add: round32_def Let_def pow2_def)
qed

text \<open>The roundings and square roots that the concrete inputs below need.\<close>

lemma round32_m4: "round32 (- 4) = Finite (- 4)"
  by (rule round32_finite [where e = "2"]) (simp_all add: round32_simps)

lemma round32_m12582913_22: "round32 (- (12582913 / 4194304)) = Finite (- (12582913 / 4194304))"
  by (rule round32_finite [where e = "1"]) (simp_all add: round32_simps)

lemma round32_m3: "round32 (- 3) = Finite (- 3)"
  by (rule round32_finite [where e = "1"]) (simp_all add: round32_simps)

lemma round32_m8388609_22: "round32 (- (8388609 / 4194304)) = Finite (- (8388609 / 4194304))"
  by (rule round32_finite [where e = "1"]) (simp_all add: round32_simps)

lemma round32_m16777217_23: "round32 (- (16777217 / 8388608)) = Finite (- 2)"
  by (rule round32_finite [where e = "1"]) (simp_all add: round32_simps)

lemma round32_m2: "round32 (- 2) = Finite (- 2)"
  by (rule round32_finite [where e = "1"]) (simp_all add: round32_simps)

lemma round32_m8388609_23: "round32 (- (8388609 / 8388608)) = Finite (- (8388609 / 8388608))"
  by (rule round32_finite [where e = "0"]) (simp_all add: round32_simps)

lemma round32_m16777217_24: "round32 (- (16777217 / 16777216)) = Finite (- 1)"
  by (rule round32_finite [where e = "0"]) (simp_all add: round32_simps)

lemma round32_m1: "round32 (- 1) = Finite (- 1)"
  by (rule round32_finite [where e = "0"]) (simp_all add: round32_simps)

lemma round32_m16777215_24: "round32 (- (16777215 / 16777216)) = Finite (- (16777215 / 16777216))"
  by (rule round32_finite [where e = "- 1"]) (simp_all add: round32_simps)

lemma round32_m1_1: "round32 (- (1 / 2)) = Finite (- (1 / 2))"
  by (rule round32_finite [where e = "- 1"]) (simp_all add: round32_simps)

lemma round32_m11184811_26: "round32 (- (11184811 / 67108864)) = Finite (- (11184811 / 67108864))"
  by (rule round32_finite [where e = "- 3"]) (simp_all add: round32_simps)

lemma round32_m1_3: "round32 (- (1 / 8)) = Finite (- (1 / 8))"
  by (rule round32_finite [where e = "- 3"]) (simp_all add: round32_simps)

lemma round32_m11184811_27: "round32 (- (11184811 / 134217728)) = Finite (- (11184811 / 134217728))"
  by (rule round32_finite [where e = "- 4"]) (simp_all add: round32_simps)

lemma round32_m1_4: "round32 (- (1 / 16)) = Finite (- (1 / 16))"
  by (rule round32_finite [where e = "- 4"]) (simp_all add: round32_simps)

lemma round32_m1_19: "round32 (- (1 / 524288)) = Finite (- (1 / 524288))"
  by (rule round32_finite [where e = "- 19"]) (simp_all add: round32_simps)

lemma round32_m3_21: "round32 (- (3 / 2097152)) = Finite (- (3 / 2097152))"
  by (rule round32_finite [where e = "- 20"]) (simp_all add: round32_simps)

lemma round32_m1_20: "round32 (- (1 / 1048576)) = Finite (- (1 / 1048576))"
  by (rule round32_finite [where e = "- 20"]) (simp_all add: round32_simps)

lemma round32_m31_25: "round32 (- (31 / 33554432)) = Finite (- (31 / 33554432))"
  by (rule round32_finite [where e = "- 21"]) (simp_all add: round32_simps)

lemma round32_m3_22: "round32 (- (3 / 4194304)) = Finite (- (3 / 4194304))"
  by (rule round32_finite [where e = "- 21"]) (simp_all add: round32_simps)

lemma round32_m1_23: "round32 (- (1 / 8388608)) = Finite (- (1 / 8388608))"
  by (rule round32_finite [where e = "- 23"]) (simp_all add: round32_simps)

lemma round32_m33554433_49: "round32 (- (33554433 / 562949953421312)) = Finite (- (1 / 16777216))"
  by (rule round32_finite [where e = "- 24"]) (simp_all add: round32_simps)

lemma round32_m1_24: "round32 (- (1 / 16777216)) = Finite (- (1 / 16777216))"
  by (rule round32_finite [where e = "- 24"]) (simp_all add: round32_simps)

lemma round32_m33554431_49: "round32 (- (33554431 / 562949953421312)) = Finite (- (1 / 16777216))"
  by (rule round32_finite [where e = "- 25"]) (simp_all add: round32_simps)

lemma round32_961_50: "round32 (961 / 1125899906842624) = Finite (961 / 1125899906842624)"
  by (rule round32_finite [where e = "- 41"]) (simp_all add: round32_simps)

lemma round32_9_42: "round32 (9 / 4398046511104) = Finite (9 / 4398046511104)"
  by (rule round32_finite [where e = "- 39"]) (simp_all add: round32_simps)

lemma round32_1_38: "round32 (1 / 274877906944) = Finite (1 / 274877906944)"
  by (rule round32_finite [where e = "- 38"]) (simp_all add: round32_simps)

lemma round32_33554431_49: "round32 (33554431 / 562949953421312) = Finite (1 / 16777216)"
  by (rule round32_finite [where e = "- 25"]) (simp_all add: round32_simps)

lemma round32_1_24: "round32 (1 / 16777216) = Finite (1 / 16777216)"
  by (rule round32_finite [where e = "- 24"]) (simp_all add: round32_simps)

lemma round32_33554433_49: "round32 (33554433 / 562949953421312) = Finite (1 / 16777216)"
  by (rule round32_finite [where e = "- 24"]) (simp_all add: round32_simps)

lemma round32_1_23: "round32 (1 / 8388608) = Finite (1 / 8388608)"
  by (rule round32_finite [where e = "- 23"]) (simp_all add: round32_simps)

lemma round32_3_22: "round32 (3 / 4194304) = Finite (3 / 4194304)"
  by (rule round32_finite [where e = "- 21"]) (simp_all add: round32_simps)

lemma round32_31_25: "round32 (31 / 33554432) = Finite (31 / 33554432)"
  by (rule round32_finite [where e = "- 21"]) (simp_all add: round32_simps)

lemma round32_1_20: "round32 (1 / 1048576) = Finite (1 / 1048576)"
  by (rule round32_finite [where e = "- 20"]) (simp_all add: round32_simps)

lemma round32_3_21: "round32 (3 / 2097152) = Finite (3 / 2097152)"
  by (rule round32_finite [where e = "- 20"]) (simp_all add: round32_simps)

lemma round32_1_19: "round32 (1 / 524288) = Finite (1 / 524288)"
  by (rule round32_finite [where e = "- 19"]) (simp_all add: round32_simps)

lemma round32_1_d125: "round32 (1 / 125) = Finite (8589935 / 1073741824)"
  by (rule round32_finite [where e = "- 7"]) (simp_all add: round32_simps)

lemma round32_3_d250: "round32 (3 / 250) = Finite (6442451 / 536870912)"
  by (rule round32_finite [where e = "- 7"]) (simp_all add: round32_simps)

lemma round32_1_4: "round32 (1 / 16) = Finite (1 / 16)"
  by (rule round32_finite [where e = "- 4"]) (simp_all add: round32_simps)

lemma round32_1082401_24: "round32 (1082401 / 16777216) = Finite (1082401 / 16777216)"
  by (rule round32_finite [where e = "- 4"]) (simp_all add: round32_simps)

lemma round32_1_2: "round32 (1 / 4) = Finite (1 / 4)"
  by (rule round32_finite [where e = "- 2"]) (simp_all add: round32_simps)

lemma round32_1_d3: "round32 (1 / 3) = Finite (11184811 / 33554432)"
  by (rule round32_finite [where e = "- 2"]) (simp_all add: round32_simps)

lemma round32_3_2: "round32 (3 / 4) = Finite (3 / 4)"
  by (rule round32_finite [where e = "- 1"]) (simp_all add: round32_simps)

lemma round32_16777215_24: "round32 (16777215 / 16777216) = Finite (16777215 / 16777216)"
  by (rule round32_finite [where e = "- 1"]) (simp_all add: round32_simps)

lemma round32_1125899906843585_50: "round32 (1125899906843585 / 1125899906842624) = Finite (1)"
  by (rule round32_finite [where e = "0"]) (simp_all add: round32_simps)

lemma round32_16777217_24: "round32 (16777217 / 16777216) = Finite (1)"
  by (rule round32_finite [where e = "0"]) (simp_all add: round32_simps)

lemma round32_8388609_23: "round32 (8388609 / 8388608) = Finite (8388609 / 8388608)"
  by (rule round32_finite [where e = "0"]) (simp_all add: round32_simps)

lemma round32_16777219_24: "round32 (16777219 / 16777216) = Finite (4194305 / 4194304)"
  by (rule round32_finite [where e = "0"]) (simp_all add: round32_simps)

lemma round32_16777221_24: "round32 (16777221 / 16777216) = Finite (4194305 / 4194304)"
  by (rule round32_finite [where e = "0"]) (simp_all add: round32_simps)

lemma round32_3_1: "round32 (3 / 2) = Finite (3 / 2)"
  by (rule round32_finite [where e = "0"]) (simp_all add: round32_simps)

lemma round32_31_4: "round32 (31 / 16) = Finite (31 / 16)"
  by (rule round32_finite [where e = "0"]) (simp_all add: round32_simps)

lemma round32_2: "round32 (2) = Finite (2)"
  by (rule round32_finite [where e = "1"]) (simp_all add: round32_simps)

lemma round32_33_4: "round32 (33 / 16) = Finite (33 / 16)"
  by (rule round32_finite [where e = "1"]) (simp_all add: round32_simps)

lemma round32_50331647_24: "round32 (50331647 / 16777216) = Finite (3)"
  by (rule round32_finite [where e = "1"]) (simp_all add: round32_simps)

lemma round32_3: "round32 (3) = Finite (3)"
  by (rule round32_finite [where e = "1"]) (simp_all add: round32_simps)

lemma round32_25165825_23: "round32 (25165825 / 8388608) = Finite (3)"
  by (rule round32_finite [where e = "1"]) (simp_all add: round32_simps)

lemma round32_7_1: "round32 (7 / 2) = Finite (7 / 2)"
  by (rule round32_finite [where e = "1"]) (simp_all add: round32_simps)

lemma round32_4: "round32 (4) = Finite (4)"
  by (rule round32_finite [where e = "2"]) (simp_all add: round32_simps)

lemma round32_17592186044425_42: "round32 (17592186044425 / 4398046511104) = Finite (4)"
  by (rule round32_finite [where e = "2"]) (simp_all add: round32_simps)

lemma round32_1099511627777_38: "round32 (1099511627777 / 274877906944) = Finite (4)"
  by (rule round32_finite [where e = "2"]) (simp_all add: round32_simps)

lemma round32_16777217_22: "round32 (16777217 / 4194304) = Finite (4)"
  by (rule round32_finite [where e = "2"]) (simp_all add: round32_simps)

lemma round32_5: "round32 (5) = Finite (5)"
  by (rule round32_finite [where e = "2"]) (simp_all add: round32_simps)

lemma round32_6: "round32 (6) = Finite (6)"
  by (rule round32_finite [where e = "2"]) (simp_all add: round32_simps)

lemma round32_9: "round32 (9) = Finite (9)"
  by (rule round32_finite [where e = "3"]) (simp_all add: round32_simps)

lemma round32_10: "round32 (10) = Finite (10)"
  by (rule round32_finite [where e = "3"]) (simp_all add: round32_simps)

lemma round32_16: "round32 (16) = Finite (16)"
  by (rule round32_finite [where e = "4"]) (simp_all add: round32_simps)

lemma round32_32: "round32 (32) = Finite (32)"
  by (rule round32_finite [where e = "5"]) (simp_all add: round32_simps)

lemma round32_36: "round32 (36) = Finite (36)"
  by (rule round32_finite [where e = "5"]) (simp_all add: round32_simps)

lemma round32_500: "round32 (500) = Finite (500)"
  by (rule round32_finite [where e = "8"]) (simp_all add: round32_simps)

lemma round32_501: "round32 (501) = Finite (501)"
  by (rule round32_finite [where e = "8"]) (simp_all add: round32_simps)

lemma round32_1000: "round32 (1000) = Finite (1000)"
  by (rule round32_finite [where e = "9"]) (simp_all add: round32_simps)

lemma round32_250000: "round32 (250000) = Finite (250000)"
  by (rule round32_finite [where e = "17"]) (simp_all add: round32_simps)

lemma round32_147573952589676412927: "round32 (147573952589676412927) = Finite (147573952589676412928)"
  by (rule round32_finite [where e = "66"]) (simp_all add: round32_simps)

lemma round32_295147905179352825855_1: "round32 (295147905179352825855 / 2) = Finite (147573952589676412928)"
  by (rule round32_finite [where e = "66"]) (simp_all add: round32_simps)

lemma round32_147573952589676412928: "round32 (147573952589676412928) = Finite (147573952589676412928)"
  by (rule round32_finite [where e = "67"]) (simp_all add: round32_simps)

lemma round32_21778071482940061661655974875633165533184: "round32 (21778071482940061661655974875633165533184) = PInf"
  by (simp add: round32_huge round32_simps)

lemma sqrt_4: "sqrt (4) = 2"
  by (rule real_sqrt_unique) (simp_all add: power2_eq_square)

lemma sqrt_1_2: "sqrt (1 / 4) = 1 / 2"
  by (rule real_sqrt_unique) (simp_all add: power2_eq_square)

lemma sqrt_250000: "sqrt (250000) = 500"
  by (rule real_sqrt_unique) (simp_all add: power2_eq_square)

lemma sqrt_36: "sqrt (36) = 6"
  by (rule real_sqrt_unique) (simp_all add: power2_eq_square)

lemma sqrt_9: "sqrt (9) = 3"
  by (rule real_sqrt_unique) (simp_all add: power2_eq_square)

lemmas float_vals =
  round32_m4 round32_m12582913_22 round32_m3 round32_m8388609_22 round32_m16777217_23 round32_m2
  round32_m8388609_23 round32_m16777217_24 round32_m1 round32_m16777215_24 round32_m1_1 round32_m11184811_26
  round32_m1_3 round32_m11184811_27 round32_m1_4 round32_m1_19 round32_m3_21 round32_m1_20
  round32_m31_25 round32_m3_22 round32_m1_23 round32_m33554433_49 round32_m1_24 round32_m33554431_49
  round32_961_50 round32_9_42 round32_1_38 round32_33554431_49 round32_1_24 round32_33554433_49
  round32_1_23 round32_3_22 round32_31_25 round32_1_20 round32_3_21 round32_1_19
  round32_1_d125 round32_3_d250 round32_1_4 round32_1082401_24 round32_1_2 round32_1_d3
  round32_3_2 round32_16777215_24 round32_1125899906843585_50 round32_16777217_24 round32_8388609_23 round32_16777219_24
  round32_16777221_24 round32_3_1 round32_31_4 round32_2 round32_33_4 round32_50331647_24
  round32_3 round32_25165825_23 round32_7_1 round32_4 round32_17592186044425_42 round32_1099511627777_38
  round32_16777217_22 round32_5 round32_6 round32_9 round32_10 round32_16
  round32_32 round32_36 round32_500 round32_501 round32_1000 round32_250000
  round32_147573952589676412927 round32_295147905179352825855_1 round32_147573952589676412928 round32_21778071482940061661655974875633165533184 sqrt_4 sqrt_1_2
  sqrt_250000 sqrt_36 sqrt_9

lemmas float_eval = float_eval0 float_vals

section \<open>The octree build\<close>

declare collectIndices.simps [code]

lemma collectIndices_eq:
  "unat i \<le> n \<Longrightarrow> n < 2 ^ 32 \<Longrightarrow> collectIndices n i acc = Some (acc @ [unat i..<n])"
proof (induction "n - unat i" arbitrary: i acc)
  case 0
  then show ?case by (subst collectIndices.simps) simp
next
  case (Suc k)
  then have lt: "unat i < n" by simp
  with Suc.prems have "unat i + 1 < 2 ^ 32" by simp
  then have u: "unat (i + 1) = unat i + 1"
    by (simp add: unat_add_lem [THEN iffD1])
  have "collectIndices n (i + 1) (acc @ [unat i]) = Some ((acc @ [unat i]) @ [unat (i + 1)..<n])"
    using Suc lt u by (intro Suc.hyps(1)) auto
  then show ?case
    using lt u by (subst collectIndices.simps) (simp add: upt_conv_Cons)
qed

lemma getChildIndex_cases:
  "getChildIndex p c = (if fge (vx p) (vx c) then 1 else 0) + (if fge (vy p) (vy c) then 2 else 0)
      + (if fge (vz p) (vz c) then 4 else 0)"
  by (simp add: getChildIndex_def)

lemma getChildIndex_range: "0 \<le> getChildIndex p c \<and> getChildIndex p c < 8"
  by (simp add: getChildIndex_cases)

lemma octant_less: "octant points c idx < 8"
  using getChildIndex_range [of "position (points ! idx)" c] unfolding octant_def by linarith

lemma distribute_step_eq:
  "distribute_step points c ci idx = ci[octant points c idx := ci ! octant points c idx @ [idx]]"
  using getChildIndex_range [of "position (points ! idx)" c]
  by (simp add: distribute_step_def octant_def Let_def)

lemma foldl_distribute:
  "length ci = 8 \<Longrightarrow>
   length (foldl (distribute_step points c) ci idxs) = 8 \<and>
   (\<forall>i<8. foldl (distribute_step points c) ci idxs ! i
          = ci ! i @ filter (\<lambda>idx. octant points c idx = i) idxs)"
proof (induction idxs arbitrary: ci)
  case Nil
  then show ?case by simp
next
  case (Cons a idxs)
  let ?ci = "distribute_step points c ci a"
  have len: "length ?ci = 8" using Cons.prems by (simp add: distribute_step_eq)
  from Cons.IH [OF len] Cons.prems octant_less [of points c a]
  show ?case by (auto simp: distribute_step_eq nth_list_update)
qed

lemma distribute_length: "length (distribute points c idxs) = 8"
  using foldl_distribute [of "replicate 8 []" points c idxs] by (simp add: distribute_def)

lemma distribute_nth:
  "i < 8 \<Longrightarrow> distribute points c idxs ! i = filter (\<lambda>idx. octant points c idx = i) idxs"
  using foldl_distribute [of "replicate 8 []" points c idxs] by (simp add: distribute_def)

lemma mset_filter_less_Suc:
  "filter_mset (\<lambda>x. f x < n) M + filter_mset (\<lambda>x. f x = n) M
     = filter_mset (\<lambda>x. f x < Suc n) M"
  by (rule multiset_eqI) (auto simp: less_Suc_eq)

lemma mset_partition_upt:
  "mset (concat (map (\<lambda>i. filter (\<lambda>x. f x = i) xs) [0..<n])) = mset (filter (\<lambda>x. f x < n) xs)"
  by (induction n) (simp_all add: mset_filter_less_Suc)

lemma concat_distribute:
  "concat (map (\<lambda>i. distribute points c idxs ! i) [0..<8])
     = concat (map (\<lambda>i. filter (\<lambda>idx. octant points c idx = i) idxs) [0..<8])"
  by (rule arg_cong [where f = concat], rule map_cong) (simp_all add: distribute_nth)

lemma mset_distribute:
  "mset (concat (map (\<lambda>i. distribute points c idxs ! i) [0..<8])) = mset idxs"
  by (simp only: concat_distribute mset_partition_upt) (simp add: octant_less)

lemma buildRecursive_unfold:
  "buildRecursive points P D node idxs st =
     (let st1 = st\<lparr>mNodeCount := mNodeCount st + 1\<rparr> in
      if length idxs \<le> P \<or> level node \<ge> D then
        (set_leaf node idxs, st1\<lparr>mMaxDepth := max (mMaxDepth st1) (level node)\<rparr>)
      else
        let c = center node;
            ci = distribute points c idxs;
            (node', st') = fold (child_step points P D node c ci) [0..<8] (set_isLeaf node False, st1)
        in if \<not> hasChildren node' then (set_leaf node' idxs, st') else (node', st'))"
  by (subst buildRecursive.simps) (simp add: child_step_def Let_def)

lemma fold_child_step:
  "fold (child_step pts P D node c ci) js (n0, s0) = (n', s') \<Longrightarrow>
   node_min n' = node_min n0 \<and> node_max n' = node_max n0 \<and> pointIndices n' = pointIndices n0 \<and>
   level n' = level n0 \<and> isLeaf n' = isLeaf n0 \<and> length (children n') = length (children n0) \<and>
   (\<forall>i < length (children n0).
      (i \<in> set js \<and> ci ! i \<noteq> [] \<longrightarrow> (\<exists>s. children n' ! i = Some (built_child pts P D node c ci i s))) \<and>
      (\<not> (i \<in> set js \<and> ci ! i \<noteq> []) \<longrightarrow> children n' ! i = children n0 ! i))"
proof (induction js arbitrary: n0 s0)
  case Nil
  then show ?case by simp
next
  case (Cons j js)
  obtain n1 s1 where step: "child_step pts P D node c ci j (n0, s0) = (n1, s1)"
    by (cases "child_step pts P D node c ci j (n0, s0)")
  with Cons.prems have rest: "fold (child_step pts P D node c ci) js (n1, s1) = (n', s')"
    by simp
  have n1: "n1 = (if ci ! j \<noteq> [] then set_child n0 j (built_child pts P D node c ci j s0) else n0)"
    using step by (auto simp: child_step_def built_child_def split: prod.splits)
  have f1: "node_min n1 = node_min n0" "node_max n1 = node_max n0" "pointIndices n1 = pointIndices n0"
    "level n1 = level n0" "isLeaf n1 = isLeaf n0" "length (children n1) = length (children n0)"
    by (simp_all add: n1 set_child_def)
  have c1: "children n1 ! i =
      (if i = j \<and> ci ! j \<noteq> [] then Some (built_child pts P D node c ci j s0) else children n0 ! i)"
    if "i < length (children n0)" for i
    using that by (simp add: n1 set_child_def nth_list_update)
  note IH = Cons.IH [OF rest]
  have "(i \<in> set (j # js) \<and> ci ! i \<noteq> [] \<longrightarrow> (\<exists>s. children n' ! i = Some (built_child pts P D node c ci i s))) \<and>
      (\<not> (i \<in> set (j # js) \<and> ci ! i \<noteq> []) \<longrightarrow> children n' ! i = children n0 ! i)"
    if i: "i < length (children n0)" for i
  proof (cases "i \<in> set js \<and> ci ! i \<noteq> []")
    case True
    with IH i f1 show ?thesis by simp
  next
    case False
    with IH i f1 have "children n' ! i = children n1 ! i" by simp
    with c1 [OF i] False show ?thesis by auto
  qed
  with IH f1 show ?case by simp
qed

lemma new_Node_sel [simp]:
  "node_min (new_Node mn mx lvl) = mn" "node_max (new_Node mn mx lvl) = mx"
  "pointIndices (new_Node mn mx lvl) = []" "children (new_Node mn mx lvl) = replicate 8 None"
  "level (new_Node mn mx lvl) = lvl" "isLeaf (new_Node mn mx lvl) = True"
  by (simp_all add: new_Node_def)

lemma center_cong: "node_min a = node_min b \<Longrightarrow> node_max a = node_max b \<Longrightarrow> center a = center b"
  by (simp add: center_def)

lemma distribute_nonempty:
  assumes "idxs \<noteq> []"
  shows "\<exists>i<8. distribute points c idxs ! i \<noteq> []"
proof -
  from assms obtain a where a: "a \<in> set idxs" by (cases idxs) auto
  let ?i = "octant points c a"
  have "a \<in> set (distribute points c idxs ! ?i)"
    using a by (simp add: distribute_nth octant_less)
  then show ?thesis using octant_less [of points c a] by force
qed

lemma buildRecursive_built:
  "built points P D mn mx lvl idxs (fst (buildRecursive points P D (new_Node mn mx lvl) idxs st))"
proof (induction points P D "new_Node mn mx lvl" idxs st arbitrary: mn mx lvl rule: buildRecursive.induct)
  case (1 points P D idxs st)
  let ?node = "new_Node mn mx lvl"
  show ?case
  proof (cases "length idxs \<le> P \<or> D \<le> lvl")
    case True
    then have "fst (buildRecursive points P D ?node idxs st) = Node mn mx idxs (replicate 8 None) lvl True"
      by (subst buildRecursive_unfold) (simp add: Let_def new_Node_def set_leaf_def)
    with True show ?thesis by (simp add: built.built_leaf)
  next
    case False
    define c where "c = center ?node"
    define ci where "ci = distribute points c idxs"
    define st1 where "st1 = st\<lparr>mNodeCount := mNodeCount st + 1\<rparr>"
    obtain n' s' where fold: "fold (child_step points P D ?node c ci) [0..<8] (set_isLeaf ?node False, st1) = (n', s')"
      by (cases "fold (child_step points P D ?node c ci) [0..<8] (set_isLeaf ?node False, st1)")
    note F = fold_child_step [OF fold]
    have fields: "node_min n' = mn" "node_max n' = mx" "pointIndices n' = []" "level n' = lvl"
      "\<not> isLeaf n'" "length (children n') = 8"
      using F by (simp_all add: set_isLeaf_def new_Node_def)
    have ch: "(ci ! i = [] \<longrightarrow> children n' ! i = None) \<and>
        (ci ! i \<noteq> [] \<longrightarrow> (\<exists>s. children n' ! i = Some (built_child points P D ?node c ci i s)))"
      if "i < 8" for i
      using F that by (simp add: set_isLeaf_def new_Node_def)
    from False have "idxs \<noteq> []" by auto
    then obtain j where j: "j < 8" "ci ! j \<noteq> []"
      using distribute_nonempty [of idxs points c] by (auto simp: ci_def)
    with ch [of j] have "children n' ! j \<noteq> None" by auto
    with j have hc: "hasChildren n'" by (auto simp: hasChildren_def)
    have res: "fst (buildRecursive points P D ?node idxs st) = n'"
      using False fold hc
      by (subst buildRecursive_unfold) (simp add: Let_def c_def [symmetric] ci_def [symmetric] st1_def [symmetric])
    have n': "n' = Node mn mx [] (children n') lvl False"
      using fields by (cases n') simp
    have kids: "\<forall>i<8. (ci ! i = [] \<longrightarrow> children n' ! i = None) \<and>
            (ci ! i \<noteq> [] \<longrightarrow> (\<exists>k. children n' ! i = Some k \<and>
                built points P D (childMin ?node c i) (childMax ?node c i) (lvl + 1) (ci ! i) k))"
    proof (intro allI impI conjI)
      fix i :: nat assume i: "i < 8"
      { assume "ci ! i = []" with ch [OF i] show "children n' ! i = None" by simp }
      { assume ne: "ci ! i \<noteq> []"
        with ch [OF i] obtain s where s: "children n' ! i = Some (built_child points P D ?node c ci i s)"
          by auto
        have "built points P D (childMin ?node c i) (childMax ?node c i) (level ?node + 1) (ci ! i)
                (fst (buildRecursive points P D
                   (new_Node (childMin ?node c i) (childMax ?node c i) (level ?node + 1)) (ci ! i) s))"
          by (rule "1.hyps" [OF st1_def _ c_def ci_def _ ne refl]) (use False i in simp_all)
        then have "built points P D (childMin ?node c i) (childMax ?node c i) (lvl + 1) (ci ! i)
                (built_child points P D ?node c ci i s)"
          by (simp add: built_child_def)
        with s show "\<exists>k. children n' ! i = Some k \<and>
                built points P D (childMin ?node c i) (childMax ?node c i) (lvl + 1) (ci ! i) k"
          by blast }
    qed
    have "built points P D mn mx lvl idxs (Node mn mx [] (children n') lvl False)"
      by (rule built.built_split [OF False c_def ci_def fields(6) kids])
    with res n' show ?thesis by simp
  qed
qed

lemma collectIndices_Some_bound:
  assumes "collectIndices n i acc = Some ys"
  shows "n < 2 ^ 32"
proof (rule collectIndices.raw_induct [where P = "\<lambda>n i acc ys. n < 2 ^ 32", OF _ assms])
  fix f :: "nat \<Rightarrow> 32 word \<Rightarrow> nat list \<Rightarrow> nat list option" and n i acc ys
  assume IH: "\<And>n i acc ys. f n i acc = Some ys \<Longrightarrow> n < 2 ^ 32"
    and eq: "(if unat i < n then f n (i + 1) (acc @ [unat i]) else Some acc) = Some ys"
  show "n < 2 ^ 32"
  proof (cases "unat i < n")
    case True
    with eq IH show ?thesis by simp
  next
    case False
    have "unat i < 2 ^ 32" using unsigned_less [of i] by simp
    with False show ?thesis by simp
  qed
qed

lemma collectIndices_result:
  "collectIndices n 0 [] = Some ys \<longleftrightarrow> n < 2 ^ 32 \<and> ys = [0..<n]"
  using collectIndices_Some_bound [of n 0 "[]" ys] collectIndices_eq [of 0 n "[]"]
  by auto

lemma nodes_set:
  "k \<in> set (nodes (Node mn mx pis chs lvl leaf)) \<longleftrightarrow>
     k = Node mn mx pis chs lvl leaf \<or> (\<exists>c. Some c \<in> set chs \<and> k \<in> set (nodes c))"
  by (auto split: option.splits)

lemma leafIndices_Node:
  "leafIndices (Node mn mx pis chs lvl leaf) =
     (if leaf then pis else []) @ concat (map leafIndicesO chs)"
proof -
  have "concat (map pointIndices (filter isLeaf (concat (map (case_option [] nodes) chs))))
      = concat (map leafIndicesO chs)"
    by (induction chs) (auto simp: leafIndicesO_def leafIndices_def leaves_def split: option.splits)
  then show ?thesis by (simp add: leafIndices_def leaves_def)
qed

lemma mset_concat_cong:
  "(\<And>i. i \<in> set js \<Longrightarrow> mset (g i) = mset (h i)) \<Longrightarrow>
   mset (concat (map g js)) = mset (concat (map h js))"
  by (induction js) simp_all

lemma built_mset: "built points P D mn mx lvl idxs r \<Longrightarrow> mset (leafIndices r) = mset idxs"
proof (induction rule: built.induct)
  case (built_leaf idxs lvl mn mx)
  then show ?case by (simp add: leafIndices_Node leafIndicesO_def)
next
  case (built_split idxs lvl c mn mx ci chs)
  have chs: "chs = map ((!) chs) [0..<8]"
    using built_split.hyps(4) map_nth [of chs] by simp
  have each: "mset (leafIndicesO (chs ! i)) = mset (ci ! i)" if "i \<in> set [0..<8]" for i
    using built_split.IH that by (cases "ci ! i = []") (auto simp: leafIndicesO_def)
  have "mset (concat (map leafIndicesO chs)) = mset (concat (map (\<lambda>i. leafIndicesO (chs ! i)) [0..<8]))"
    by (subst chs) (simp only: map_map o_def)
  also have "\<dots> = mset (concat (map (\<lambda>i. ci ! i) [0..<8]))"
    by (rule mset_concat_cong) (rule each)
  also have "\<dots> = mset idxs"
    unfolding built_split.hyps(3) by (rule mset_distribute)
  finally show ?case by (simp add: leafIndices_Node)
qed

lemma built_child_nodes:
  assumes "length chs = 8" "Some k \<in> set chs"
  shows "\<exists>i<8. chs ! i = Some k"
  using assms by (auto simp: in_set_conv_nth)

lemma built_nodes:
  "built points P D mn mx lvl idxs r \<Longrightarrow> k \<in> set (nodes r) \<Longrightarrow>
     (\<not> isLeaf k \<longrightarrow> pointIndices k = []) \<and>
     (isLeaf k \<longrightarrow> children k = replicate 8 None) \<and>
     length (children k) = 8 \<and>
     lvl \<le> level k \<and>
     (lvl \<le> D \<longrightarrow> level k \<le> D) \<and>
     (isLeaf k \<longrightarrow> length (pointIndices k) \<le> P \<or> D \<le> level k)"
proof (induction arbitrary: k rule: built.induct)
  case (built_leaf idxs lvl mn mx)
  then have "k = Node mn mx idxs (replicate 8 None) lvl True"
    by (auto simp: nodes_set)
  with built_leaf show ?case by auto
next
  case (built_split idxs lvl c mn mx ci chs)
  from built_split.prems consider
    (self) "k = Node mn mx [] chs lvl False"
    | (child) c' where "Some c' \<in> set chs" "k \<in> set (nodes c')"
    by (auto simp: nodes_set)
  then show ?case
  proof cases
    case self
    with built_split.hyps show ?thesis by auto
  next
    case child
    then obtain i where i: "i < 8" "chs ! i = Some c'"
      using built_child_nodes [OF built_split.hyps(4)] by blast
    have ne: "ci ! i \<noteq> []"
      using built_split.IH i by (cases "ci ! i = []") auto
    with built_split.IH i(1) obtain k' where
      k': "chs ! i = Some k'" and
      IH: "\<And>k. k \<in> set (nodes k') \<Longrightarrow>
        (\<not> isLeaf k \<longrightarrow> pointIndices k = []) \<and>
        (isLeaf k \<longrightarrow> children k = replicate 8 None) \<and>
        length (children k) = 8 \<and>
        lvl + 1 \<le> level k \<and>
        (lvl + 1 \<le> D \<longrightarrow> level k \<le> D) \<and>
        (isLeaf k \<longrightarrow> length (pointIndices k) \<le> P \<or> D \<le> level k)"
      by blast
    from k' i have "k' = c'" by simp
    with IH have
      "\<And>k. k \<in> set (nodes c') \<Longrightarrow>
        (\<not> isLeaf k \<longrightarrow> pointIndices k = []) \<and>
        (isLeaf k \<longrightarrow> children k = replicate 8 None) \<and>
        length (children k) = 8 \<and>
        lvl + 1 \<le> level k \<and>
        (lvl + 1 \<le> D \<longrightarrow> level k \<le> D) \<and>
        (isLeaf k \<longrightarrow> length (pointIndices k) \<le> P \<or> D \<le> level k)"
      by simp
    from this [OF child(2)] built_split.hyps(1) show ?thesis by auto
  qed
qed

lemma build_eq:
  "build pts mn mx P D =
     (if length pts < 2 ^ 32
      then Some \<lparr>mRoot = Some (fst (buildRecursive pts P D (new_Node mn mx 0) [0..<length pts] \<lparr>mNodeCount = 0, mMaxDepth = 0\<rparr>)),
                 stats = snd (buildRecursive pts P D (new_Node mn mx 0) [0..<length pts] \<lparr>mNodeCount = 0, mMaxDepth = 0\<rparr>)\<rparr>
      else None)"
proof (cases "collectIndices (length pts) 0 []")
  case None
  then have "\<not> length pts < 2 ^ 32"
    using collectIndices_eq [of 0 "length pts" "[]"] by auto
  with None show ?thesis by (simp add: build_def)
next
  case (Some ys)
  then have "length pts < 2 ^ 32" "ys = [0..<length pts]"
    by (simp_all add: collectIndices_result)
  with Some show ?thesis by (simp add: build_def Let_def split: prod.splits)
qed

lemma build_returns: "length pts < 2 ^ 32 \<Longrightarrow> \<exists>oct. build pts mn mx P D = Some oct"
  by (simp add: build_eq)

lemma build_built:
  assumes "build pts mn mx P D = Some oct"
  shows "\<exists>r. mRoot oct = Some r \<and> built pts P D mn mx 0 [0..<length pts] r"
  using assms buildRecursive_built [of pts P D mn mx 0 "[0..<length pts]" "\<lparr>mNodeCount = 0, mMaxDepth = 0\<rparr>"]
  by (auto simp: build_eq split: if_splits)

lemma upt8: "[0..<8] = [0, 1, 2, 3, 4, 5, 6, 7]"
  by (simp add: upt_rec)

lemma replicate8: "replicate 8 x = [x, x, x, x, x, x, x, x]"
  by (simp add: numeral_eq_Suc)

lemmas build_eval = build_def collectIndices_eq buildRecursive_unfold child_step_def upt8 replicate8
  new_Node_def distribute_def distribute_step_def getChildIndex_def center_def vec3_add_def vec3_scale_def
  set_isLeaf_def set_child_def set_leaf_def hasChildren_def childMin_def childMax_def Let_def

lemma build_points2:
  "build points2 (V3 0 0 0) (V3 1 1 1) 1 8 = Some \<lparr>mRoot = Some (Node (V3 0 0 0) (V3 1 1 1) []
     [Some (Node (V3 0 0 0) (V3 (1/2) (1/2) (1/2)) [0] (replicate 8 None) 1 True),
      None, None, None, None, None, None,
      Some (Node (V3 (1/2) (1/2) (1/2)) (V3 1 1 1) [1] (replicate 8 None) 1 True)] 0 False),
     stats = \<lparr>mNodeCount = 3, mMaxDepth = 1\<rparr>\<rparr>"
  by (simp add: points2_def V3_def build_eval float_eval)

text \<open>
  C1. In every octree that \<^verbatim>\<open>Octree::build\<close> returns for an array of \<open>n\<close> points, the
  index lists of the leaves together hold each of \<open>0, \<dots>, n - 1\<close> exactly once, and a
  node that is not a leaf has an empty index list.
\<close>

theorem build_leaves_partition_indices:
  assumes "build pts mn mx P D = Some oct"
  shows "\<exists>r. mRoot oct = Some r \<and>
           mset (leafIndices r) = mset [0..<length pts] \<and>
           distinct (leafIndices r) \<and> set (leafIndices r) = {0..<length pts} \<and>
           (\<forall>k \<in> set (nodes r). \<not> isLeaf k \<longrightarrow> pointIndices k = [])"
proof -
  from build_built [OF assms] obtain r where r: "mRoot oct = Some r"
    and b: "built pts P D mn mx 0 [0..<length pts] r" by blast
  have m: "mset (leafIndices r) = mset [0..<length pts]" by (rule built_mset [OF b])
  have d: "distinct (leafIndices r)"
    using m by (metis distinct_upt mset_eq_imp_distinct_iff)
  have s: "set (leafIndices r) = {0..<length pts}"
    using m by (metis mset_eq_setD set_upt)
  have "\<forall>k \<in> set (nodes r). \<not> isLeaf k \<longrightarrow> pointIndices k = []"
    using built_nodes [OF b] by blast
  with r m d s show ?thesis by blast
qed

theorem build_leaves_partition_indices_witness:
  "\<exists>oct r. build points2 (V3 0 0 0) (V3 1 1 1) 1 8 = Some oct \<and> mRoot oct = Some r \<and>
           mset (leafIndices r) = mset [0..<length points2] \<and>
           distinct (leafIndices r) \<and> set (leafIndices r) = {0..<length points2} \<and>
           (\<forall>k \<in> set (nodes r). \<not> isLeaf k \<longrightarrow> pointIndices k = [])"
  using build_leaves_partition_indices [OF build_points2] build_points2 by blast

text \<open>
  C6. In an octree built with \<^verbatim>\<open>maxPointsPerNode\<close> \<open>P\<close> and \<^verbatim>\<open>maxDepth\<close> \<open>D\<close>, no node
  lies deeper than level \<open>D\<close>, and a leaf holds at most \<open>P\<close> indices or lies at level
  \<open>D\<close>.
\<close>

theorem build_leaf_bounds:
  assumes "build pts mn mx P D = Some oct" and "mRoot oct = Some r" and "k \<in> set (nodes r)"
  shows "level k \<le> D \<and> (isLeaf k \<longrightarrow> length (pointIndices k) \<le> P \<or> level k = D)"
proof -
  from build_built [OF assms(1)] assms(2) have b: "built pts P D mn mx 0 [0..<length pts] r"
    by auto
  from built_nodes [OF b assms(3)] show ?thesis by auto
qed

lemma build_points_same:
  "build points_same (V3 0 0 0) (V3 1 1 1) 1 1 = Some \<lparr>mRoot = Some (Node (V3 0 0 0) (V3 1 1 1) []
     [Some (Node (V3 0 0 0) (V3 (1/2) (1/2) (1/2)) [0, 1] (replicate 8 None) 1 True),
      None, None, None, None, None, None, None] 0 False),
     stats = \<lparr>mNodeCount = 2, mMaxDepth = 1\<rparr>\<rparr>"
  by (simp add: points_same_def V3_def build_eval float_eval)

theorem build_leaf_bounds_witness:
  "\<exists>oct r. build points_same (V3 0 0 0) (V3 1 1 1) 1 1 = Some oct \<and> mRoot oct = Some r \<and>
     (\<forall>k \<in> set (nodes r).
        level k \<le> 1 \<and> (isLeaf k \<longrightarrow> length (pointIndices k) \<le> 1 \<or> level k = 1))"
proof -
  from build_built [OF build_points_same] obtain oct r
    where o: "build points_same (V3 0 0 0) (V3 1 1 1) 1 1 = Some oct" and r: "mRoot oct = Some r"
    using build_points_same by blast
  from build_leaf_bounds [OF o r] o r show ?thesis by blast
qed
section \<open>The frustum test\<close>

lemma intersectsAABB_iff:
  "intersectsAABB planes mn mx \<longleftrightarrow>
     (\<forall>p \<in> set planes. \<not> flt (plane_distance p (positiveVertex (vec3_of p) mn mx)) (Finite 0))"
  by (induction planes) (auto simp: Let_def)

lemma positiveVertex_corner: "positiveVertex n mn mx \<in> set (corners mn mx)"
  by (simp add: positiveVertex_def corners_def)

lemmas plane_eval = extractFromMatrix_def normalize_plane_def vec3_length_def vec3_dot_def vec3_of_def
  P4_def V3_def Let_def

lemma extract_identity:
  "extractFromMatrix identity_mat4 =
     [P4 1 0 0 1, P4 (- 1) 0 0 1, P4 0 1 0 1, P4 0 (- 1) 0 1, P4 0 0 1 1, P4 0 0 (- 1) 1]"
  by (simp add: plane_eval identity_mat4_def float_eval)

lemma extract_slant:
  "extractFromMatrix slant_mat4 =
     [P4 (- (3 / 2 ^ 22)) (- 1) (- (1 / 2 ^ 20)) (- (1 + 1 / 2 ^ 23)),
      P4 (3 / 2 ^ 22) 1 (1 / 2 ^ 20) 2,
      P4 0 1 0 2, P4 0 (- 1) 0 2, P4 0 0 1 2, P4 0 0 (- 1) 2]"
  by (simp add: plane_eval slant_mat4_def mat4_rows_def float_eval)

lemma extract_skew:
  "extractFromMatrix skew_mat4 =
     [P4 (31 / 2 ^ 25) 1 0 (- 1), P4 (- (31 / 2 ^ 25)) (- 1) 0 3,
      P4 0 1 0 2, P4 0 (- 1) 0 2, P4 0 0 1 2, P4 0 0 (- 1) 2]"
  by (simp add: plane_eval skew_mat4_def mat4_rows_def float_eval)

lemmas frustum_eval = plane_distance_def positiveVertex_def vec3_dot_def vec3_of_def P4_def V3_def
  distanceToAABB_def vec3_length_def vec3_sub_def float_eval

lemmas binary32_eval = mat4_binary32_def vec3_binary32_def binary32_def mat4_rows_def identity_mat4_def
  V3_def float_eval

lemma slant_inputs: "mat4_binary32 slant_mat4 \<and> vec3_binary32 slant_p0 \<and> vec3_binary32 slant_p1"
  by (simp add: binary32_eval slant_mat4_def slant_p0_def slant_p1_def)

lemma skew_inputs: "mat4_binary32 skew_mat4 \<and> vec3_binary32 skew_q"
  by (simp add: binary32_eval skew_mat4_def skew_q_def)

lemma slant_p1_rejected: "intersectsAABB (extractFromMatrix slant_mat4) slant_p1 slant_p1 = False"
  by (simp add: extract_slant slant_p1_def frustum_eval)

lemma skew_q_accepted: "intersectsAABB (extractFromMatrix skew_mat4) skew_q skew_q = True"
  by (simp add: extract_skew skew_q_def frustum_eval)

text \<open>
  C7, as stated, fails. The signed distances of the source are binary32 values, each
  product and sum rounded. All matrix entries and coordinates below are binary32 values. The one-point box at \<open>slant_p1\<close> lies strictly inside all six
  half-spaces of the frustum extracted from \<open>slant_mat4\<close> (its exact distance to the left
  plane is \<open>2\<^sup>-\<^sup>4\<^sup>9\<close>), and \<^verbatim>\<open>intersectsAABB\<close> rejects it: the computed distance is
  \<open>-2\<^sup>-\<^sup>2\<^sup>3\<close>. The one-point box at \<open>skew_q\<close> lies strictly outside the left plane of
  the frustum extracted from \<open>skew_mat4\<close> (exact distance \<open>-2\<^sup>-\<^sup>4\<^sup>9\<close>), and it is
  accepted: the computed distance is \<open>0\<close>.
\<close>

theorem intersectsAABB_exact_distance_counterexample:
  "mat4_binary32 slant_mat4 \<and> vec3_binary32 slant_p1 \<and> mat4_binary32 skew_mat4 \<and> vec3_binary32 skew_q \<and>
   list_all (\<lambda>p. list_all (\<lambda>c. 0 < signed_distance p c) (corners slant_p1 slant_p1))
     (extractFromMatrix slant_mat4) \<and>
   signed_distance (extractFromMatrix slant_mat4 ! 0) slant_p1 = 1 / 2 ^ 49 \<and>
   plane_distance (extractFromMatrix slant_mat4 ! 0) slant_p1 = Finite (- (1 / 2 ^ 23)) \<and>
   intersectsAABB (extractFromMatrix slant_mat4) slant_p1 slant_p1 = False \<and>
   list_all (\<lambda>c. signed_distance (extractFromMatrix skew_mat4 ! 0) c < 0) (corners skew_q skew_q) \<and>
   signed_distance (extractFromMatrix skew_mat4 ! 0) skew_q = - (1 / 2 ^ 49) \<and>
   plane_distance (extractFromMatrix skew_mat4 ! 0) skew_q = Finite 0 \<and>
   intersectsAABB (extractFromMatrix skew_mat4) skew_q skew_q = True"
proof -
  have a: "list_all (\<lambda>p. list_all (\<lambda>c. 0 < signed_distance p c) (corners slant_p1 slant_p1))
     (extractFromMatrix slant_mat4)"
    by (simp add: extract_slant slant_p1_def corners_def signed_distance_def val_def P4_def V3_def)
  have b: "signed_distance (extractFromMatrix slant_mat4 ! 0) slant_p1 = 1 / 2 ^ 49"
    by (simp add: extract_slant slant_p1_def signed_distance_def val_def P4_def V3_def)
  have c: "plane_distance (extractFromMatrix slant_mat4 ! 0) slant_p1 = Finite (- (1 / 2 ^ 23))"
    by (simp add: extract_slant slant_p1_def frustum_eval)
  have d: "list_all (\<lambda>c. signed_distance (extractFromMatrix skew_mat4 ! 0) c < 0) (corners skew_q skew_q)"
    by (simp add: extract_skew skew_q_def corners_def signed_distance_def val_def P4_def V3_def)
  have e: "signed_distance (extractFromMatrix skew_mat4 ! 0) skew_q = - (1 / 2 ^ 49)"
    by (simp add: extract_skew skew_q_def signed_distance_def val_def P4_def V3_def)
  have f: "plane_distance (extractFromMatrix skew_mat4 ! 0) skew_q = Finite 0"
    by (simp add: extract_skew skew_q_def frustum_eval)
  from slant_inputs skew_inputs a b c slant_p1_rejected d e f skew_q_accepted
  show ?thesis by (simp only: simp_thms)
qed

text \<open>
  C7, amended. With the signed distance as the source computes it (in binary32),
  \<^verbatim>\<open>Frustum::intersectsAABB\<close> returns false exactly when, for some plane, the corner chosen
  per axis by the sign of the normal (the maximum where the component is positive, the
  minimum otherwise) has a negative computed distance. So a box whose corners all have a
  negative computed distance to one plane is rejected, and a box whose corners all have
  a computed distance that is not negative, for every plane, is accepted.
\<close>

theorem intersectsAABB_rejects_iff_computed:
  "(intersectsAABB planes mn mx = False \<longleftrightarrow>
      (\<exists>p \<in> set planes.
         flt (plane_distance p (Vec3 (if fgt (px p) (Finite 0) then vx mx else vx mn)
                                     (if fgt (py p) (Finite 0) then vy mx else vy mn)
                                     (if fgt (pz p) (Finite 0) then vz mx else vz mn))) (Finite 0))) \<and>
   ((\<exists>p \<in> set planes. \<forall>c \<in> set (corners mn mx). flt (plane_distance p c) (Finite 0))
      \<longrightarrow> intersectsAABB planes mn mx = False) \<and>
   ((\<forall>p \<in> set planes. \<forall>c \<in> set (corners mn mx). \<not> flt (plane_distance p c) (Finite 0))
      \<longrightarrow> intersectsAABB planes mn mx = True)"
proof (intro conjI impI)
  show "intersectsAABB planes mn mx = False \<longleftrightarrow>
      (\<exists>p \<in> set planes.
         flt (plane_distance p (Vec3 (if fgt (px p) (Finite 0) then vx mx else vx mn)
                                     (if fgt (py p) (Finite 0) then vy mx else vy mn)
                                     (if fgt (pz p) (Finite 0) then vz mx else vz mn))) (Finite 0))"
    by (simp add: intersectsAABB_iff positiveVertex_def vec3_of_def)
next
  assume "\<exists>p \<in> set planes. \<forall>c \<in> set (corners mn mx). flt (plane_distance p c) (Finite 0)"
  then obtain p where p: "p \<in> set planes"
    "\<forall>c \<in> set (corners mn mx). flt (plane_distance p c) (Finite 0)"
    by blast
  with positiveVertex_corner [of "vec3_of p" mn mx]
  have "flt (plane_distance p (positiveVertex (vec3_of p) mn mx)) (Finite 0)" by blast
  with p(1) show "intersectsAABB planes mn mx = False"
    by (auto simp: intersectsAABB_iff)
next
  assume a: "\<forall>p \<in> set planes. \<forall>c \<in> set (corners mn mx). \<not> flt (plane_distance p c) (Finite 0)"
  have "\<not> flt (plane_distance p (positiveVertex (vec3_of p) mn mx)) (Finite 0)" if "p \<in> set planes" for p
    using a that positiveVertex_corner [of "vec3_of p" mn mx] by blast
  then show "intersectsAABB planes mn mx = True"
    by (simp add: intersectsAABB_iff)
qed

theorem intersectsAABB_rejects_iff_computed_witness:
  "intersectsAABB (extractFromMatrix identity_mat4) (V3 2 2 2) (V3 4 4 4) = False \<and>
   list_ex (\<lambda>p. list_all (\<lambda>c. flt (plane_distance p c) (Finite 0)) (corners (V3 2 2 2) (V3 4 4 4)))
     (extractFromMatrix identity_mat4) \<and>
   intersectsAABB (extractFromMatrix identity_mat4) (V3 (- (1/2)) (- (1/2)) (- (1/2))) (V3 (1/2) (1/2) (1/2)) = True \<and>
   list_all (\<lambda>p. list_all (\<lambda>c. \<not> flt (plane_distance p c) (Finite 0))
                 (corners (V3 (- (1/2)) (- (1/2)) (- (1/2))) (V3 (1/2) (1/2) (1/2))))
     (extractFromMatrix identity_mat4)"
proof -
  have out: "\<exists>p \<in> set (extractFromMatrix identity_mat4).
       \<forall>c \<in> set (corners (V3 2 2 2) (V3 4 4 4)). flt (plane_distance p c) (Finite 0)"
    by (simp add: extract_identity corners_def frustum_eval)
  have inn: "\<forall>p \<in> set (extractFromMatrix identity_mat4).
       \<forall>c \<in> set (corners (V3 (- (1/2)) (- (1/2)) (- (1/2))) (V3 (1/2) (1/2) (1/2))).
         \<not> flt (plane_distance p c) (Finite 0)"
    by (simp add: extract_identity corners_def frustum_eval)
  from intersectsAABB_rejects_iff_computed [of "extractFromMatrix identity_mat4" "V3 2 2 2" "V3 4 4 4"] out
  have r1: "intersectsAABB (extractFromMatrix identity_mat4) (V3 2 2 2) (V3 4 4 4) = False"
    by blast
  from intersectsAABB_rejects_iff_computed [of "extractFromMatrix identity_mat4"
      "V3 (- (1/2)) (- (1/2)) (- (1/2))" "V3 (1/2) (1/2) (1/2)"] inn
  have r2: "intersectsAABB (extractFromMatrix identity_mat4) (V3 (- (1/2)) (- (1/2)) (- (1/2))) (V3 (1/2) (1/2) (1/2)) = True"
    by blast
  from r1 r2 out inn show ?thesis by (simp only: list_all_iff list_ex_iff)
qed

section \<open>The visible-point query\<close>

lemma fold_append_each:
  "(\<And>c out. c \<in> set ch \<Longrightarrow> F c out = out @ g c) \<Longrightarrow> fold F ch out = out @ concat (map g ch)"
  by (induction ch arbitrary: out) simp_all

lemma leafIndices_leaf:
  "\<forall>c \<in> set ch. c = None \<Longrightarrow> leafIndices (Node mn mx pis ch lvl True) = pis"
proof -
  assume a: "\<forall>c \<in> set ch. c = None"
  then have "concat (map leafIndicesO ch) = []"
    by (induction ch) (simp_all add: leafIndicesO_def)
  then show ?thesis by (simp add: leafIndices_Node)
qed

lemma getVisible_pass:
  assumes "node_passes vp cam maxD (Node mn mx pis ch lvl leaf)"
  shows "getVisiblePointsRecursive vp cam maxD (Node mn mx pis ch lvl leaf) out =
     (if leaf then out @ pis
      else fold (\<lambda>c out. case c of None \<Rightarrow> out
                 | Some k \<Rightarrow> getVisiblePointsRecursive vp cam maxD k out) ch out)"
proof -
  from assms have d: "\<not> fgt (distanceToAABB cam mn mx) maxD"
    and f: "intersectsAABB (extractFromMatrix vp) mn mx"
    by (simp_all add: node_passes_def)
  show ?thesis
    by (subst getVisiblePointsRecursive.simps) (simp only: Let_def d f if_False not_True_eq_False not_not)
qed

lemma getVisible_all:
  "(\<And>k. k \<in> set (nodes r) \<Longrightarrow>
        node_passes vp cam maxD k \<and> (isLeaf k \<longrightarrow> (\<forall>c \<in> set (children k). c = None))) \<Longrightarrow>
   getVisiblePointsRecursive vp cam maxD r out = out @ leafIndices r"
proof (induction r arbitrary: out rule: nodes.induct)
  case (1 mn mx pis ch lvl leaf)
  let ?n = "Node mn mx pis ch lvl leaf"
  have "?n \<in> set (nodes ?n)" by (simp only: nodes_set) simp
  from "1.prems" [OF this] have self: "node_passes vp cam maxD ?n" "leaf \<longrightarrow> (\<forall>c \<in> set ch. c = None)"
    by simp_all
  note eq = getVisible_pass [OF self(1), of out]
  show ?case
  proof (cases leaf)
    case True
    with self have "leafIndices ?n = pis" by (simp add: leafIndices_leaf)
    moreover from eq True have "getVisiblePointsRecursive vp cam maxD ?n out = out @ pis"
      by (simp only: if_True)
    ultimately show ?thesis by (simp only:)
  next
    case False
    have step: "(case c of None \<Rightarrow> out' | Some k \<Rightarrow> getVisiblePointsRecursive vp cam maxD k out')
                  = out' @ leafIndicesO c" if c: "c \<in> set ch" for c out'
    proof (cases c)
      case None
      then show ?thesis by (simp add: leafIndicesO_def)
    next
      case (Some k)
      have sub: "node_passes vp cam maxD k' \<and> (isLeaf k' \<longrightarrow> (\<forall>c \<in> set (children k'). c = None))"
        if "k' \<in> set (nodes k)" for k'
      proof (rule "1.prems")
        from c Some that show "k' \<in> set (nodes ?n)"
          by (simp only: nodes_set) blast
      qed
      have "getVisiblePointsRecursive vp cam maxD k out' = out' @ leafIndices k"
        by (rule "1.IH" [OF c Some sub])
      with Some show ?thesis by (simp add: leafIndicesO_def)
    qed
    have "fold (\<lambda>c out. case c of None \<Rightarrow> out | Some k \<Rightarrow> getVisiblePointsRecursive vp cam maxD k out) ch out
        = out @ concat (map leafIndicesO ch)"
      by (rule fold_append_each) (rule step)
    moreover from eq False
    have "getVisiblePointsRecursive vp cam maxD ?n out =
        fold (\<lambda>c out. case c of None \<Rightarrow> out | Some k \<Rightarrow> getVisiblePointsRecursive vp cam maxD k out) ch out"
      by (simp only: if_False)
    moreover from False have "leafIndices ?n = concat (map leafIndicesO ch)"
      by (simp only: leafIndices_Node if_False append_Nil)
    ultimately show ?thesis by (simp only:)
  qed
qed

lemma getVisible_fail:
  assumes "\<not> node_passes vp cam maxD (Node mn mx pis ch lvl leaf)"
  shows "getVisiblePointsRecursive vp cam maxD (Node mn mx pis ch lvl leaf) out = out"
proof (cases "fgt (distanceToAABB cam mn mx) maxD")
  case True
  show ?thesis
    by (subst getVisiblePointsRecursive.simps) (simp only: Let_def True if_True)
next
  case False
  with assms have f: "intersectsAABB (extractFromMatrix vp) mn mx = False"
    by (simp add: node_passes_def)
  show ?thesis
    by (subst getVisiblePointsRecursive.simps)
       (simp only: Let_def False f if_False if_True not_False_eq_True)
qed

lemma getVisible_append:
  "getVisiblePointsRecursive vp cam maxD r out = out @ getVisiblePointsRecursive vp cam maxD r []"
proof (induction r arbitrary: out rule: nodes.induct)
  case (1 mn mx pis ch lvl leaf)
  let ?n = "Node mn mx pis ch lvl leaf"
  let ?F = "\<lambda>c out. case c of None \<Rightarrow> out | Some k \<Rightarrow> getVisiblePointsRecursive vp cam maxD k out"
  let ?g = "\<lambda>c. case c of None \<Rightarrow> [] | Some k \<Rightarrow> getVisiblePointsRecursive vp cam maxD k []"
  show ?case
  proof (cases "node_passes vp cam maxD ?n")
    case False
    show ?thesis by (simp only: getVisible_fail [OF False]) simp
  next
    case True
    have step: "?F c out' = out' @ ?g c" if "c \<in> set ch" for c out'
    proof (cases c)
      case None
      then show ?thesis by simp
    next
      case (Some k)
      from "1.IH" [OF that Some, of out'] Some show ?thesis by simp
    qed
    have f: "fold ?F ch out' = out' @ concat (map ?g ch)" for out'
      by (rule fold_append_each) (rule step)
    show ?thesis
      by (simp only: getVisible_pass [OF True] f [of out] f [of "[]"]) simp
  qed
qed

lemma getVisible_Nil:
  "getVisiblePointsRecursive vp cam maxD (Node mn mx pis ch lvl leaf) [] =
     (if \<not> node_passes vp cam maxD (Node mn mx pis ch lvl leaf) then []
      else if leaf then pis
      else concat (map (\<lambda>c. case c of None \<Rightarrow> []
                         | Some k \<Rightarrow> getVisiblePointsRecursive vp cam maxD k []) ch))"
proof (cases "node_passes vp cam maxD (Node mn mx pis ch lvl leaf)")
  case False
  show ?thesis by (simp only: getVisible_fail [OF False] False) simp
next
  case True
  let ?F = "\<lambda>c out. case c of None \<Rightarrow> out | Some k \<Rightarrow> getVisiblePointsRecursive vp cam maxD k out"
  let ?g = "\<lambda>c. case c of None \<Rightarrow> [] | Some k \<Rightarrow> getVisiblePointsRecursive vp cam maxD k []"
  have "?F c out' = out' @ ?g c" for c out'
    using getVisible_append [of vp cam maxD _ out'] by (cases c) simp_all
  then have "fold ?F ch [] = [] @ concat (map ?g ch)"
    by (intro fold_append_each)
  with True show ?thesis by (simp only: getVisible_pass [OF True]) simp
qed

lemma length_concat_le:
  "(\<And>x. x \<in> set xs \<Longrightarrow> length (f x) \<le> length (g x)) \<Longrightarrow>
     length (concat (map f xs)) \<le> length (concat (map g xs))"
  by (induction xs) (simp_all add: add_mono)

lemma length_concat_less:
  "(\<And>x. x \<in> set xs \<Longrightarrow> length (f x) \<le> length (g x)) \<Longrightarrow> y \<in> set xs \<Longrightarrow>
     length (f y) < length (g y) \<Longrightarrow>
     length (concat (map f xs)) < length (concat (map g xs))"
proof (induction xs)
  case Nil
  then show ?case by simp
next
  case (Cons x xs)
  show ?case
  proof (cases "y = x")
    case True
    have "length (concat (map f xs)) \<le> length (concat (map g xs))"
      by (rule length_concat_le) (simp add: Cons.prems(1))
    with True Cons.prems(3) show ?thesis by simp
  next
    case False
    with Cons.prems(2) have "y \<in> set xs" by simp
    then have "length (concat (map f xs)) < length (concat (map g xs))"
      using Cons.prems(1,3) by (intro Cons.IH) simp_all
    moreover have "length (f x) \<le> length (g x)" by (simp add: Cons.prems(1))
    ultimately show ?thesis by simp
  qed
qed

lemma getVisible_length_le:
  "length (getVisiblePointsRecursive vp cam maxD r []) \<le> length (leafIndices r)"
proof (induction r rule: nodes.induct)
  case (1 mn mx pis ch lvl leaf)
  have "length (concat (map (\<lambda>c. case c of None \<Rightarrow> []
                         | Some k \<Rightarrow> getVisiblePointsRecursive vp cam maxD k []) ch))
      \<le> length (concat (map leafIndicesO ch))"
    by (rule length_concat_le) (auto simp: leafIndicesO_def "1.IH" split: option.splits)
  then show ?case by (simp only: getVisible_Nil leafIndices_Node) simp
qed

lemma getVisible_length_less:
  "(\<And>k. k \<in> set (nodes r) \<Longrightarrow> leafIndices k \<noteq> []) \<Longrightarrow>
   k \<in> set (nodes r) \<Longrightarrow> \<not> node_passes vp cam maxD k \<Longrightarrow>
   length (getVisiblePointsRecursive vp cam maxD r []) < length (leafIndices r)"
proof (induction r rule: nodes.induct)
  case (1 mn mx pis ch lvl leaf)
  let ?n = "Node mn mx pis ch lvl leaf"
  let ?g = "\<lambda>c. case c of None \<Rightarrow> [] | Some k \<Rightarrow> getVisiblePointsRecursive vp cam maxD k []"
  show ?case
  proof (cases "node_passes vp cam maxD ?n")
    case False
    have "?n \<in> set (nodes ?n)" by (simp only: nodes_set) simp
    from "1.prems"(1) [OF this] show ?thesis by (simp only: getVisible_fail [OF False]) simp
  next
    case True
    with "1.prems"(2,3) obtain c where c: "Some c \<in> set ch" "k \<in> set (nodes c)"
      by (auto simp only: nodes_set)
    have ne: "leafIndices k' \<noteq> []" if "k' \<in> set (nodes c)" for k'
    proof (rule "1.prems"(1))
      from c(1) that show "k' \<in> set (nodes ?n)" by (simp only: nodes_set) blast
    qed
    have lt: "length (?g (Some c)) < length (leafIndicesO (Some c))"
      using "1.IH" [OF c(1) refl ne c(2) "1.prems"(3)] by (simp add: leafIndicesO_def)
    have le: "length (?g x) \<le> length (leafIndicesO x)" for x
      by (cases x) (simp_all add: leafIndicesO_def getVisible_length_le)
    have less: "length (concat (map ?g ch)) < length (concat (map leafIndicesO ch))"
      using le c(1) lt by (rule length_concat_less)
    show ?thesis
    proof (cases leaf)
      case False
      with True less show ?thesis by (simp only: getVisible_Nil leafIndices_Node) simp
    next
      case leaf: True
      have "c \<in> set (nodes c)" by (cases c) (simp only: nodes_set, simp)
      from ne [OF this] have "leafIndicesO (Some c) \<noteq> []" by (simp add: leafIndicesO_def)
      with c(1) have "concat (map leafIndicesO ch) \<noteq> []" by force
      with True leaf show ?thesis by (simp only: getVisible_Nil leafIndices_Node) simp
    qed
  qed
qed

lemma built_nonempty:
  "built points P D mn mx lvl idxs r \<Longrightarrow> idxs \<noteq> [] \<Longrightarrow> k \<in> set (nodes r) \<Longrightarrow> leafIndices k \<noteq> []"
proof (induction arbitrary: k rule: built.induct)
  case (built_leaf idxs lvl mn mx)
  then have "k = Node mn mx idxs (replicate 8 None) lvl True"
    by (auto simp: nodes_set)
  with built_leaf.prems(1) show ?case by (simp add: leafIndices_Node)
next
  case (built_split idxs lvl c mn mx ci chs)
  from built_split.prems(2) consider
    (self) "k = Node mn mx [] chs lvl False"
    | (child) c' where "Some c' \<in> set chs" "k \<in> set (nodes c')"
    by (auto simp: nodes_set)
  then show ?case
  proof cases
    case self
    have "built points P D mn mx lvl idxs (Node mn mx [] chs lvl False)"
      by (rule built.built_split [OF built_split.hyps(1-4)]) (use built_split.IH in blast)
    from built_mset [OF this] built_split.prems(1) self show ?thesis by auto
  next
    case child
    then obtain i where i: "i < 8" "chs ! i = Some c'"
      using built_child_nodes [OF built_split.hyps(4)] by blast
    have ne: "ci ! i \<noteq> []"
      using built_split.IH i by (cases "ci ! i = []") auto
    with built_split.IH i(1) obtain k' where
      k': "chs ! i = Some k'" and
      IH: "\<And>k. ci ! i \<noteq> [] \<Longrightarrow> k \<in> set (nodes k') \<Longrightarrow> leafIndices k \<noteq> []"
      by blast
    from k' i have "k' = c'" by simp
    with IH [OF ne] child(2) show ?thesis by simp
  qed
qed

lemma getVisible_all_only_if:
  assumes "build pts mn mx P D = Some oct" and "mRoot oct = Some r" and "pts \<noteq> []"
    and "mset (getVisiblePoints oct vp cam maxD) = mset [0..<length pts]"
    and "k \<in> set (nodes r)"
  shows "node_passes vp cam maxD k"
proof (rule ccontr)
  assume f: "\<not> node_passes vp cam maxD k"
  from build_built [OF assms(1)] assms(2) have b: "built pts P D mn mx 0 [0..<length pts] r"
    by auto
  from assms(3) have "[0..<length pts] \<noteq> []" by simp
  from built_nonempty [OF b this]
  have "length (getVisiblePointsRecursive vp cam maxD r []) < length (leafIndices r)"
    using assms(5) f by (intro getVisible_length_less) simp_all
  moreover have "length (leafIndices r) = length pts"
    using built_mset [OF b] by (metis length_upt mset_eq_length minus_nat.diff_0)
  moreover have "length (getVisiblePoints oct vp cam maxD) = length pts"
    using assms(4) by (metis length_upt mset_eq_length minus_nat.diff_0)
  ultimately show False by (simp add: getVisiblePoints_def assms(2))
qed

lemma FLT_MAX_nonneg: "0 \<le> FLT_MAX_real" "\<not> FLT_MAX_real < 0"
  by (simp_all add: FLT_MAX_real_def)

lemma round32_bounded: "round32 x = Finite y \<Longrightarrow> y \<le> FLT_MAX_real"
  by (auto simp: round32_def Let_def split: if_splits)

text \<open>
  With the default \<^verbatim>\<open>maxDistance\<close>, the largest finite float, the distance test prunes a
  node exactly when its computed distance has overflowed to infinity.
\<close>

lemma fgt_FLT_MAX_iff: "fgt (distanceToAABB cam mn mx) FLT_MAX \<longleftrightarrow> distanceToAABB cam mn mx = PInf"
proof -
  obtain s where s: "distanceToAABB cam mn mx = fsqrt s"
    by (simp add: distanceToAABB_def vec3_length_def Let_def)
  show ?thesis
  proof (cases s)
    case (Finite x)
    show ?thesis
    proof (cases "round32 (sqrt x)")
      case (Finite y)
      with round32_bounded [OF this] s \<open>s = Finite x\<close> show ?thesis
        by (simp add: fgt_def FLT_MAX_def)
    qed (use s \<open>s = Finite x\<close> in \<open>simp_all add: fgt_def FLT_MAX_def\<close>)
  qed (use s in \<open>simp_all add: fgt_def FLT_MAX_def\<close>)
qed

lemma node_passes_FLT_MAX:
  "node_passes vp cam FLT_MAX k \<longleftrightarrow>
     distanceToAABB cam (node_min k) (node_max k) \<noteq> PInf \<and>
     intersectsAABB (extractFromMatrix vp) (node_min k) (node_max k)"
  by (simp add: node_passes_def fgt_FLT_MAX_iff)

lemma build_points_slant:
  "build points_slant slant_p0 slant_p1 1 8 = Some \<lparr>mRoot = Some (Node slant_p0 slant_p1 []
     [None, None, None, None, None,
      Some (Node slant_p0 slant_p1 [0] (replicate 8 None) 1 True),
      None,
      Some (Node slant_p1 slant_p1 [1] (replicate 8 None) 1 True)] 0 False),
     stats = \<lparr>mNodeCount = 3, mMaxDepth = 1\<rparr>\<rparr>"
  by (simp add: points_slant_def slant_p0_def slant_p1_def V3_def build_eval float_eval)

lemma slant_box_inside:
  "list_all (\<lambda>p. list_all (\<lambda>c. 0 < signed_distance p c) (corners slant_p0 slant_p1))
     (extractFromMatrix slant_mat4)"
  by (simp add: extract_slant slant_p0_def slant_p1_def corners_def signed_distance_def val_def P4_def V3_def)

lemma slant_box_accepted: "intersectsAABB (extractFromMatrix slant_mat4) slant_p0 slant_p1"
  by (simp add: extract_slant slant_p0_def slant_p1_def frustum_eval)

lemma slant_visible:
  "getVisiblePoints (the (build points_slant slant_p0 slant_p1 1 8)) slant_mat4 slant_p1 FLT_MAX = [0]"
  using FLT_MAX_nonneg
  by (simp only: build_points_slant option.sel)
     (simp add: getVisiblePoints_def extract_slant slant_p0_def slant_p1_def frustum_eval replicate8 FLT_MAX_def)

lemma build_points_origin:
  "build points_origin (V3 (- (1/2)) (- (1/2)) (- (1/2))) (V3 (1/2) (1/2) (1/2)) 1 8 =
     Some \<lparr>mRoot = Some (Node (V3 (- (1/2)) (- (1/2)) (- (1/2))) (V3 (1/2) (1/2) (1/2)) []
       [Some (Node (V3 (- (1/2)) (- (1/2)) (- (1/2))) (V3 0 0 0) [0] (replicate 8 None) 1 True),
        None, None, None, None, None, None,
        Some (Node (V3 0 0 0) (V3 (1/2) (1/2) (1/2)) [1] (replicate 8 None) 1 True)] 0 False),
     stats = \<lparr>mNodeCount = 3, mMaxDepth = 1\<rparr>\<rparr>"
  by (simp add: points_origin_def V3_def build_eval float_eval)

lemma origin_box_inside:
  "list_all (\<lambda>p. list_all (\<lambda>c. 0 < signed_distance p c)
                 (corners (V3 (- (1/2)) (- (1/2)) (- (1/2))) (V3 (1/2) (1/2) (1/2))))
     (extractFromMatrix identity_mat4)"
  by (simp add: extract_identity corners_def signed_distance_def val_def P4_def V3_def)

lemma origin_box_accepted:
  "intersectsAABB (extractFromMatrix identity_mat4) (V3 (- (1/2)) (- (1/2)) (- (1/2))) (V3 (1/2) (1/2) (1/2))"
  by (simp add: extract_identity frustum_eval)

lemma far_camera_distance:
  "distanceToAABB (V3 (2 ^ 67) 0 0) (V3 (- (1/2)) (- (1/2)) (- (1/2))) (V3 (1/2) (1/2) (1/2)) = PInf"
  by (simp add: frustum_eval)

lemma far_camera_visible:
  "getVisiblePoints (the (build points_origin (V3 (- (1/2)) (- (1/2)) (- (1/2))) (V3 (1/2) (1/2) (1/2)) 1 8))
     identity_mat4 (V3 (2 ^ 67) 0 0) FLT_MAX = []"
  by (simp only: build_points_origin option.sel)
     (simp add: getVisiblePoints_def extract_identity frustum_eval replicate8 FLT_MAX_def fgt_def)

text \<open>
  C2, as stated, fails, in two ways (all matrix entries and coordinates are binary32
  values, and \<^verbatim>\<open>build\<close> returns a tree for both point sets). First, the frustum
  extracted from \<open>slant_mat4\<close> contains the whole bounding box of the octree built over
  \<open>points_slant\<close> (every corner is strictly inside every plane) and \<^verbatim>\<open>intersectsAABB\<close>
  accepts the box, the camera is inside the box, and the query returns index \<open>0\<close> only:
  the traversal tests every node on its own, and the child node that holds point \<open>1\<close> is
  rejected by the rounded plane distance. Second, the frustum of the identity matrix
  contains the cube of side \<open>1\<close> around the origin and accepts it, and for a camera at
  \<open>x = 2\<^sup>6\<^sup>7\<close> the query over the octree built over \<open>points_origin\<close> in that cube
  returns nothing: the squared distance overflows, the computed distance is infinite, and
  it is greater than the default \<^verbatim>\<open>maxDistance\<close>, the largest finite float.
\<close>

theorem getVisiblePoints_encompassing_counterexample:
  "mat4_binary32 slant_mat4 \<and> vec3_binary32 slant_p0 \<and> vec3_binary32 slant_p1 \<and>
   build points_slant slant_p0 slant_p1 1 8 \<noteq> None \<and>
   list_all (\<lambda>p. list_all (\<lambda>c. 0 < signed_distance p c) (corners slant_p0 slant_p1))
     (extractFromMatrix slant_mat4) \<and>
   intersectsAABB (extractFromMatrix slant_mat4) slant_p0 slant_p1 \<and>
   getVisiblePoints (the (build points_slant slant_p0 slant_p1 1 8)) slant_mat4 slant_p1 FLT_MAX = [0] \<and>
   mset (getVisiblePoints (the (build points_slant slant_p0 slant_p1 1 8)) slant_mat4 slant_p1 FLT_MAX)
     \<noteq> mset [0..<length points_slant] \<and>
   mat4_binary32 identity_mat4 \<and> list_all (\<lambda>p. vec3_binary32 (position p)) points_origin \<and>
   vec3_binary32 (V3 (2 ^ 67) 0 0) \<and>
   build points_origin (V3 (- (1/2)) (- (1/2)) (- (1/2))) (V3 (1/2) (1/2) (1/2)) 1 8 \<noteq> None \<and>
   list_all (\<lambda>p. list_all (\<lambda>c. 0 < signed_distance p c)
                 (corners (V3 (- (1/2)) (- (1/2)) (- (1/2))) (V3 (1/2) (1/2) (1/2))))
     (extractFromMatrix identity_mat4) \<and>
   intersectsAABB (extractFromMatrix identity_mat4) (V3 (- (1/2)) (- (1/2)) (- (1/2))) (V3 (1/2) (1/2) (1/2)) \<and>
   distanceToAABB (V3 (2 ^ 67) 0 0) (V3 (- (1/2)) (- (1/2)) (- (1/2))) (V3 (1/2) (1/2) (1/2)) = PInf \<and>
   getVisiblePoints (the (build points_origin (V3 (- (1/2)) (- (1/2)) (- (1/2))) (V3 (1/2) (1/2) (1/2)) 1 8))
     identity_mat4 (V3 (2 ^ 67) 0 0) FLT_MAX = [] \<and>
   mset (getVisiblePoints (the (build points_origin (V3 (- (1/2)) (- (1/2)) (- (1/2))) (V3 (1/2) (1/2) (1/2)) 1 8))
     identity_mat4 (V3 (2 ^ 67) 0 0) FLT_MAX) \<noteq> mset [0..<length points_origin]"
proof -
  have c: "mset [0::nat] \<noteq> mset [0..<length points_slant]"
    by (simp add: points_slant_def upt_rec)
  have d: "mset ([]::nat list) \<noteq> mset [0..<length points_origin]"
    by (simp add: points_origin_def upt_rec)
  have e: "mat4_binary32 identity_mat4 \<and> list_all (\<lambda>p. vec3_binary32 (position p)) points_origin \<and>
      vec3_binary32 (V3 (2 ^ 67) 0 0)"
    by (simp add: binary32_eval points_origin_def)
  have f: "build points_slant slant_p0 slant_p1 1 8 \<noteq> None"
    "build points_origin (V3 (- (1/2)) (- (1/2)) (- (1/2))) (V3 (1/2) (1/2) (1/2)) 1 8 \<noteq> None"
    by (simp_all only: build_points_slant build_points_origin) simp_all
  from slant_inputs e f slant_box_inside slant_box_accepted slant_visible c origin_box_inside origin_box_accepted
    far_camera_distance far_camera_visible d
  show ?thesis by (simp only: simp_thms)
qed

text \<open>
  C2, amended. When every node of a built octree passes the two tests of the traversal
  as the source computes them in binary32 (its computed distance from the camera is not
  greater than \<^verbatim>\<open>maxDistance\<close>, which for the default \<^verbatim>\<open>maxDistance\<close> means that it has
  not overflowed to infinity, and its box is accepted by the frustum extracted from the
  matrix), \<^verbatim>\<open>getVisiblePoints\<close> returns each of the \<open>n\<close> point indices exactly once. And
  when there are points, it returns all of them only if every node passes both tests.
\<close>

theorem getVisiblePoints_returns_all:
  assumes "build pts mn mx P D = Some oct" and "mRoot oct = Some r"
  shows "((\<forall>k \<in> set (nodes r). node_passes vp cam maxD k) \<longrightarrow>
            mset (getVisiblePoints oct vp cam maxD) = mset [0..<length pts] \<and>
            distinct (getVisiblePoints oct vp cam maxD)) \<and>
         (pts \<noteq> [] \<and> mset (getVisiblePoints oct vp cam maxD) = mset [0..<length pts] \<longrightarrow>
            (\<forall>k \<in> set (nodes r). node_passes vp cam maxD k))"
proof (intro conjI impI)
  assume pass: "\<forall>k \<in> set (nodes r). node_passes vp cam maxD k"
  from build_built [OF assms(1)] assms(2) have b: "built pts P D mn mx 0 [0..<length pts] r"
    by auto
  have "getVisiblePointsRecursive vp cam maxD r [] = [] @ leafIndices r"
  proof (rule getVisible_all)
    fix k assume k: "k \<in> set (nodes r)"
    from built_nodes [OF b k] have "isLeaf k \<longrightarrow> (\<forall>c \<in> set (children k). c = None)"
      by auto
    with pass k show "node_passes vp cam maxD k \<and> (isLeaf k \<longrightarrow> (\<forall>c \<in> set (children k). c = None))"
      by blast
  qed
  then have eq: "getVisiblePoints oct vp cam maxD = leafIndices r"
    by (simp add: getVisiblePoints_def assms(2))
  have m: "mset (leafIndices r) = mset [0..<length pts]" by (rule built_mset [OF b])
  then have d: "distinct (leafIndices r)"
    by (metis distinct_upt mset_eq_imp_distinct_iff)
  from m eq show "mset (getVisiblePoints oct vp cam maxD) = mset [0..<length pts]" by simp
  from d eq show "distinct (getVisiblePoints oct vp cam maxD)" by simp
next
  assume "pts \<noteq> [] \<and> mset (getVisiblePoints oct vp cam maxD) = mset [0..<length pts]"
  then show "\<forall>k \<in> set (nodes r). node_passes vp cam maxD k"
    using getVisible_all_only_if [OF assms] by blast
qed

theorem getVisiblePoints_returns_all_witness:
  "\<exists>oct r. build points_origin (V3 (- (1/2)) (- (1/2)) (- (1/2))) (V3 (1/2) (1/2) (1/2)) 1 8 = Some oct \<and>
     mRoot oct = Some r \<and>
     points_origin \<noteq> [] \<and>
     (\<forall>k \<in> set (nodes r). node_passes identity_mat4 (V3 0 0 0) FLT_MAX k) \<and>
     mset (getVisiblePoints oct identity_mat4 (V3 0 0 0) FLT_MAX) = mset [0..<length points_origin] \<and>
     distinct (getVisiblePoints oct identity_mat4 (V3 0 0 0) FLT_MAX)"
proof -
  let ?r = "Node (V3 (- (1/2)) (- (1/2)) (- (1/2))) (V3 (1/2) (1/2) (1/2)) []
       [Some (Node (V3 (- (1/2)) (- (1/2)) (- (1/2))) (V3 0 0 0) [0] (replicate 8 None) 1 True),
        None, None, None, None, None, None,
        Some (Node (V3 0 0 0) (V3 (1/2) (1/2) (1/2)) [1] (replicate 8 None) 1 True)] 0 False"
  let ?oct = "\<lparr>mRoot = Some ?r, stats = \<lparr>mNodeCount = 3, mMaxDepth = 1\<rparr>\<rparr>"
  have r: "mRoot ?oct = Some ?r" by simp
  have p: "\<forall>k \<in> set (nodes ?r). node_passes identity_mat4 (V3 0 0 0) FLT_MAX k"
    using FLT_MAX_nonneg by (simp add: node_passes_def extract_identity frustum_eval replicate8 FLT_MAX_def)
  have n: "points_origin \<noteq> []" by (simp add: points_origin_def)
  from getVisiblePoints_returns_all [OF build_points_origin r, of identity_mat4 "V3 0 0 0" FLT_MAX]
    build_points_origin r p n
  show ?thesis by blast
qed
section \<open>The level-of-detail query\<close>

lemma fold_emit_leaf_children:
  "fold (\<lambda>c out. case c of None \<Rightarrow> out | Some k \<Rightarrow> if isLeaf k then out @ pointIndices k else out) ch out
     = out @ concat (map (\<lambda>c. case c of None \<Rightarrow> [] | Some k \<Rightarrow> if isLeaf k then pointIndices k else []) ch)"
  by (induction ch arbitrary: out) (simp_all split: option.splits)

lemma getLOD_unfold:
  "getLODPointsRecursive cam d far near (Node mn mx pis ch lvl leaf) out =
     (if leaf then out @ pis
      else if useNode cam far (Node mn mx pis ch lvl leaf)
      then out @ concat (map (\<lambda>c. case c of None \<Rightarrow> []
                               | Some k \<Rightarrow> if isLeaf k then pointIndices k else []) ch)
      else fold (\<lambda>c out. case c of None \<Rightarrow> out
                  | Some k \<Rightarrow> getLODPointsRecursive cam d far near k out) ch out)"
  by (simp add: fold_emit_leaf_children)

lemma getLOD_append:
  "getLODPointsRecursive cam d far near r out = out @ getLODPointsRecursive cam d far near r []"
proof (induction r arbitrary: out rule: nodes.induct)
  case (1 mn mx pis ch lvl leaf)
  let ?n = "Node mn mx pis ch lvl leaf"
  let ?F = "\<lambda>c out. case c of None \<Rightarrow> out | Some k \<Rightarrow> getLODPointsRecursive cam d far near k out"
  let ?g = "\<lambda>c. case c of None \<Rightarrow> [] | Some k \<Rightarrow> getLODPointsRecursive cam d far near k []"
  have step: "?F c out' = out' @ ?g c" if "c \<in> set ch" for c out'
  proof (cases c)
    case None
    then show ?thesis by simp
  next
    case (Some k)
    from "1.IH" [OF that Some, of out'] Some show ?thesis by simp
  qed
  have f: "fold ?F ch out' = out' @ concat (map ?g ch)" for out'
    by (rule fold_append_each) (rule step)
  show ?case
    by (simp only: getLOD_unfold f [of out] f [of "[]"]) simp
qed

lemma getLOD_Nil:
  "getLODPointsRecursive cam d far near (Node mn mx pis ch lvl leaf) [] =
     (if leaf then pis
      else if useNode cam far (Node mn mx pis ch lvl leaf)
      then concat (map (\<lambda>c. case c of None \<Rightarrow> []
                         | Some k \<Rightarrow> if isLeaf k then pointIndices k else []) ch)
      else concat (map (\<lambda>c. case c of None \<Rightarrow> []
                         | Some k \<Rightarrow> getLODPointsRecursive cam d far near k []) ch))"
proof -
  let ?F = "\<lambda>c out. case c of None \<Rightarrow> out | Some k \<Rightarrow> getLODPointsRecursive cam d far near k out"
  let ?g = "\<lambda>c. case c of None \<Rightarrow> [] | Some k \<Rightarrow> getLODPointsRecursive cam d far near k []"
  have "?F c out' = out' @ ?g c" for c out'
    using getLOD_append [of cam d far near _ out'] by (cases c) simp_all
  then have "fold ?F ch [] = [] @ concat (map ?g ch)"
    by (intro fold_append_each)
  then show ?thesis by (simp only: getLOD_unfold) simp
qed

lemma lod_emits_leaf: "isLeaf k \<Longrightarrow> lod_emits cam far k l \<longleftrightarrow> l = k"
  by (auto elim: lod_emits.cases intro: lod_emits.intros)

lemma lod_emits_used:
  "\<not> isLeaf k \<Longrightarrow> useNode cam far k \<Longrightarrow>
     lod_emits cam far k l \<longleftrightarrow> Some l \<in> set (children k) \<and> isLeaf l"
  by (auto elim: lod_emits.cases intro: lod_emits.intros)

lemma lod_emits_recursed:
  "\<not> isLeaf k \<Longrightarrow> \<not> useNode cam far k \<Longrightarrow>
     lod_emits cam far k l \<longleftrightarrow> (\<exists>c. Some c \<in> set (children k) \<and> lod_emits cam far c l)"
  by (auto elim: lod_emits.cases intro: lod_emits.intros)

lemma getLOD_set:
  "set (getLODPointsRecursive cam d far near r []) = (\<Union>l \<in> {l. lod_emits cam far r l}. set (pointIndices l))"
proof (induction r rule: nodes.induct)
  case (1 mn mx pis ch lvl leaf)
  let ?n = "Node mn mx pis ch lvl leaf"
  consider (leaf) leaf | (used) "\<not> leaf" "useNode cam far ?n" | (rec) "\<not> leaf" "\<not> useNode cam far ?n"
    by blast
  then show ?case
  proof cases
    case leaf
    then have "{l. lod_emits cam far ?n l} = {?n}"
      using lod_emits_leaf [of ?n cam far] by auto
    with leaf show ?thesis by (simp only: getLOD_Nil) simp
  next
    case used
    have e: "{l. lod_emits cam far ?n l} = {l. Some l \<in> set ch \<and> isLeaf l}"
      using lod_emits_used [of ?n cam far] used by auto
    have "set (concat (map (\<lambda>c. case c of None \<Rightarrow> []
                         | Some k \<Rightarrow> if isLeaf k then pointIndices k else []) ch))
        = (\<Union>l \<in> {l. Some l \<in> set ch \<and> isLeaf l}. set (pointIndices l))"
      by (auto split: option.splits if_splits)
    with used e show ?thesis by (simp only: getLOD_Nil if_False if_True)
  next
    case rec
    have e: "{l. lod_emits cam far ?n l} = {l. \<exists>c. Some c \<in> set ch \<and> lod_emits cam far c l}"
      using lod_emits_recursed [of ?n cam far] rec by auto
    have "set (concat (map (\<lambda>c. case c of None \<Rightarrow> []
                         | Some k \<Rightarrow> getLODPointsRecursive cam d far near k []) ch))
        = (\<Union>c \<in> {c. Some c \<in> set ch}. set (getLODPointsRecursive cam d far near c []))"
      by (auto split: option.splits)
    also have "\<dots> = (\<Union>c \<in> {c. Some c \<in> set ch}. \<Union>l \<in> {l. lod_emits cam far c l}. set (pointIndices l))"
      using "1.IH" by simp
    also have "\<dots> = (\<Union>l \<in> {l. \<exists>c. Some c \<in> set ch \<and> lod_emits cam far c l}. set (pointIndices l))"
      by blast
    finally show ?thesis using rec e by (simp only: getLOD_Nil if_False)
  qed
qed

lemma mset_concat_subset:
  "(\<And>x. x \<in> set xs \<Longrightarrow> mset (f x) \<subseteq># mset (g x)) \<Longrightarrow>
     mset (concat (map f xs)) \<subseteq># mset (concat (map g xs))"
  by (induction xs) (simp_all add: subset_mset.add_mono)

lemma leafIndices_self: "isLeaf k \<Longrightarrow> mset (pointIndices k) \<subseteq># mset (leafIndices k)"
  by (cases k) (simp add: leafIndices_Node)

lemma getLOD_mset:
  "mset (getLODPointsRecursive cam d far near r []) \<subseteq># mset (leafIndices r)"
proof (induction r rule: nodes.induct)
  case (1 mn mx pis ch lvl leaf)
  let ?n = "Node mn mx pis ch lvl leaf"
  have li: "mset (concat (map leafIndicesO ch)) \<subseteq># mset (leafIndices ?n)"
    by (simp add: leafIndices_Node)
  consider (leaf) leaf | (used) "\<not> leaf" "useNode cam far ?n" | (rec) "\<not> leaf" "\<not> useNode cam far ?n"
    by blast
  then show ?case
  proof cases
    case leaf
    then show ?thesis by (simp only: getLOD_Nil) (simp add: leafIndices_Node)
  next
    case used
    have "mset (concat (map (\<lambda>c. case c of None \<Rightarrow> []
                         | Some k \<Rightarrow> if isLeaf k then pointIndices k else []) ch))
        \<subseteq># mset (concat (map leafIndicesO ch))"
      by (rule mset_concat_subset) (auto simp: leafIndicesO_def leafIndices_self split: option.splits)
    then have "mset (concat (map (\<lambda>c. case c of None \<Rightarrow> []
                         | Some k \<Rightarrow> if isLeaf k then pointIndices k else []) ch))
        \<subseteq># mset (leafIndices ?n)"
      using li by (rule subset_mset.order_trans)
    with used show ?thesis by (simp only: getLOD_Nil if_False if_True)
  next
    case rec
    have "mset (concat (map (\<lambda>c. case c of None \<Rightarrow> []
                         | Some k \<Rightarrow> getLODPointsRecursive cam d far near k []) ch))
        \<subseteq># mset (concat (map leafIndicesO ch))"
      by (rule mset_concat_subset) (auto simp: leafIndicesO_def "1.IH" split: option.splits)
    then have "mset (concat (map (\<lambda>c. case c of None \<Rightarrow> []
                         | Some k \<Rightarrow> getLODPointsRecursive cam d far near k []) ch))
        \<subseteq># mset (leafIndices ?n)"
      using li by (rule subset_mset.order_trans)
    with rec show ?thesis by (simp only: getLOD_Nil if_False)
  qed
qed

lemma distinct_mset_sub:
  assumes "mset xs \<subseteq># mset ys" and "distinct ys"
  shows "distinct xs"
proof -
  have "count (mset xs) a = (if a \<in> set xs then 1 else 0)" for a
  proof (cases "a \<in> set xs")
    case True
    have "count (mset xs) a \<le> count (mset ys) a"
      using assms(1) by (rule mset_subset_eq_count)
    moreover have "count (mset ys) a \<le> 1"
      using assms(2) by (simp add: distinct_count_atmost_1)
    moreover from True have "0 < count (mset xs) a" by simp
    ultimately have "count (mset xs) a = 1" by linarith
    with True show ?thesis by simp
  next
    case False
    then show ?thesis by (simp add: count_eq_zero_iff)
  qed
  then show ?thesis by (simp only: distinct_count_atmost_1) simp
qed

lemmas lod_eval = useNode_def useNode_spec_def center_def maxDim_def size_n_def f_0_01_def
  vec3_length_def vec3_dot_def vec3_sub_def vec3_add_def vec3_scale_def V3_def Let_def float_eval

lemma build_points_lod:
  "build points_lod (V3 0 0 0) (V3 4 4 2) 1 8 = Some \<lparr>mRoot = Some lod_root,
     stats = \<lparr>mNodeCount = 5, mMaxDepth = 2\<rparr>\<rparr>"
  by (simp add: points_lod_def lod_root_def lod_inner_def V3_def build_eval float_eval)

lemma lod_root_useNode: "useNode (V3 2 2 501) (Finite 1000) lod_root"
  by (simp add: lod_root_def lod_eval)

lemma lod_root_not_useNode_spec: "\<not> useNode_spec (V3 2 2 501) (Finite 1000) lod_root"
  by (simp add: lod_root_def lod_eval)

lemma lod_inner_result:
  "getLODPointsRecursive cam d far near lod_inner out = out @ [0, 1]"
  by (simp add: lod_inner_def replicate8)

lemma lod_root_result:
  "getLODPoints (the (build points_lod (V3 0 0 0) (V3 4 4 2) 1 8)) (V3 2 2 501) (Finite 500) (Finite 1000) (Finite 10) = [2]"
  using lod_root_useNode
  by (simp only: build_points_lod option.sel)
     (simp add: getLODPoints_def lod_root_def lod_inner_def replicate8)

lemma build_points2_leaf:
  "build points2 (V3 0 0 0) (V3 1 1 1) 2 8 = Some \<lparr>mRoot = Some (Node (V3 0 0 0) (V3 1 1 1) [0, 1]
     (replicate 8 None) 0 True), stats = \<lparr>mNodeCount = 1, mMaxDepth = 0\<rparr>\<rparr>"
  by (simp add: points2_def V3_def build_eval float_eval)

lemma leaf_not_useNode:
  "\<not> useNode (V3 (1/2) (1/2) (7/2)) (Finite 1000) (Node (V3 0 0 0) (V3 1 1 1) [0, 1] (replicate 8 None) 0 True)"
  by (simp add: lod_eval)

lemma leaf_result:
  "getLODPoints (the (build points2 (V3 0 0 0) (V3 1 1 1) 2 8)) (V3 (1/2) (1/2) (7/2)) (Finite 3) (Finite 1000) (Finite 10) = [0, 1]"
  by (simp only: build_points2_leaf option.sel) (simp add: getLODPoints_def)

text \<open>
  C8, as stated, fails. The root of the octree built over \<open>points_lod\<close> has extent
  \<open>4 \<times> 4 \<times> 2\<close> and is seen from distance \<open>500\<close> with \<^verbatim>\<open>farThreshold\<close> \<open>1000\<close>: the
  diagonal \<open>6\<close> over the distance is not below \<^verbatim>\<open>0.01f\<close> and the node is not far, so the
  claim has the traversal recurse (which yields all three indices); the source divides
  the largest extent \<open>4\<close> by the distance, uses the node directly and yields index \<open>2\<close>
  only, the list of its one child that is a leaf. And a root that is a leaf, seen from
  distance \<open>3\<close>, fails the test and has its points emitted all the same.
\<close>

theorem getLODPoints_diagonal_counterexample:
  "list_all (\<lambda>p. vec3_binary32 (position p)) points_lod \<and> vec3_binary32 (V3 4 4 2) \<and>
   vec3_binary32 (V3 2 2 501) \<and> binary32 (Finite 1000) \<and> vec3_binary32 (V3 (1/2) (1/2) (7/2)) \<and>
   build points_lod (V3 0 0 0) (V3 4 4 2) 1 8 \<noteq> None \<and> build points2 (V3 0 0 0) (V3 1 1 1) 2 8 \<noteq> None \<and>
   mRoot (the (build points_lod (V3 0 0 0) (V3 4 4 2) 1 8)) = Some lod_root \<and>
   \<not> useNode_spec (V3 2 2 501) (Finite 1000) lod_root \<and> \<not> isLeaf lod_root \<and>
   fold (\<lambda>c out. case c of None \<Rightarrow> out
          | Some k \<Rightarrow> getLODPointsRecursive (V3 2 2 501) (Finite 500) (Finite 1000) (Finite 10) k out)
     (children lod_root) [] = [0, 1, 2] \<and>
   getLODPoints (the (build points_lod (V3 0 0 0) (V3 4 4 2) 1 8)) (V3 2 2 501) (Finite 500) (Finite 1000) (Finite 10) = [2] \<and>
   mRoot (the (build points2 (V3 0 0 0) (V3 1 1 1) 2 8))
     = Some (Node (V3 0 0 0) (V3 1 1 1) [0, 1] (replicate 8 None) 0 True) \<and>
   \<not> useNode (V3 (1/2) (1/2) (7/2)) (Finite 1000) (Node (V3 0 0 0) (V3 1 1 1) [0, 1] (replicate 8 None) 0 True) \<and>
   getLODPoints (the (build points2 (V3 0 0 0) (V3 1 1 1) 2 8)) (V3 (1/2) (1/2) (7/2)) (Finite 3) (Finite 1000) (Finite 10) = [0, 1]"
proof -
  have r: "mRoot (the (build points_lod (V3 0 0 0) (V3 4 4 2) 1 8)) = Some lod_root"
    by (simp only: build_points_lod option.sel) simp
  have a: "\<not> isLeaf lod_root" by (simp add: lod_root_def)
  have b: "fold (\<lambda>c out. case c of None \<Rightarrow> out
          | Some k \<Rightarrow> getLODPointsRecursive (V3 2 2 501) (Finite 500) (Finite 1000) (Finite 10) k out)
     (children lod_root) [] = [0, 1, 2]"
    by (simp add: lod_root_def lod_inner_result replicate8)
  have l: "mRoot (the (build points2 (V3 0 0 0) (V3 1 1 1) 2 8))
     = Some (Node (V3 0 0 0) (V3 1 1 1) [0, 1] (replicate 8 None) 0 True)"
    by (simp only: build_points2_leaf option.sel) simp
  have i: "list_all (\<lambda>p. vec3_binary32 (position p)) points_lod \<and> vec3_binary32 (V3 4 4 2) \<and>
      vec3_binary32 (V3 2 2 501) \<and> binary32 (Finite 1000) \<and> vec3_binary32 (V3 (1/2) (1/2) (7/2))"
    by (simp add: binary32_eval points_lod_def)
  have n: "build points_lod (V3 0 0 0) (V3 4 4 2) 1 8 \<noteq> None"
    "build points2 (V3 0 0 0) (V3 1 1 1) 2 8 \<noteq> None"
    by (simp_all only: build_points_lod build_points2_leaf) simp_all
  from i n r lod_root_not_useNode_spec a b lod_root_result l leaf_not_useNode leaf_result
  show ?thesis by (simp only: simp_thms)
qed

text \<open>
  C8, amended. In \<^verbatim>\<open>getLODPoints\<close> a visited leaf always appends its own index list. A
  visited node that is not a leaf is used directly exactly when the computed distance
  from the camera to the node's centre exceeds \<^verbatim>\<open>farThreshold\<close> or the node's largest
  axis extent divided by that distance (in binary32) is below \<^verbatim>\<open>0.01f\<close>; then the index
  lists of those of its children that are leaves are appended and nothing below its other
  children is read. Otherwise every present child is visited. For a built octree the
  indices returned are exactly those of the leaves reached by these three rules, each
  index at most once, all below the number of points.
\<close>

theorem getLODPoints_emits:
  assumes "build pts mn mx P D = Some oct" and "mRoot oct = Some r"
  shows "set (getLODPoints oct cam d far near) = (\<Union>l \<in> {l. lod_emits cam far r l}. set (pointIndices l)) \<and>
         distinct (getLODPoints oct cam d far near) \<and>
         set (getLODPoints oct cam d far near) \<subseteq> {0..<length pts} \<and>
         (useNode cam far k \<longleftrightarrow>
            fgt (vec3_length (vec3_sub cam (center k))) far \<or>
            flt (fdiv (maxDim k) (vec3_length (vec3_sub cam (center k)))) (Finite (5368709 / 2 ^ 29)))"
proof -
  from build_built [OF assms(1)] assms(2) have b: "built pts P D mn mx 0 [0..<length pts] r"
    by auto
  have eq: "getLODPoints oct cam d far near = getLODPointsRecursive cam d far near r []"
    by (simp add: getLODPoints_def assms(2))
  have m: "mset (leafIndices r) = mset [0..<length pts]" by (rule built_mset [OF b])
  have sub: "mset (getLODPointsRecursive cam d far near r []) \<subseteq># mset [0..<length pts]"
    using getLOD_mset [of cam d far near r] m by simp
  have dist: "distinct (getLODPointsRecursive cam d far near r [])"
    using sub by (rule distinct_mset_sub) simp
  from sub have "set_mset (mset (getLODPointsRecursive cam d far near r [])) \<subseteq> set_mset (mset [0..<length pts])"
    by (rule set_mset_mono)
  then have ss: "set (getLODPointsRecursive cam d far near r []) \<subseteq> {0..<length pts}" by simp
  have u: "useNode cam far k \<longleftrightarrow>
            fgt (vec3_length (vec3_sub cam (center k))) far \<or>
            flt (fdiv (maxDim k) (vec3_length (vec3_sub cam (center k)))) (Finite (5368709 / 2 ^ 29))"
    by (simp add: useNode_def Let_def f_0_01_def)
  from getLOD_set [of cam d far near r] dist ss u show ?thesis
    by (simp only: eq simp_thms)
qed

theorem getLODPoints_emits_witness:
  "\<exists>oct. build points_lod (V3 0 0 0) (V3 4 4 2) 1 8 = Some oct \<and> mRoot oct = Some lod_root \<and>
     getLODPoints oct (V3 2 2 501) (Finite 500) (Finite 1000) (Finite 10) = [2] \<and>
     set (getLODPoints oct (V3 2 2 501) (Finite 500) (Finite 1000) (Finite 10))
       = (\<Union>l \<in> {l. lod_emits (V3 2 2 501) (Finite 1000) lod_root l}. set (pointIndices l)) \<and>
     distinct (getLODPoints oct (V3 2 2 501) (Finite 500) (Finite 1000) (Finite 10)) \<and>
     set (getLODPoints oct (V3 2 2 501) (Finite 500) (Finite 1000) (Finite 10)) \<subseteq> {0..<length points_lod} \<and>
     useNode (V3 2 2 501) (Finite 1000) lod_root"
proof -
  let ?oct = "\<lparr>mRoot = Some lod_root, stats = \<lparr>mNodeCount = 5, mMaxDepth = 2\<rparr>\<rparr>"
  have r: "mRoot ?oct = Some lod_root" by simp
  have v: "getLODPoints ?oct (V3 2 2 501) (Finite 500) (Finite 1000) (Finite 10) = [2]"
    using lod_root_result by (simp only: build_points_lod option.sel)
  from getLODPoints_emits [OF build_points_lod r, of "V3 2 2 501" "Finite 500" "Finite 1000" "Finite 10" lod_root]
    build_points_lod r v lod_root_useNode
  show ?thesis by blast
qed

section \<open>Loading: the scalar range\<close>

lemma loadFromFile_ok_scalar:
  assumes "loadFromFile scene err m0 = Some (LoadOk m)"
  shows "scene \<noteq> None \<and>
     mScalarMin m = (if fle (bScalarMax (computed_bounds (scene_mMeshes (the scene))))
                            (bScalarMin (computed_bounds (scene_mMeshes (the scene))))
                     then Finite 0 else bScalarMin (computed_bounds (scene_mMeshes (the scene)))) \<and>
     mScalarMax m = (if fle (bScalarMax (computed_bounds (scene_mMeshes (the scene))))
                            (bScalarMin (computed_bounds (scene_mMeshes (the scene))))
                     then Finite 1 else bScalarMax (computed_bounds (scene_mMeshes (the scene))))"
proof -
  let ?ais = "scene_mMeshes (the scene)"
  obtain ms g where fg: "foldl (merge_mesh ?ais) (replicate (length ?ais) Mesh_default, Bounds_init) [0..<length ?ais] = (ms, g)"
    by (cases "foldl (merge_mesh ?ais) (replicate (length ?ais) Mesh_default, Bounds_init) [0..<length ?ais]")
  then have g: "computed_bounds ?ais = g" by (simp add: computed_bounds_def)
  have fg': "foldl (merge_mesh ?ais) (replicate (length ?ais) Mesh_default,
        \<lparr>bMin = Vec3 FLT_MAX FLT_MAX FLT_MAX, bMax = Vec3 (fneg FLT_MAX) (fneg FLT_MAX) (fneg FLT_MAX),
                   bScalarMin = FLT_MAX, bScalarMax = fneg FLT_MAX\<rparr>) [0..<length ?ais] = (ms, g)"
    using fg by (simp add: Bounds_init_def)
  from assms show ?thesis
    unfolding loadFromFile_def Let_def fg' g
    by (auto split: if_splits option.splits)
qed


lemma makeVertex_scalar: "scalar (makeVertex a i) = Finite 0"
  by (simp add: makeVertex_def Vertex_default_def Let_def)

lemma FLT_MAX_gt0: "0 < FLT_MAX_real"
  by (simp add: FLT_MAX_real_def)

lemmas degenerate_simps = degenerate_def FLT_MAX_def fneg_def fmin_def fmax_def fle_def

lemma degenerate_le: "degenerate b \<Longrightarrow> fle (bScalarMax b) (bScalarMin b)"
  using FLT_MAX_gt0 by (auto simp: degenerate_simps)

lemma degenerate_vertex: "degenerate b \<Longrightarrow> scalar v = Finite 0 \<Longrightarrow> degenerate (bounds_vertex b v)"
  using FLT_MAX_gt0 by (auto simp: degenerate_simps bounds_vertex_def)

lemma degenerate_merge: "degenerate g \<Longrightarrow> degenerate b \<Longrightarrow> degenerate (bounds_merge g b)"
  using FLT_MAX_gt0 by (auto simp: degenerate_simps bounds_merge_def)

lemma degenerate_foldl_vertices:
  "degenerate b \<Longrightarrow> \<forall>v \<in> set vs. scalar v = Finite 0 \<Longrightarrow> degenerate (foldl bounds_vertex b vs)"
  by (induction vs arbitrary: b) (simp_all add: degenerate_vertex)

lemma degenerate_processMesh: "degenerate (snd (processMesh a))"
proof -
  have "degenerate Bounds_init" by (simp add: degenerate_def Bounds_init_def)
  then have "degenerate (foldl bounds_vertex Bounds_init (map (makeVertex a) [0..<mNumVertices a]))"
    by (rule degenerate_foldl_vertices) (simp add: makeVertex_scalar)
  then show ?thesis by (simp add: processMesh_def Let_def)
qed

lemma degenerate_foldl_merge:
  "degenerate (snd acc) \<Longrightarrow> degenerate (snd (foldl (merge_mesh ais) acc js))"
proof (induction js arbitrary: acc)
  case Nil
  then show ?case by simp
next
  case (Cons j js)
  have "degenerate (snd (merge_mesh ais acc j))"
    using Cons.prems degenerate_processMesh [of "ais ! j"]
    by (simp add: merge_mesh_def split: prod.splits) (metis degenerate_merge snd_conv)
  then show ?case using Cons.IH by simp
qed

lemma computed_bounds_degenerate:
  "fle (bScalarMax (computed_bounds ais)) (bScalarMin (computed_bounds ais))"
proof -
  have "degenerate Bounds_init" by (simp add: degenerate_def Bounds_init_def)
  then have "degenerate (computed_bounds ais)"
    unfolding computed_bounds_def by (intro degenerate_foldl_merge) simp
  then show ?thesis by (rule degenerate_le)
qed

text \<open>
  C10. After a successful \<^verbatim>\<open>loadFromFile\<close> in which the scalar maximum computed over the
  meshes is at most the computed minimum, \<^verbatim>\<open>scalarMin()\<close> is \<open>0\<close> and \<^verbatim>\<open>scalarMax()\<close>
  is \<open>1\<close>.
\<close>

theorem loadFromFile_degenerate_scalar_range:
  assumes "loadFromFile (Some sc) err m0 = Some (LoadOk m)"
    and "fle (bScalarMax (computed_bounds (scene_mMeshes sc))) (bScalarMin (computed_bounds (scene_mMeshes sc)))"
  shows "mScalarMin m = Finite 0 \<and> mScalarMax m = Finite 1"
  using loadFromFile_ok_scalar [OF assms(1)] assms(2) by simp

lemma upt3: "[0..<3] = [0, 1, 2]"
  by (simp add: upt_rec)

lemma triangle_scene_bounds:
  "bScalarMin (computed_bounds (scene_mMeshes triangle_scene)) = Finite 0 \<and>
   bScalarMax (computed_bounds (scene_mMeshes triangle_scene)) = Finite 0"
  using FLT_MAX_gt0
  by (simp add: FLT_MAX_def fneg_def fmin_def fmax_def computed_bounds_def triangle_scene_def triangle_aiMesh_def merge_mesh_def processMesh_def
      makeVertex_def Vertex_default_def HasPositions_def HasNormals_def HasTextureCoords0_def
      HasVertexColors0_def Bounds_init_def bounds_vertex_def bounds_merge_def upt3 Let_def)

lemma triangle_scene_loads:
  "\<exists>m. loadFromFile (Some triangle_scene) [] Model_default = Some (LoadOk m)"
proof -
  have "\<not> Model_isPointCloud (mdl\<lparr>mMeshes := fst (foldl (merge_mesh [triangle_aiMesh])
      ([Mesh_default], g0) [0])\<rparr>)" for mdl :: Model and g0
    by (simp add: Model_isPointCloud_def merge_mesh_def processMesh_def triangle_aiMesh_def
        Mesh_default_def Let_def split: prod.splits)
  then show ?thesis
    by (simp add: loadFromFile_def triangle_scene_def Let_def Model_isPointCloud_def
        merge_mesh_def processMesh_def triangle_aiMesh_def Mesh_default_def split: prod.splits)
qed

theorem loadFromFile_degenerate_scalar_range_witness:
  "\<exists>m. loadFromFile (Some triangle_scene) [] Model_default = Some (LoadOk m) \<and>
       fle (bScalarMax (computed_bounds (scene_mMeshes triangle_scene)))
         (bScalarMin (computed_bounds (scene_mMeshes triangle_scene))) \<and>
       mScalarMin m = Finite 0 \<and> mScalarMax m = Finite 1"
proof -
  from triangle_scene_loads obtain m
    where m: "loadFromFile (Some triangle_scene) [] Model_default = Some (LoadOk m)" by blast
  have le: "fle (bScalarMax (computed_bounds (scene_mMeshes triangle_scene)))
         (bScalarMin (computed_bounds (scene_mMeshes triangle_scene)))"
    using triangle_scene_bounds by simp
  from loadFromFile_degenerate_scalar_range [OF m le] m le show ?thesis by blast
qed
section \<open>Occlusion culling in the scene draw\<close>









section \<open>Upload\<close>



lemma uploadMesh_skip: "vao mesh \<noteq> 0 \<Longrightarrow> uploadMesh bits mesh gl = (mesh, gl)"
  by (simp add: uploadMesh_def)

lemma uploadMesh_fields:
  assumes "vao mesh = 0"
  shows "usesOptimizedVertices (fst (uploadMesh bits mesh gl))
           = (\<not> isPointCloud mesh \<and> VertexOptimizationMinVerts \<le> vertexCount mesh)"
    and "uses16BitIndices (fst (uploadMesh bits mesh gl))
           = (if \<not> isPointCloud mesh \<and> indexCount mesh > 0
              then vertexCount mesh < 65536 \<and> allFit (indices mesh) else uses16BitIndices mesh)"
    and "vertexCount (fst (uploadMesh bits mesh gl)) = vertexCount mesh"
    and "indexCount (fst (uploadMesh bits mesh gl)) = indexCount mesh"
    and "isPointCloud (fst (uploadMesh bits mesh gl)) = isPointCloud mesh"
    and "vao (fst (uploadMesh bits mesh gl)) \<noteq> 0"
  using assms
  by (simp_all add: uploadMesh_def create_vao_def create_buffer_def upload_indices_def emit_def Let_def
      split: prod.splits)


lemma uploadMesh_log:
  assumes "vao mesh = 0"
  shows "gl_log (snd (uploadMesh bits mesh gl)) =
     gl_log gl @ [GenVertexArrays (vao (fst (uploadMesh bits mesh gl)))]
      @ (if vbo mesh = 0 then [GenBuffers (vbo (fst (uploadMesh bits mesh gl)))] else [])
      @ (if \<not> isPointCloud mesh \<and> ebo mesh = 0 then [GenBuffers (ebo (fst (uploadMesh bits mesh gl)))] else [])
      @ [BindVertexArray (vao (fst (uploadMesh bits mesh gl))),
         BindBuffer GL_ARRAY_BUFFER (vbo (fst (uploadMesh bits mesh gl))),
         BufferData GL_ARRAY_BUFFER (vertexCount mesh)
           (if \<not> isPointCloud mesh \<and> VertexOptimizationMinVerts \<le> vertexCount mesh
            then OptimizedVertexData (map (pack_vertex bits) (vertices mesh))
            else VertexData (vertices mesh)) GL_STATIC_DRAW]
      @ (if \<not> isPointCloud mesh \<and> indexCount mesh > 0
         then BindBuffer GL_ELEMENT_ARRAY_BUFFER (ebo (fst (uploadMesh bits mesh gl))) # snd (upload_indices mesh)
         else [])
      @ (if \<not> isPointCloud mesh \<and> VertexOptimizationMinVerts \<le> vertexCount mesh
         then optimized_layout else standard_layout)
      @ [BindBuffer GL_ARRAY_BUFFER 0]"
  using assms
  by (simp add: uploadMesh_def create_vao_def create_buffer_def upload_indices_def emit_def Let_def
      split: prod.splits)


lemma uploadMesh_log_ext:
  "gl_log (snd (uploadMesh bits mesh gl)) = gl_log gl @ upload_calls bits mesh gl"
proof (cases "vao mesh = 0")
  case True
  from uploadMesh_log [OF True, of bits gl]
  obtain cs where "gl_log (snd (uploadMesh bits mesh gl)) = gl_log gl @ cs" by blast
  then show ?thesis by (simp add: upload_calls_def)
next
  case False
  then show ?thesis by (simp add: uploadMesh_skip upload_calls_def)
qed

lemma uploadMeshes_Cons:
  "uploadMeshes bits (mesh # ms) gl =
     (fst (uploadMesh bits mesh gl) # fst (uploadMeshes bits ms (snd (uploadMesh bits mesh gl))),
      snd (uploadMeshes bits ms (snd (uploadMesh bits mesh gl))))"
  by (simp add: case_prod_beta)

lemma uploadMeshes_length: "length (fst (uploadMeshes bits ms gl)) = length ms"
  by (induction ms arbitrary: gl) (simp_all only: uploadMeshes_Cons uploadMeshes.simps fst_conv list.size)

lemma uploadMeshes_log_ext:
  "\<exists>cs. gl_log (snd (uploadMeshes bits ms gl)) = gl_log gl @ cs"
proof (induction ms arbitrary: gl)
  case Nil
  then show ?case by simp
next
  case (Cons mesh ms)
  obtain cs where "gl_log (snd (uploadMeshes bits ms (snd (uploadMesh bits mesh gl))))
      = gl_log (snd (uploadMesh bits mesh gl)) @ cs"
    using Cons.IH by blast
  then show ?case
    by (simp only: uploadMeshes_Cons snd_conv uploadMesh_log_ext append_assoc) blast
qed

lemma uploadMeshes_nth:
  "i < length ms \<Longrightarrow>
   \<exists>gli pre post. fst (uploadMeshes bits ms gl) ! i = fst (uploadMesh bits (ms ! i) gli) \<and>
      gl_log (snd (uploadMeshes bits ms gl)) = pre @ upload_calls bits (ms ! i) gli @ post"
proof (induction ms arbitrary: i gl)
  case Nil
  then show ?case by simp
next
  case (Cons mesh ms)
  let ?gl1 = "snd (uploadMesh bits mesh gl)"
  have unf: "uploadMeshes bits (mesh # ms) gl =
      (fst (uploadMesh bits mesh gl) # fst (uploadMeshes bits ms ?gl1), snd (uploadMeshes bits ms ?gl1))"
    by (rule uploadMeshes_Cons)
  show ?case
  proof (cases i)
    case 0
    obtain cs where cs: "gl_log (snd (uploadMeshes bits ms ?gl1)) = gl_log ?gl1 @ cs"
      using uploadMeshes_log_ext by blast
    have "gl_log (snd (uploadMeshes bits (mesh # ms) gl)) = gl_log gl @ upload_calls bits mesh gl @ cs"
      by (simp only: unf snd_conv cs uploadMesh_log_ext append_assoc)
    with 0 unf show ?thesis by (metis fst_conv nth_Cons_0)
  next
    case (Suc j)
    with Cons.prems have j: "j < length ms" by simp
    from Cons.IH [OF j, of ?gl1] Suc unf show ?thesis by (metis fst_conv snd_conv nth_Cons_Suc)
  qed
qed

lemma uploadToGPU_mesh:
  assumes "uploadToGPU bits dropCpu m gl = (m', gl')" and "i < length (mMeshes m)"
  shows "length (mMeshes m') = length (mMeshes m) \<and>
     (\<exists>gli pre post.
        usesOptimizedVertices (mMeshes m' ! i) = usesOptimizedVertices (fst (uploadMesh bits (mMeshes m ! i) gli)) \<and>
        uses16BitIndices (mMeshes m' ! i) = uses16BitIndices (fst (uploadMesh bits (mMeshes m ! i) gli)) \<and>
        vao (mMeshes m' ! i) = vao (fst (uploadMesh bits (mMeshes m ! i) gli)) \<and>
        vbo (mMeshes m' ! i) = vbo (fst (uploadMesh bits (mMeshes m ! i) gli)) \<and>
        ebo (mMeshes m' ! i) = ebo (fst (uploadMesh bits (mMeshes m ! i) gli)) \<and>
        gl_log gl' = pre @ upload_calls bits (mMeshes m ! i) gli @ post)"
proof -
  let ?ms = "fst (uploadMeshes bits (mMeshes m) gl)" and ?g = "snd (uploadMeshes bits (mMeshes m) gl)"
  have m': "mMeshes m' = (if dropCpu then map (\<lambda>mesh. mesh\<lparr>vertices := [], indices := []\<rparr>) ?ms else ?ms)"
    and g': "gl_log gl' = gl_log ?g @ [BindVertexArray 0]"
    using assms(1) by (auto simp: uploadToGPU_def emit_def Let_def split: prod.splits)
  have len: "length ?ms = length (mMeshes m)" by (rule uploadMeshes_length)
  from uploadMeshes_nth [OF assms(2), of bits gl] obtain gli pre post where
    n: "?ms ! i = fst (uploadMesh bits (mMeshes m ! i) gli)"
    and l: "gl_log ?g = pre @ upload_calls bits (mMeshes m ! i) gli @ post" by blast
  have "gl_log gl' = pre @ upload_calls bits (mMeshes m ! i) gli @ (post @ [BindVertexArray 0])"
    using g' l by simp
  moreover have "usesOptimizedVertices (mMeshes m' ! i) = usesOptimizedVertices (?ms ! i)"
    "uses16BitIndices (mMeshes m' ! i) = uses16BitIndices (?ms ! i)"
    "vao (mMeshes m' ! i) = vao (?ms ! i)" "vbo (mMeshes m' ! i) = vbo (?ms ! i)"
    "ebo (mMeshes m' ! i) = ebo (?ms ! i)"
    using assms(2) len by (simp_all add: m')
  moreover have "length (mMeshes m') = length (mMeshes m)" using len by (simp add: m')
  ultimately show ?thesis using n by metis
qed

lemma upload_calls_fresh:
  assumes "vao mesh = 0"
  shows "upload_calls bits mesh gl =
     ([GenVertexArrays (vao (fst (uploadMesh bits mesh gl)))]
      @ (if vbo mesh = 0 then [GenBuffers (vbo (fst (uploadMesh bits mesh gl)))] else [])
      @ (if \<not> isPointCloud mesh \<and> ebo mesh = 0 then [GenBuffers (ebo (fst (uploadMesh bits mesh gl)))] else []))
      @ [BindVertexArray (vao (fst (uploadMesh bits mesh gl))),
         BindBuffer GL_ARRAY_BUFFER (vbo (fst (uploadMesh bits mesh gl))),
         BufferData GL_ARRAY_BUFFER (vertexCount mesh)
           (if \<not> isPointCloud mesh \<and> VertexOptimizationMinVerts \<le> vertexCount mesh
            then OptimizedVertexData (map (pack_vertex bits) (vertices mesh))
            else VertexData (vertices mesh)) GL_STATIC_DRAW]
      @ (if \<not> isPointCloud mesh \<and> indexCount mesh > 0
         then BindBuffer GL_ELEMENT_ARRAY_BUFFER (ebo (fst (uploadMesh bits mesh gl))) # snd (upload_indices mesh)
         else [])
      @ (if \<not> isPointCloud mesh \<and> VertexOptimizationMinVerts \<le> vertexCount mesh
         then optimized_layout else standard_layout)
      @ [BindBuffer GL_ARRAY_BUFFER 0]"
  unfolding upload_calls_def
  by (subst uploadMesh_log [OF assms]) (simp only: drop_append length_append append_assoc, simp)

lemma upload_indices_calls: "\<forall>c \<in> set (snd (upload_indices mesh)). is_index_call c"
  by (simp add: upload_indices_def Let_def)

text \<open>
  C4, as stated, fails: a point-cloud mesh of 10000 vertices reaches the threshold, and
  the upload leaves \<^verbatim>\<open>usesOptimizedVertices\<close> false.
\<close>

theorem uploadToGPU_point_cloud_counterexample:
  "VertexOptimizationMinVerts \<le> vertexCount cloud_mesh \<and>
   \<not> usesOptimizedVertices
       (mMeshes (fst (uploadToGPU (\<lambda>f. 0) True (Model_default\<lparr>mMeshes := [cloud_mesh]\<rparr>) GL_init)) ! 0)"
  by (simp add: uploadToGPU_def uploadMesh_def cloud_mesh_def Mesh_default_def Model_default_def
      VertexOptimizationMinVerts_def create_vao_def create_buffer_def emit_def Let_def GL_init_def
      split: prod.splits)

text \<open>
  C4, amended. For every mesh that \<^verbatim>\<open>uploadToGPU\<close> uploads (one without a vertex array
  yet), \<^verbatim>\<open>usesOptimizedVertices\<close> is true exactly when the mesh is not a point cloud and
  its vertex count is at least \<^verbatim>\<open>Config::VertexOptimizationMinVerts\<close>. When true, the
  vertex buffer receives the packed vertices (positions and UVs as half floats, normals,
  colours and scalar as they are) under the layout with half-float position and UV
  attributes; otherwise it receives the vertices as they are under the all-float layout.
  Between the vertex upload and the layout only the index buffer is touched.
\<close>

theorem uploadToGPU_optimized_vertices:
  assumes "uploadToGPU bits dropCpu m gl = (m', gl')"
    and "i < length (mMeshes m)" and "vao (mMeshes m ! i) = 0"
  shows "length (mMeshes m') = length (mMeshes m) \<and>
    (usesOptimizedVertices (mMeshes m' ! i) \<longleftrightarrow>
       \<not> isPointCloud (mMeshes m ! i) \<and> VertexOptimizationMinVerts \<le> vertexCount (mMeshes m ! i)) \<and>
    (\<exists>pre mid post.
       gl_log gl' = pre
         @ [BindVertexArray (vao (mMeshes m' ! i)),
            BindBuffer GL_ARRAY_BUFFER (vbo (mMeshes m' ! i)),
            BufferData GL_ARRAY_BUFFER (vertexCount (mMeshes m ! i))
              (if usesOptimizedVertices (mMeshes m' ! i)
               then OptimizedVertexData (map (pack_vertex bits) (vertices (mMeshes m ! i)))
               else VertexData (vertices (mMeshes m ! i))) GL_STATIC_DRAW]
         @ mid
         @ (if usesOptimizedVertices (mMeshes m' ! i) then optimized_layout else standard_layout)
         @ [BindBuffer GL_ARRAY_BUFFER 0] @ post \<and>
       (\<forall>c \<in> set mid. is_index_call c)) \<and>
    (\<forall>v. pos (pack_vertex bits v) = map (\<lambda>f. floatToHalf (bits f))
                [vx (position_v v), vy (position_v v), vz (position_v v)] \<and>
         uv (pack_vertex bits v) = map (\<lambda>f. floatToHalf (bits f)) [ux (texcoord v), uy (texcoord v)] \<and>
         normal_o (pack_vertex bits v) = [vx (normal v), vy (normal v), vz (normal v)] \<and>
         color_o (pack_vertex bits v) = [vx (color v), vy (color v), vz (color v)] \<and>
         scalar_o (pack_vertex bits v) = scalar v) \<and>
    (\<forall>a n t s f. VertexAttribPointer a n t s f \<in> set optimized_layout \<longrightarrow>
         t = (if f = Member_pos \<or> f = Member_uv then GL_HALF_FLOAT else GL_FLOAT)) \<and>
    (\<forall>a n t s f. VertexAttribPointer a n t s f \<in> set standard_layout \<longrightarrow> t = GL_FLOAT)"
proof -
  let ?mesh = "mMeshes m ! i"
  from uploadToGPU_mesh [OF assms(1,2)] obtain gli pre post where
    len: "length (mMeshes m') = length (mMeshes m)"
    and o: "usesOptimizedVertices (mMeshes m' ! i) = usesOptimizedVertices (fst (uploadMesh bits ?mesh gli))"
    and a: "vao (mMeshes m' ! i) = vao (fst (uploadMesh bits ?mesh gli))"
    and b: "vbo (mMeshes m' ! i) = vbo (fst (uploadMesh bits ?mesh gli))"
    and e: "ebo (mMeshes m' ! i) = ebo (fst (uploadMesh bits ?mesh gli))"
    and l: "gl_log gl' = pre @ upload_calls bits ?mesh gli @ post"
    by blast
  have flag: "usesOptimizedVertices (mMeshes m' ! i) \<longleftrightarrow>
       \<not> isPointCloud ?mesh \<and> VertexOptimizationMinVerts \<le> vertexCount ?mesh"
    using o uploadMesh_fields(1) [OF assms(3), of bits gli] by simp
  define gen where "gen = [GenVertexArrays (vao (mMeshes m' ! i))]
      @ (if vbo ?mesh = 0 then [GenBuffers (vbo (mMeshes m' ! i))] else [])
      @ (if \<not> isPointCloud ?mesh \<and> ebo ?mesh = 0 then [GenBuffers (ebo (mMeshes m' ! i))] else [])"
  define mid where "mid = (if \<not> isPointCloud ?mesh \<and> indexCount ?mesh > 0
         then BindBuffer GL_ELEMENT_ARRAY_BUFFER (ebo (mMeshes m' ! i)) # snd (upload_indices ?mesh)
         else [])"
  have midc: "\<forall>c \<in> set mid. is_index_call c"
    using upload_indices_calls [of ?mesh] by (auto simp: mid_def)
  have "gl_log gl' = (pre @ gen)
         @ [BindVertexArray (vao (mMeshes m' ! i)),
            BindBuffer GL_ARRAY_BUFFER (vbo (mMeshes m' ! i)),
            BufferData GL_ARRAY_BUFFER (vertexCount ?mesh)
              (if usesOptimizedVertices (mMeshes m' ! i)
               then OptimizedVertexData (map (pack_vertex bits) (vertices ?mesh))
               else VertexData (vertices ?mesh)) GL_STATIC_DRAW]
         @ mid
         @ (if usesOptimizedVertices (mMeshes m' ! i) then optimized_layout else standard_layout)
         @ [BindBuffer GL_ARRAY_BUFFER 0] @ post"
    unfolding l upload_calls_fresh [OF assms(3)] gen_def mid_def a b e flag
    by (simp only: append_assoc)
  with midc have block: "\<exists>pre mid post.
       gl_log gl' = pre
         @ [BindVertexArray (vao (mMeshes m' ! i)),
            BindBuffer GL_ARRAY_BUFFER (vbo (mMeshes m' ! i)),
            BufferData GL_ARRAY_BUFFER (vertexCount ?mesh)
              (if usesOptimizedVertices (mMeshes m' ! i)
               then OptimizedVertexData (map (pack_vertex bits) (vertices ?mesh))
               else VertexData (vertices ?mesh)) GL_STATIC_DRAW]
         @ mid
         @ (if usesOptimizedVertices (mMeshes m' ! i) then optimized_layout else standard_layout)
         @ [BindBuffer GL_ARRAY_BUFFER 0] @ post \<and>
       (\<forall>c \<in> set mid. is_index_call c)"
    by blast
  have pack: "\<forall>v. pos (pack_vertex bits v) = map (\<lambda>f. floatToHalf (bits f))
                [vx (position_v v), vy (position_v v), vz (position_v v)] \<and>
         uv (pack_vertex bits v) = map (\<lambda>f. floatToHalf (bits f)) [ux (texcoord v), uy (texcoord v)] \<and>
         normal_o (pack_vertex bits v) = [vx (normal v), vy (normal v), vz (normal v)] \<and>
         color_o (pack_vertex bits v) = [vx (color v), vy (color v), vz (color v)] \<and>
         scalar_o (pack_vertex bits v) = scalar v"
    by (simp add: pack_vertex_def)
  have lo: "\<forall>a n t s f. VertexAttribPointer a n t s f \<in> set optimized_layout \<longrightarrow>
         t = (if f = Member_pos \<or> f = Member_uv then GL_HALF_FLOAT else GL_FLOAT)"
    by (auto simp: optimized_layout_def)
  have ls: "\<forall>a n t s f. VertexAttribPointer a n t s f \<in> set standard_layout \<longrightarrow> t = GL_FLOAT"
    by (auto simp: standard_layout_def)
  from len flag block pack lo ls show ?thesis by (intro conjI)
qed


theorem uploadToGPU_optimized_vertices_witness:
  "0 < length (mMeshes (Model_default\<lparr>mMeshes := [wide_mesh]\<rparr>)) \<and>
   vao (mMeshes (Model_default\<lparr>mMeshes := [wide_mesh]\<rparr>) ! 0) = 0 \<and>
   usesOptimizedVertices
     (mMeshes (fst (uploadToGPU (\<lambda>f. 0) True (Model_default\<lparr>mMeshes := [wide_mesh]\<rparr>) GL_init)) ! 0)"
proof -
  let ?m = "Model_default\<lparr>mMeshes := [wide_mesh]\<rparr>"
  have u: "uploadToGPU (\<lambda>f. 0) True ?m GL_init =
      (fst (uploadToGPU (\<lambda>f. 0) True ?m GL_init), snd (uploadToGPU (\<lambda>f. 0) True ?m GL_init))"
    by simp
  have i: "0 < length (mMeshes ?m)" by simp
  have v: "vao (mMeshes ?m ! 0) = 0" by (simp add: wide_mesh_def Mesh_default_def)
  have c: "\<not> isPointCloud (mMeshes ?m ! 0) \<and> VertexOptimizationMinVerts \<le> vertexCount (mMeshes ?m ! 0)"
    by (simp add: wide_mesh_def Mesh_default_def VertexOptimizationMinVerts_def)
  from uploadToGPU_optimized_vertices [OF u i v] c i v show ?thesis by blast
qed




section \<open>Drawing the visible points\<close>

lemma foldl_max_less: "foldl max (a::nat) xs < b \<longleftrightarrow> a < b \<and> (\<forall>x \<in> set xs. x < b)"
  by (induction xs arbitrary: a) auto

lemma drawPointsSubset_log:
  assumes "idxs \<noteq> []" "mMeshes m \<noteq> []" "isPointCloud (mMeshes m ! 0)" "vao (mMeshes m ! 0) \<noteq> 0"
  shows "gl_log (drawPointsSubset m idxs ps gl) =
     gl_log gl @ ((if fne ps (sLastPointSize_subset gl) then [PointSize ps] else [])
       @ [GenBuffers (Suc (gl_names gl)), BindBuffer GL_ELEMENT_ARRAY_BUFFER (Suc (gl_names gl)),
          BufferData GL_ELEMENT_ARRAY_BUFFER (length idxs) (Index32Data (map of_nat idxs)) GL_DYNAMIC_DRAW])
       @ (if foldl max 0 idxs < 65536
          then [BufferData GL_ELEMENT_ARRAY_BUFFER (length idxs) (Index16Data (map of_nat idxs)) GL_DYNAMIC_DRAW]
          else [])
       @ [BindVertexArray (vao (mMeshes m ! 0)),
          DrawElements GL_POINTS (length idxs)
            (if foldl max 0 idxs < 65536 then GL_UNSIGNED_SHORT else GL_UNSIGNED_INT),
          BindVertexArray 0, DeleteBuffers (Suc (gl_names gl)), BindBuffer GL_ELEMENT_ARRAY_BUFFER 0]"
  using assms by (simp add: drawPointsSubset_def emit_def Let_def)

lemma collect_loop:
  "g < 2 ^ 32 \<Longrightarrow>
   foldl (\<lambda>(points, globalIndex) i.
              (points @ [Point (position_v (vertices mesh ! i)) globalIndex], (globalIndex + 1) mod 2 ^ 32))
           (pts, g) [0..<n] =
     (pts @ map (\<lambda>i. Point (position_v (vertices mesh ! i)) ((g + i) mod 2 ^ 32)) [0..<n],
      (g + n) mod 2 ^ 32)"
  by (induction n) (simp_all add: mod_simps)

lemma collect_mesh_eq:
  "g < 2 ^ 32 \<Longrightarrow>
   collect_mesh (pts, g) mesh =
     (pts @ map (\<lambda>i. Point (position_v (vertices mesh ! i)) ((g + i) mod 2 ^ 32)) [0..<vertexCount mesh],
      (g + vertexCount mesh) mod 2 ^ 32)"
  unfolding collect_mesh_def by (rule collect_loop)

lemma foldl_collect:
  "g < 2 ^ 32 \<Longrightarrow>
   \<exists>R g'. foldl collect_mesh (pts, g) ms = (pts @ R, g') \<and> g' < 2 ^ 32 \<and>
          length R = sum_list (map vertexCount ms)"
proof (induction ms arbitrary: pts g)
  case Nil
  then show ?case by simp
next
  case (Cons mesh ms)
  let ?A = "map (\<lambda>i. Point (position_v (vertices mesh ! i)) ((g + i) mod 2 ^ 32)) [0..<vertexCount mesh]"
  let ?g = "(g + vertexCount mesh) mod 2 ^ 32"
  have "?g < 2 ^ 32" by simp
  from Cons.IH [OF this, of "pts @ ?A"] obtain R g' where
    R: "foldl collect_mesh (pts @ ?A, ?g) ms = ((pts @ ?A) @ R, g')" "g' < 2 ^ 32"
      "length R = sum_list (map vertexCount ms)" by blast
  have "foldl collect_mesh (pts, g) (mesh # ms) = (pts @ (?A @ R), g')"
    using R(1) by (simp add: collect_mesh_eq [OF Cons.prems])
  moreover have "length (?A @ R) = sum_list (map vertexCount (mesh # ms))"
    using R(3) by simp
  ultimately show ?case using R(2) by blast
qed

lemma collectPoints_length: "length (collectPoints ms) = sum_list (map vertexCount ms)"
proof -
  obtain R g' where "foldl collect_mesh ([], 0) ms = ([] @ R, g')" "length R = sum_list (map vertexCount ms)"
    using foldl_collect [of 0 "[]" ms] by auto
  then show ?thesis by (simp add: collectPoints_def)
qed

lemma collectPoints_second_mesh:
  assumes "i < vertexCount b"
  shows "collectPoints (a # b # rest) ! (vertexCount a + i) =
           Point (position_v (vertices b ! i)) ((vertexCount a + i) mod 2 ^ 32)"
proof -
  let ?A = "map (\<lambda>i. Point (position_v (vertices a ! i)) ((0 + i) mod 2 ^ 32)) [0..<vertexCount a]"
  let ?ga = "(0 + vertexCount a) mod 2 ^ 32"
  let ?B = "map (\<lambda>i. Point (position_v (vertices b ! i)) ((?ga + i) mod 2 ^ 32)) [0..<vertexCount b]"
  let ?gb = "(?ga + vertexCount b) mod 2 ^ 32"
  have ga: "?ga < 2 ^ 32" and gb: "?gb < 2 ^ 32" by simp_all
  obtain R g' where R: "foldl collect_mesh (([] @ ?A) @ ?B, ?gb) rest = ((([] @ ?A) @ ?B) @ R, g')"
    using foldl_collect [OF gb, of "([] @ ?A) @ ?B" rest] by blast
  have "foldl collect_mesh ([], 0) (a # b # rest) = (?A @ ?B @ R, g')"
    using R collect_mesh_eq [of 0 "[]" a] collect_mesh_eq [OF ga, of "[] @ ?A" b] by simp
  then have "collectPoints (a # b # rest) = ?A @ ?B @ R" by (simp add: collectPoints_def)
  then have "collectPoints (a # b # rest) ! (vertexCount a + i) = ?B ! i"
    using assms by (simp add: nth_append)
  then show ?thesis using assms by (simp add: mod_simps)
qed

lemma unat_of_nat_16: "idx < 65536 \<Longrightarrow> unat (of_nat idx :: 16 word) = idx"
  by (simp add: unat_of_nat)

lemma unat_of_nat_32: "idx < 2 ^ 32 \<Longrightarrow> unat (of_nat idx :: 32 word) = idx"
  by (simp add: unat_of_nat)

lemma drawPointsSubset_block:
  assumes "idxs \<noteq> []" "mMeshes m \<noteq> []" "isPointCloud (mMeshes m ! 0)" "vao (mMeshes m ! 0) \<noteq> 0"
    and "\<forall>idx \<in> set idxs. idx < 2 ^ 32"
  shows "\<exists>pre data ty post.
        gl_log (drawPointsSubset m idxs ps gl) = gl_log gl @ pre
          @ [BufferData GL_ELEMENT_ARRAY_BUFFER (length idxs) data GL_DYNAMIC_DRAW,
             BindVertexArray (vao (mMeshes m ! 0)),
             DrawElements GL_POINTS (length idxs) ty] @ post \<and>
        index_values data = idxs \<and>
        (\<forall>c \<in> set (pre @ post). \<not> is_draw_call c)"
proof (cases "foldl max 0 idxs < 65536")
  case True
  then have small: "\<forall>idx \<in> set idxs. idx < 65536" by (simp add: foldl_max_less)
  let ?pre = "(if fne ps (sLastPointSize_subset gl) then [PointSize ps] else [])
       @ [GenBuffers (Suc (gl_names gl)), BindBuffer GL_ELEMENT_ARRAY_BUFFER (Suc (gl_names gl)),
          BufferData GL_ELEMENT_ARRAY_BUFFER (length idxs) (Index32Data (map of_nat idxs)) GL_DYNAMIC_DRAW]"
  let ?post = "[BindVertexArray 0, DeleteBuffers (Suc (gl_names gl)), BindBuffer GL_ELEMENT_ARRAY_BUFFER 0]"
  have "gl_log (drawPointsSubset m idxs ps gl) = gl_log gl @ ?pre
          @ [BufferData GL_ELEMENT_ARRAY_BUFFER (length idxs) (Index16Data (map of_nat idxs)) GL_DYNAMIC_DRAW,
             BindVertexArray (vao (mMeshes m ! 0)),
             DrawElements GL_POINTS (length idxs) GL_UNSIGNED_SHORT] @ ?post"
    using True by (simp add: drawPointsSubset_log [OF assms(1-4)])
  moreover have "index_values (Index16Data (map of_nat idxs)) = idxs"
    using small by (simp add: unat_of_nat_16 map_idI)
  moreover have "\<forall>c \<in> set (?pre @ ?post). \<not> is_draw_call c" by simp
  ultimately show ?thesis by blast
next
  case False
  let ?pre = "(if fne ps (sLastPointSize_subset gl) then [PointSize ps] else [])
       @ [GenBuffers (Suc (gl_names gl)), BindBuffer GL_ELEMENT_ARRAY_BUFFER (Suc (gl_names gl))]"
  let ?post = "[BindVertexArray 0, DeleteBuffers (Suc (gl_names gl)), BindBuffer GL_ELEMENT_ARRAY_BUFFER 0]"
  have "gl_log (drawPointsSubset m idxs ps gl) = gl_log gl @ ?pre
          @ [BufferData GL_ELEMENT_ARRAY_BUFFER (length idxs) (Index32Data (map of_nat idxs)) GL_DYNAMIC_DRAW,
             BindVertexArray (vao (mMeshes m ! 0)),
             DrawElements GL_POINTS (length idxs) GL_UNSIGNED_INT] @ ?post"
    using False by (simp add: drawPointsSubset_log [OF assms(1-4)])
  moreover have "index_values (Index32Data (map of_nat idxs)) = idxs"
    using assms(5) by (simp add: unat_of_nat_32 map_idI)
  moreover have "\<forall>c \<in> set (?pre @ ?post). \<not> is_draw_call c" by simp
  ultimately show ?thesis by blast
qed

lemma octree_holds_second_mesh:
  assumes "build (collectPoints (a # b # rest)) mn mx P D = Some oct" and "mRoot oct = Some r"
    and "i < vertexCount b"
  shows "vertexCount a + i \<in> set (leafIndices r) \<and>
         position (collectPoints (a # b # rest) ! (vertexCount a + i)) = position_v (vertices b ! i)"
proof -
  from build_built [OF assms(1)] assms(2)
  have b: "built (collectPoints (a # b # rest)) P D mn mx 0 [0..<length (collectPoints (a # b # rest))] r"
    by auto
  have "mset (leafIndices r) = mset [0..<length (collectPoints (a # b # rest))]"
    by (rule built_mset [OF b])
  then have "set (leafIndices r) = {0..<length (collectPoints (a # b # rest))}"
    by (metis mset_eq_setD set_upt)
  moreover have "vertexCount a + i < length (collectPoints (a # b # rest))"
    using assms(3) by (simp add: collectPoints_length)
  ultimately show ?thesis
    using collectPoints_second_mesh [OF assms(3), of a rest] by simp
qed

lemma draw_points_mode_subset:
  assumes "enableSpatialIndexing sc" "hasSpatialIndex (model sc)"
    and "getVisiblePoints (mSpatialIndex (model sc)) (viewProj fs) (camPos fs) FLT_MAX \<noteq> []"
  shows "fst (draw_points_mode sc fs pd) =
     [Use MainShader,
      Model_drawPointsSubset (getVisiblePoints (mSpatialIndex (model sc)) (viewProj fs) (camPos fs) FLT_MAX)
        (pointSize sc)]"
  using assms by (simp add: draw_points_mode_def Let_def)

text \<open>
  C9. \<^verbatim>\<open>drawPointsSubset\<close>, given a non-empty index list and a model whose first mesh is
  an uploaded point cloud, issues one draw call: an indexed point draw of all the given
  indices, as they are, with the first mesh's vertex array bound; nothing relates the
  indices to that mesh's vertex count. The octree built over the points that
  \<^verbatim>\<open>loadFromFile\<close> collects holds the index \<open>vertexCount a + i\<close> for vertex \<open>i\<close> of the
  second mesh, and in the plain-points path \<^verbatim>\<open>Scene::draw\<close> hands the visible indices
  to \<^verbatim>\<open>drawPointsSubset\<close> as they are.
\<close>

theorem drawPointsSubset_first_mesh_only:
  "(idxs \<noteq> [] \<and> mMeshes m \<noteq> [] \<and> isPointCloud (mMeshes m ! 0) \<and> vao (mMeshes m ! 0) \<noteq> 0 \<and>
    (\<forall>idx \<in> set idxs. idx < 2 ^ 32) \<longrightarrow>
      (\<exists>pre data ty post.
        gl_log (drawPointsSubset m idxs ps gl) = gl_log gl @ pre
          @ [BufferData GL_ELEMENT_ARRAY_BUFFER (length idxs) data GL_DYNAMIC_DRAW,
             BindVertexArray (vao (mMeshes m ! 0)),
             DrawElements GL_POINTS (length idxs) ty] @ post \<and>
        index_values data = idxs \<and>
        (\<forall>c \<in> set (pre @ post). \<not> is_draw_call c))) \<and>
   (build (collectPoints (a # b # rest)) mn mx P D = Some oct \<and> mRoot oct = Some r \<and> i < vertexCount b \<longrightarrow>
      vertexCount a + i \<in> set (leafIndices r) \<and>
      position (collectPoints (a # b # rest) ! (vertexCount a + i)) = position_v (vertices b ! i)) \<and>
   (enableSpatialIndexing sc \<and> hasSpatialIndex (model sc) \<and>
    getVisiblePoints (mSpatialIndex (model sc)) (viewProj fs) (camPos fs) FLT_MAX \<noteq> [] \<longrightarrow>
      fst (draw_points_mode sc fs pd) =
        [Use MainShader,
         Model_drawPointsSubset (getVisiblePoints (mSpatialIndex (model sc)) (viewProj fs) (camPos fs) FLT_MAX)
           (pointSize sc)])"
  using drawPointsSubset_block [of idxs m ps gl] octree_holds_second_mesh [of a b rest mn mx P D oct r i]
    draw_points_mode_subset [of sc fs pd]
  by blast


lemma collectPoints_two_cloud: "collectPoints [cloud_a, cloud_b] = points2"
  by (simp add: collectPoints_def collect_mesh_def cloud_a_def cloud_b_def points2_def
      Mesh_default_def Vertex_default_def)

lemma two_cloud_index:
  "mSpatialIndex two_cloud_model = \<lparr>mRoot = Some (Node (V3 0 0 0) (V3 1 1 1) []
     [Some (Node (V3 0 0 0) (V3 (1/2) (1/2) (1/2)) [0] (replicate 8 None) 1 True),
      None, None, None, None, None, None,
      Some (Node (V3 (1/2) (1/2) (1/2)) (V3 1 1 1) [1] (replicate 8 None) 1 True)] 0 False),
     stats = \<lparr>mNodeCount = 3, mMaxDepth = 1\<rparr>\<rparr>"
  by (simp only: two_cloud_model_def collectPoints_two_cloud build_points2 option.sel) simp

lemma two_cloud_visible:
  "getVisiblePoints (mSpatialIndex two_cloud_model) identity_mat4 (V3 (1/2) (1/2) (1/2)) FLT_MAX = [0, 1]"
  using FLT_MAX_nonneg
  by (simp only: two_cloud_index)
     (simp add: getVisiblePoints_def extract_identity frustum_eval replicate8 FLT_MAX_def)

theorem drawPointsSubset_first_mesh_only_witness:
  "(\<exists>pre data ty post.
      gl_log (drawPointsSubset two_cloud_model [0, 1] (Finite 2) GL_init) = gl_log GL_init @ pre
        @ [BufferData GL_ELEMENT_ARRAY_BUFFER (length [0, 1 :: nat]) data GL_DYNAMIC_DRAW,
           BindVertexArray (vao (mMeshes two_cloud_model ! 0)),
           DrawElements GL_POINTS (length [0, 1 :: nat]) ty] @ post \<and>
      index_values data = [0, 1] \<and>
      (\<forall>c \<in> set (pre @ post). \<not> is_draw_call c)) \<and>
   vertexCount (mMeshes two_cloud_model ! 0) \<le> 1 \<and>
   vertexCount cloud_a + 0 \<in> set (leafIndices (the (mRoot (mSpatialIndex two_cloud_model)))) \<and>
   position (collectPoints [cloud_a, cloud_b] ! (vertexCount cloud_a + 0)) = position_v (vertices cloud_b ! 0) \<and>
   fst (draw_points_mode two_cloud_scene frame_center None) =
     [Use MainShader, Model_drawPointsSubset [0, 1] (Finite 2)]"
proof -
  let ?r = "Node (V3 0 0 0) (V3 1 1 1) []
     [Some (Node (V3 0 0 0) (V3 (1/2) (1/2) (1/2)) [0] (replicate 8 None) 1 True),
      None, None, None, None, None, None,
      Some (Node (V3 (1/2) (1/2) (1/2)) (V3 1 1 1) [1] (replicate 8 None) 1 True)] 0 False"
  let ?oct = "\<lparr>mRoot = Some ?r, stats = \<lparr>mNodeCount = 3, mMaxDepth = 1\<rparr>\<rparr>"
  have h1: "[0, 1 :: nat] \<noteq> [] \<and> mMeshes two_cloud_model \<noteq> [] \<and> isPointCloud (mMeshes two_cloud_model ! 0) \<and>
      vao (mMeshes two_cloud_model ! 0) \<noteq> 0 \<and> (\<forall>idx \<in> set [0, 1 :: nat]. idx < 2 ^ 32)"
    by (simp add: two_cloud_model_def cloud_a_def Mesh_default_def)
  have b: "build (collectPoints (cloud_a # cloud_b # [])) (V3 0 0 0) (V3 1 1 1) 1 8 = Some ?oct"
    by (simp only: collectPoints_two_cloud build_points2)
  have h2: "build (collectPoints (cloud_a # cloud_b # [])) (V3 0 0 0) (V3 1 1 1) 1 8 = Some ?oct \<and>
      mRoot ?oct = Some ?r \<and> 0 < vertexCount cloud_b"
    using b by (simp add: cloud_b_def Mesh_default_def)
  have vis: "getVisiblePoints (mSpatialIndex (model two_cloud_scene)) (viewProj frame_center)
      (camPos frame_center) FLT_MAX = [0, 1]"
    using two_cloud_visible by (simp add: two_cloud_scene_def frame_center_def)
  have h3: "enableSpatialIndexing two_cloud_scene \<and> hasSpatialIndex (model two_cloud_scene) \<and>
      getVisiblePoints (mSpatialIndex (model two_cloud_scene)) (viewProj frame_center)
        (camPos frame_center) FLT_MAX \<noteq> []"
    unfolding vis by (simp add: two_cloud_scene_def hasSpatialIndex_def valid_def two_cloud_index)
  have v: "vertexCount (mMeshes two_cloud_model ! 0) \<le> 1"
    by (simp add: two_cloud_model_def cloud_a_def Mesh_default_def)
  have r: "the (mRoot (mSpatialIndex two_cloud_model)) = ?r"
    by (simp only: two_cloud_index) simp
  have ps: "pointSize two_cloud_scene = Finite 2" by (simp add: two_cloud_scene_def)
  from drawPointsSubset_first_mesh_only [of "[0, 1]" two_cloud_model "Finite 2" GL_init
      cloud_a cloud_b "[]" "V3 0 0 0" "V3 1 1 1" 1 8 ?oct ?r 0 two_cloud_scene frame_center None]
    h1 h2 h3
  show ?thesis unfolding vis r ps using v by blast
qed

end
